(* ===== verification/Prelude.thy ===== *)
theory Prelude
  imports Main "HOL-Library.Word" "HOL-Library.Char_ord" "HOL-Library.List_Lexorder"
    "HOL-Library.Product_Lexorder" "HOL-Library.Multiset"
begin

text \<open>
  Shared ground of the development: the exceptions of the program, the result type
  \<open>exn + 'a\<close> and its sequencing, Python text (bytes of its UTF-8 encoding: byte-wise
  lexicographic order and substring search agree with Python's on code points), decimal
  formatting, the insertion-ordered grouping of \<^verbatim>\<open>defaultdict(list)\<close>, first-occurrence
  de-duplication, and Python's binary64 division where the program divides.
\<close>

named_theorems store_simps "equations of the session and repository operations"
named_theorems err_simps "equations of the result type"

subsection \<open>Text\<close>

type_synonym uuid = "128 word"

definition pylen :: "string \<Rightarrow> nat" where
  \<comment> \<open>Python's len: the number of code points, i.e. of bytes that do not continue one\<close>
  "pylen s = length (filter (\<lambda>c. \<not> (128 \<le> (of_char c :: nat) \<and> (of_char c :: nat) < 192)) s)"

fun join :: "string \<Rightarrow> string list \<Rightarrow> string" where
  "join sep [] = []"
| "join sep [x] = x"
| "join sep (x # y # ys) = x @ sep @ join sep (y # ys)"

definition digit :: "nat \<Rightarrow> char" where
  "digit d = char_of (48 + d)"

fun nat_digits :: "nat \<Rightarrow> string" where
  "nat_digits n = (if n < 10 then [digit n] else nat_digits (n div 10) @ [digit (n mod 10)])"

declare nat_digits.simps [simp del]

definition str_int :: "int \<Rightarrow> string" where
  "str_int i = (if i < 0 then ''-'' @ nat_digits (nat (- i)) else nat_digits (nat i))"

definition pad0 :: "nat \<Rightarrow> int \<Rightarrow> string" where
  "pad0 k i = (let ds = nat_digits (nat i) in replicate (k - length ds) CHR ''0'' @ ds)"

definition is_digit :: "char \<Rightarrow> bool" where
  "is_digit c \<longleftrightarrow> (48::nat) \<le> of_char c \<and> (of_char c :: nat) \<le> 57"

definition digit_val :: "char \<Rightarrow> int" where
  "digit_val c = int (of_char c :: nat) - 48"

definition to_lower :: "char \<Rightarrow> char" where
  \<comment> \<open>ASCII part of str.lower\<close>
  "to_lower c = (let n = (of_char c :: nat) in if 65 \<le> n \<and> n \<le> 90 then char_of (n + 32) else c)"

subsection \<open>Exceptions and results\<close>

text \<open>
  The exceptions the program raises, catches or lets through. \<open>ValidationError\<close> is
  pydantic's (a subclass of \<open>ValueError\<close>), \<open>DbError\<close> stands for every exception of the
  database layer, \<open>ProviderError\<close> for one of a notification provider.
\<close>

datatype exn =
    TaskNotFoundError uuid
  | ReminderNotFoundError uuid
  | InvalidTaskError string
  | InvalidReminderError string
  | NaiveDateTimeError
  | ValueError string
  | ValidationError string
  | TypeError string
  | AttributeError string
  | KeyError string
  | IndexError string
  | OverflowError
  | LLMGenerationError string
  | DbError string
  | ProviderError string

fun is_value_error :: "exn \<Rightarrow> bool" where
  \<comment> \<open>isinstance(exc, ValueError)\<close>
  "is_value_error NaiveDateTimeError = True"
| "is_value_error (ValueError _) = True"
| "is_value_error (ValidationError _) = True"
| "is_value_error _ = False"

fun is_type_error :: "exn \<Rightarrow> bool" where
  "is_type_error (TypeError _) = True"
| "is_type_error _ = False"

definition then_do :: "exn + 'a \<Rightarrow> ('a \<Rightarrow> exn + 'b) \<Rightarrow> exn + 'b" where
  "then_do r f = (case r of Inl e \<Rightarrow> Inl e | Inr x \<Rightarrow> f x)"

lemma then_do_Inl [simp, err_simps]: "then_do (Inl e) f = Inl e"
  by (simp add: then_do_def)

lemma then_do_Inr [simp, err_simps]: "then_do (Inr x) f = f x"
  by (simp add: then_do_def)

lemma then_do_eq_Inr: "then_do r f = Inr y \<longleftrightarrow> (\<exists>x. r = Inr x \<and> f x = Inr y)"
  by (cases r) auto

lemma then_do_eq_Inl: "then_do r f = Inl e \<longleftrightarrow> r = Inl e \<or> (\<exists>x. r = Inr x \<and> f x = Inl e)"
  by (cases r) auto

fun map_res :: "('a \<Rightarrow> exn + 'b) \<Rightarrow> 'a list \<Rightarrow> exn + 'b list" where
  \<comment> \<open>a comprehension whose element may raise: the first exception wins\<close>
  "map_res f [] = Inr []"
| "map_res f (x # xs) = then_do (f x) (\<lambda>y. then_do (map_res f xs) (\<lambda>ys. Inr (y # ys)))"

lemma map_res_Inr_iff:
  "map_res f xs = Inr ys \<longleftrightarrow> list_all2 (\<lambda>x y. f x = Inr y) xs ys"
proof (induction xs arbitrary: ys)
  case (Cons x xs)
  then show ?case by (cases ys) (auto simp: then_do_eq_Inr)
qed (auto)

lemma map_res_total: "(\<And>x. x \<in> set xs \<Longrightarrow> f x = Inr (g x)) \<Longrightarrow> map_res f xs = Inr (map g xs)"
  by (induction xs) auto

lemma map_res_Inl_iff: "(\<exists>e. map_res f xs = Inl e) \<longleftrightarrow> (\<exists>x \<in> set xs. \<exists>e. f x = Inl e)"
proof (induction xs)
  case (Cons x xs)
  then show ?case by (cases "f x"; cases "map_res f xs") auto
qed simp

lemma map_res_InlD: "map_res f xs = Inl e \<Longrightarrow> \<exists>x \<in> set xs. f x = Inl e"
  by (induction xs) (auto simp: then_do_eq_Inl)

subsection \<open>Grouping in insertion order\<close>

text \<open>
  \<^verbatim>\<open>
  groups = defaultdict(list)
  for x in xs: groups[k(x)].append(x)
  \<close>
  read back by \<^verbatim>\<open>groups.items()\<close>: an association list in order of first insertion.
\<close>

fun add_group :: "('a \<Rightarrow> 'k) \<Rightarrow> 'a \<Rightarrow> ('k \<times> 'a list) list \<Rightarrow> ('k \<times> 'a list) list" where
  "add_group k x [] = [(k x, [x])]"
| "add_group k x ((q, ys) # gs) =
     (if q = k x then (q, ys @ [x]) # gs else (q, ys) # add_group k x gs)"

definition group_by :: "('a \<Rightarrow> 'k) \<Rightarrow> 'a list \<Rightarrow> ('k \<times> 'a list) list" where
  "group_by k xs = foldl (\<lambda>gs x. add_group k x gs) [] xs"

lemma group_by_Nil [simp]: "group_by k [] = []"
  by (simp add: group_by_def)

lemma group_by_snoc: "group_by k (xs @ [x]) = add_group k x (group_by k xs)"
  by (simp add: group_by_def)

lemma keys_add_group: "set (map fst (add_group k x gs)) = insert (k x) (set (map fst gs))"
  by (induction k x gs rule: add_group.induct) auto

lemma distinct_add_group: "distinct (map fst gs) \<Longrightarrow> distinct (map fst (add_group k x gs))"
proof (induction k x gs rule: add_group.induct)
  case (2 k x q ys gs)
  then show ?case using keys_add_group [of k x gs] by auto
qed simp

lemma map_of_add_group:
  "map_of (add_group k x gs) q =
     (if q = k x then Some (case map_of gs q of None \<Rightarrow> [x] | Some ys \<Rightarrow> ys @ [x])
      else map_of gs q)"
  by (induction k x gs rule: add_group.induct) auto

lemma distinct_group_by: "distinct (map fst (group_by k xs))"
  by (induction xs rule: rev_induct) (auto simp: group_by_snoc distinct_add_group)

lemma map_of_group_by:
  "map_of (group_by k xs) q =
     (if q \<in> k ` set xs then Some (filter (\<lambda>x. k x = q) xs) else None)"
proof (induction xs rule: rev_induct)
  case (snoc x xs)
  have *: "filter (\<lambda>y. k y = q) xs = []" if "q \<notin> k ` set xs"
    using that by (auto simp: filter_empty_conv)
  show ?case using snoc * by (auto simp: group_by_snoc map_of_add_group)
qed simp

lemma group_by_member:
  "(q, ys) \<in> set (group_by k xs) \<longleftrightarrow> q \<in> k ` set xs \<and> ys = filter (\<lambda>x. k x = q) xs"
proof -
  have "(q, ys) \<in> set (group_by k xs) \<longleftrightarrow> map_of (group_by k xs) q = Some ys"
    by (rule map_of_eq_Some_iff [OF distinct_group_by, symmetric])
  then show ?thesis by (auto simp: map_of_group_by)
qed

lemma group_by_keys: "set (map fst (group_by k xs)) = k ` set xs"
proof (intro set_eqI iffI)
  fix q assume "q \<in> k ` set xs"
  then have "(q, filter (\<lambda>x. k x = q) xs) \<in> set (group_by k xs)"
    by (simp add: group_by_member)
  then have "fst (q, filter (\<lambda>x. k x = q) xs) \<in> fst ` set (group_by k xs)" by (rule imageI)
  then show "q \<in> set (map fst (group_by k xs))" by simp
next
  fix q assume "q \<in> set (map fst (group_by k xs))"
  then show "q \<in> k ` set xs" by (auto simp: group_by_member)
qed

subsection \<open>Keep the first occurrence of each key\<close>

fun dedup :: "('a \<Rightarrow> 'k) \<Rightarrow> 'k list \<Rightarrow> 'a list \<Rightarrow> 'a list" where
  "dedup k seen [] = []"
| "dedup k seen (x # xs) =
     (if k x \<in> set seen then dedup k seen xs else x # dedup k (k x # seen) xs)"

lemma set_dedup_subset: "set (dedup k seen xs) \<subseteq> set xs"
  by (induction k seen xs rule: dedup.induct) auto

lemma dedup_keys: "k ` set (dedup k seen xs) = k ` set xs - set seen"
  by (induction k seen xs rule: dedup.induct) auto

lemma distinct_dedup: "distinct (map k (dedup k seen xs))"
proof (induction k seen xs rule: dedup.induct)
  case (2 k seen x xs)
  then show ?case using dedup_keys [of k "k x # seen" xs] by auto
qed simp

lemma dedup_id: "distinct (map k xs) \<Longrightarrow> set seen \<inter> k ` set xs = {} \<Longrightarrow> dedup k seen xs = xs"
  by (induction k seen xs rule: dedup.induct) auto

subsection \<open>Sorting by a key\<close>

lemmas sort_facts = mset_sort set_sort sorted_sort_key length_sort

lemma hd_sort_key_min:
  assumes "xs \<noteq> []" and "x \<in> set xs"
  shows "f (hd (sort_key f xs)) \<le> f x"
proof -
  have ne: "sort_key f xs \<noteq> []"
    using assms(1) by (metis set_empty set_sort)
  then obtain y ys where y: "sort_key f xs = y # ys" by (cases "sort_key f xs") auto
  have "sorted (map f (y # ys))" using sorted_sort_key [of f xs] y by simp
  moreover have "x \<in> set (y # ys)" using assms(2) y by (metis set_sort)
  ultimately show ?thesis using y by auto
qed

lemma sorted_map_filter_key: "sorted (map f xs) \<Longrightarrow> sorted (map f (filter P xs))"
  by (induction xs) auto

subsection \<open>Python's binary64 quotient\<close>

text \<open>
  A finite double is a pair \<open>(m, e)\<close> standing for \<open>m * 2 powr (- e)\<close>. A quotient of two
  integers is rounded once, to 53 significant bits, ties to even (the program's quotients are
  far from overflow and underflow).
\<close>

type_synonym f64 = "int \<times> int"

definition round_half_even :: "int \<Rightarrow> int \<Rightarrow> int" where
  "round_half_even a b =
     (let q = a div b; r = a mod b in if 2 * r > b \<or> 2 * r = b \<and> odd q then q + 1 else q)"

function bit_len :: "int \<Rightarrow> int" where
  "bit_len n = (if n \<le> 0 then 0 else 1 + bit_len (n div 2))"
  by pat_completeness auto
termination
  by (relation "measure nat") auto

declare bit_len.simps [simp del]

definition scale2 :: "int \<Rightarrow> int \<Rightarrow> int" where
  \<comment> \<open>\<open>a\<close> times 2 to the \<open>e\<close>, for \<open>e\<close> not negative; \<open>a\<close> unchanged otherwise\<close>
  "scale2 a e = a * 2 ^ nat e"

definition f64_pos_ratio :: "int \<Rightarrow> int \<Rightarrow> f64" where
  "f64_pos_ratio a b =
     (let e0 = 53 - (bit_len a - bit_len b);
          e = (if scale2 a e0 \<ge> 2 ^ 53 * scale2 b (- e0) then e0 - 1 else e0)
      in (round_half_even (scale2 a e) (scale2 b (- e)), e))"

definition f64_div :: "int \<Rightarrow> int \<Rightarrow> f64" where
  "f64_div a b =
     (if a = 0 then (0, 0)
      else if a < 0 then (case f64_pos_ratio (- a) b of (m, e) \<Rightarrow> (- m, e))
      else f64_pos_ratio a b)"

definition f64_mul_int :: "f64 \<Rightarrow> int \<Rightarrow> f64" where
  "f64_mul_int x c = (case x of (m, e) \<Rightarrow>
     (let a = scale2 (m * c) (- e); b = scale2 1 e in f64_div a b))"

definition f64_div_int :: "f64 \<Rightarrow> int \<Rightarrow> f64" where
  "f64_div_int x c = (case x of (m, e) \<Rightarrow> f64_div (scale2 m (- e)) (scale2 c e))"

definition f64_trunc :: "f64 \<Rightarrow> int" where
  \<comment> \<open>int(x)\<close>
  "f64_trunc x = (case x of (m, e) \<Rightarrow>
     if m < 0 then - (scale2 (- m) (- e) div scale2 1 e) else scale2 m (- e) div scale2 1 e)"

definition fmt_1f :: "f64 \<Rightarrow> string" where
  \<comment> \<open>format(x, '.1f') for a value that is not negative: the exact value, ties to even\<close>
  "fmt_1f x = (case x of (m, e) \<Rightarrow>
     (let t = round_half_even (10 * scale2 m (- e)) (scale2 1 e)
      in str_int (t div 10) @ ''.'' @ str_int (t mod 10)))"

text \<open>A quotient that is a whole number below 2 to the 53 is exact.\<close>

lemma bit_len_bounds: "0 < n \<Longrightarrow> 0 < bit_len n \<and> 2 ^ nat (bit_len n - 1) \<le> n \<and> n < 2 ^ nat (bit_len n)"
proof (induction n rule: bit_len.induct)
  case (1 n)
  have b: "bit_len n = 1 + bit_len (n div 2)" using 1 by (simp add: bit_len.simps [of n])
  show ?case
  proof (cases "n = 1")
    case True
    then show ?thesis by (simp add: bit_len.simps)
  next
    case False
    then have "0 < n div 2" using 1 by auto
    then have IH: "0 < bit_len (n div 2)" "2 ^ nat (bit_len (n div 2) - 1) \<le> n div 2"
      "n div 2 < 2 ^ nat (bit_len (n div 2))"
      using 1 by auto
    define k where "k = nat (bit_len (n div 2) - 1)"
    have k: "nat (bit_len (n div 2)) = Suc k" using IH(1) by (simp add: k_def)
    have "nat (bit_len n - 1) = Suc k" "nat (bit_len n) = Suc (Suc k)" using b IH(1) by (simp_all add: k_def)
    moreover have "2 ^ k \<le> n div 2" "n div 2 < 2 ^ Suc k" using IH k by (simp_all add: k_def)
    ultimately show ?thesis using b IH(1) by auto
  qed
qed

lemma round_half_even_exact: "0 < b \<Longrightarrow> round_half_even (q * b) b = q"
  by (simp add: round_half_even_def Let_def)

lemma f64_div_exact:
  assumes "0 < q" and "q < 2 ^ 53" and "0 < b"
  shows "\<exists>e \<ge> 0. f64_div (q * b) b = (q * 2 ^ nat e, e)"
proof -
  define a where "a = q * b"
  define e0 where "e0 = 53 - (bit_len a - bit_len b)"
  define e where "e = (if scale2 a e0 \<ge> 2 ^ 53 * scale2 b (- e0) then e0 - 1 else e0)"
  have a: "0 < a" using assms by (simp add: a_def)
  have lq: "0 < bit_len q" "q < 2 ^ nat (bit_len q)" "2 ^ nat (bit_len q - 1) \<le> q" using bit_len_bounds [OF assms(1)] by auto
  have lb: "0 < bit_len b" "b < 2 ^ nat (bit_len b)" using bit_len_bounds [OF assms(3)] by auto
  have la: "0 < bit_len a" "2 ^ nat (bit_len a - 1) \<le> a" using bit_len_bounds [OF a] by auto
  have "a < 2 ^ nat (bit_len q) * 2 ^ nat (bit_len b)"
    unfolding a_def using lq(2) lb(2) assms by (intro mult_strict_mono) auto
  then have "(2::int) ^ nat (bit_len a - 1) < 2 ^ (nat (bit_len q) + nat (bit_len b))"
    using la(2) by (simp add: power_add)
  then have "nat (bit_len a - 1) < nat (bit_len q) + nat (bit_len b)"
    by (rule power_less_imp_less_exp [rotated]) simp
  then have 1: "bit_len a \<le> bit_len q + bit_len b" using lq lb la by linarith
  have "(2::int) ^ nat (bit_len q - 1) < 2 ^ 53" using lq(3) assms(2) by linarith
  then have "nat (bit_len q - 1) < 53" by (rule power_less_imp_less_exp [rotated]) simp
  then have e0: "0 \<le> e0" using 1 unfolding e0_def by linarith
  have "0 \<le> e"
  proof (cases "e0 = 0")
    case True
    have "a < 2 ^ 53 * b" unfolding a_def using assms by (intro mult_strict_right_mono) auto
    then show ?thesis using True by (simp add: e_def scale2_def)
  next
    case False
    then show ?thesis using e0 by (simp add: e_def)
  qed
  moreover have "f64_div (q * b) b = (round_half_even (scale2 a e) (scale2 b (- e)), e)"
    using a by (simp add: f64_div_def f64_pos_ratio_def Let_def a_def [symmetric] e_def e0_def)
  moreover have "scale2 a e = (q * 2 ^ nat e) * b" "scale2 b (- e) = b"
    using \<open>0 \<le> e\<close> by (simp_all add: scale2_def a_def)
  ultimately show ?thesis using round_half_even_exact [OF assms(3)] by auto
qed

lemma f64_trunc_exact:
  assumes "0 < k" and "k * c < 2 ^ 53" and "0 < c" and "0 < b"
  shows "f64_trunc (f64_div_int (f64_div (k * c * b) b) c) = k"
proof -
  have kc: "0 < k * c" using assms by simp
  obtain e where e: "0 \<le> e" "f64_div (k * c * b) b = (k * c * 2 ^ nat e, e)"
    using f64_div_exact [OF kc assms(2,4)] by auto
  have "k \<le> k * c" using assms(1,3) by simp
  then have "k < 2 ^ 53" using assms(2) by linarith
  then obtain e' where e': "0 \<le> e'" "f64_div (k * (c * 2 ^ nat e)) (c * 2 ^ nat e) = (k * 2 ^ nat e', e')"
    using f64_div_exact [of k "c * 2 ^ nat e"] assms by auto
  have "f64_div_int (k * c * 2 ^ nat e, e) c = (k * 2 ^ nat e', e')"
    using e e' by (simp add: f64_div_int_def scale2_def mult.assoc)
  moreover have "\<not> k * 2 ^ nat e' < 0" using assms(1) by (simp add: not_less)
  ultimately show ?thesis using e(2) e'(1) by (simp add: f64_trunc_def scale2_def)
qed

subsection \<open>The front of a sorted list\<close>

lemma insort_key_front: "\<forall>y \<in> set B. f x \<le> f y \<Longrightarrow> insort_key f x (A @ B) = insort_key f x A @ B"
  by (induction A) (cases B; auto)+

lemma insort_key_back: "\<forall>y \<in> set A. f y < f x \<Longrightarrow> insort_key f x (A @ B) = A @ insort_key f x B"
  by (induction A) (auto simp: not_le [symmetric])

lemma sort_key_split:
  assumes "\<forall>x \<in> set xs. \<forall>y \<in> set xs. P x \<and> \<not> P y \<longrightarrow> f x < f y"
  shows "sort_key f xs = sort_key f (filter P xs) @ sort_key f (filter (\<lambda>x. \<not> P x) xs)"
  using assms
proof (induction xs)
  case (Cons x xs)
  then have IH: "sort_key f xs = sort_key f (filter P xs) @ sort_key f (filter (\<lambda>x. \<not> P x) xs)" by simp
  show ?case
  proof (cases "P x")
    case True
    then have "\<forall>y \<in> set (sort_key f (filter (\<lambda>x. \<not> P x) xs)). f x \<le> f y" using Cons.prems by (auto intro: less_imp_le)
    then show ?thesis using True IH by (simp add: insort_key_front)
  next
    case False
    then have "\<forall>y \<in> set (sort_key f (filter P xs)). f y < f x" using Cons.prems by auto
    then show ?thesis using False IH by (simp add: insort_key_back)
  qed
qed simp

end
