(* ===== verification/PyTime.thy ===== *)
theory PyTime
  imports Prelude
begin

text \<open>
  Dates and times as the program uses them: the proleptic calendar of Python's
  \<^verbatim>\<open>datetime\<close> module (ordinals, leap years, \<^verbatim>\<open>fromisoformat\<close>, \<^verbatim>\<open>isoformat\<close>), aware
  datetimes, and the program's own policy in \<^verbatim>\<open>utils/datetime_utils.py\<close>. Times are integers of
  microseconds; an aware datetime keeps its wall clock and its UTC offset, because
  \<^verbatim>\<open>date()\<close> reads the wall clock while comparison reads the instant.
\<close>

subsection \<open>The calendar\<close>

definition is_leap :: "int \<Rightarrow> bool" where
  "is_leap y \<longleftrightarrow> y mod 4 = 0 \<and> (y mod 100 \<noteq> 0 \<or> y mod 400 = 0)"

definition days_before_year :: "int \<Rightarrow> int" where
  "days_before_year year = (let y = year - 1 in y * 365 + y div 4 - y div 100 + y div 400)"

definition month_lengths :: "int list" where
  "month_lengths = [31, 28, 31, 30, 31, 30, 31, 31, 30, 31, 30, 31]"

definition month_length :: "bool \<Rightarrow> int \<Rightarrow> int" where
  "month_length leap m = (if m = 2 \<and> leap then 29 else month_lengths ! nat (m - 1))"

definition days_in_month :: "int \<Rightarrow> int \<Rightarrow> int" where
  "days_in_month y m = month_length (is_leap y) m"

definition plain_before_month :: "int \<Rightarrow> int" where
  "plain_before_month m = sum_list (take (nat (m - 1)) month_lengths)"

definition before_month :: "bool \<Rightarrow> int \<Rightarrow> int" where
  "before_month leap m = plain_before_month m + (if m > 2 \<and> leap then 1 else 0)"

definition days_before_month :: "int \<Rightarrow> int \<Rightarrow> int" where
  "days_before_month y m = before_month (is_leap y) m"

definition ymd2ord :: "int \<Rightarrow> int \<Rightarrow> int \<Rightarrow> int" where
  "ymd2ord y m d = days_before_year y + days_before_month y m + d"

definition month_day :: "bool \<Rightarrow> int \<Rightarrow> int \<times> int" where
  \<comment> \<open>month and day of the \<open>n\<close>-th day (from 0) of a year, by the module's estimate\<close>
  "month_day leap n =
     (let m = (n + 50) div 32;
          preceding = before_month leap m
      in if preceding > n
         then (let m' = m - 1; p' = preceding - month_length leap m' in (m', n - p' + 1))
         else (m, n - preceding + 1))"

definition ord2ymd :: "int \<Rightarrow> int \<times> int \<times> int" where
  "ord2ymd ordinal =
     (let n = ordinal - 1;
          n400 = n div 146097; n = n mod 146097;
          n100 = n div 36524; n = n mod 36524;
          n4 = n div 1461; n = n mod 1461;
          n1 = n div 365; n = n mod 365;
          year = n400 * 400 + 1 + n100 * 100 + n4 * 4 + n1
      in if n1 = 4 \<or> n100 = 4 then (year - 1, 12, 31)
         else (case month_day (n1 = 3 \<and> (n4 \<noteq> 24 \<or> n100 = 3)) n of (m, d) \<Rightarrow> (year, m, d)))"

definition MAX_ORD :: int where "MAX_ORD = 3652059"

definition month_day_ok :: "bool \<Rightarrow> int \<Rightarrow> bool" where
  "month_day_ok leap n = (case month_day leap n of (m, d) \<Rightarrow>
     1 \<le> m \<and> m \<le> 12 \<and> 1 \<le> d \<and> d \<le> month_length leap m \<and> before_month leap m + d = n + 1)"

lemma month_day_table: "list_all (month_day_ok False) [0..364]"
  by code_simp

lemma month_day_table_leap: "list_all (month_day_ok True) [0..365]"
  by code_simp

lemma month_day_spec:
  assumes "month_day (is_leap y) n = (m, d)" and "0 \<le> n"
    and "n < (if is_leap y then 366 else 365)"
  shows "1 \<le> m \<and> m \<le> 12 \<and> 1 \<le> d \<and> d \<le> days_in_month y m
         \<and> days_before_month y m + d = n + 1"
proof -
  have "month_day_ok (is_leap y) n"
    using assms(2,3) month_day_table month_day_table_leap
    by (cases "is_leap y") (auto simp: list_all_iff)
  with assms(1) show ?thesis
    by (simp add: month_day_ok_def days_in_month_def days_before_month_def)
qed

lemma leap_cycle:
  assumes "0 \<le> b" "b < 4" "0 \<le> c" "c < 25" "0 \<le> k" "k < 4"
  shows "days_before_year (a * 400 + 1 + b * 100 + c * 4 + k) = 146097 * a + 36524 * b + 1461 * c + 365 * k"
    and "is_leap (a * 400 + 1 + b * 100 + c * 4 + k) \<longleftrightarrow> k = 3 \<and> (c \<noteq> 24 \<or> b = 3)"
proof -
  let ?y = "a * 400 + b * 100 + c * 4 + k"
  have d4: "?y div 4 = a * 100 + b * 25 + c"
    by (rule int_div_pos_eq [where r = k]) (use assms in auto)
  have d100: "?y div 100 = a * 4 + b"
    by (rule int_div_pos_eq [where r = "c * 4 + k"]) (use assms in auto)
  have d400: "?y div 400 = a"
    by (rule int_div_pos_eq [where r = "b * 100 + c * 4 + k"]) (use assms in auto)
  show "days_before_year (a * 400 + 1 + b * 100 + c * 4 + k)
      = 146097 * a + 36524 * b + 1461 * c + 365 * k"
    using d4 d100 d400 by (simp add: days_before_year_def Let_def algebra_simps)
  have m4: "(?y + 1) mod 4 = (k + 1) mod 4"
    using mod_mult_self4 [of 4 "a * 100 + b * 25 + c" "k + 1"] by (simp add: algebra_simps)
  have m100: "(?y + 1) mod 100 = (c * 4 + k + 1) mod 100"
    using mod_mult_self4 [of 100 "a * 4 + b" "c * 4 + k + 1"] by (simp add: algebra_simps)
  have m400: "(?y + 1) mod 400 = (b * 100 + c * 4 + k + 1) mod 400"
    using mod_mult_self4 [of 400 a "b * 100 + c * 4 + k + 1"] by (simp add: algebra_simps)
  have z4: "(k + 1) mod 4 = 0 \<longleftrightarrow> k = 3"
    using assms by (cases "k = 3") (simp_all add: mod_pos_pos_trivial)
  have z100: "(c * 4 + k + 1) mod 100 = 0 \<longleftrightarrow> c = 24 \<and> k = 3"
  proof (cases "c * 4 + k + 1 = 100")
    case True
    then have "24 \<le> c" "3 \<le> k" using assms by linarith+
    then have "c = 24 \<and> k = 3" using assms by simp
    with True show ?thesis by simp
  next
    case False
    then have "c * 4 + k + 1 < 100" using assms by auto
    then show ?thesis using assms False by (simp add: mod_pos_pos_trivial)
  qed
  have z400: "(b * 100 + c * 4 + k + 1) mod 400 = 0 \<longleftrightarrow> b = 3 \<and> c = 24 \<and> k = 3"
  proof (cases "b * 100 + c * 4 + k + 1 = 400")
    case True
    then have "3 \<le> b" "24 \<le> c" "3 \<le> k" using assms by linarith+
    then have "b = 3 \<and> c = 24 \<and> k = 3" using assms by simp
    with True show ?thesis by simp
  next
    case False
    then have "b * 100 + c * 4 + k + 1 < 400" using assms by auto
    then show ?thesis using assms False by (simp add: mod_pos_pos_trivial)
  qed
  have "is_leap (?y + 1) \<longleftrightarrow> k = 3 \<and> (c \<noteq> 24 \<or> b = 3)"
    unfolding is_leap_def m4 m100 m400 z4 z100 z400 by auto
  then show "is_leap (a * 400 + 1 + b * 100 + c * 4 + k) \<longleftrightarrow> k = 3 \<and> (c \<noteq> 24 \<or> b = 3)"
    by (simp add: algebra_simps)
qed

text \<open>Every ordinal is the ordinal of the date it is split into, and that date is valid.\<close>

lemma ord2ymd_spec:
  assumes "ord2ymd n = (y, m, d)"
  shows "1 \<le> m \<and> m \<le> 12 \<and> 1 \<le> d \<and> d \<le> days_in_month y m \<and> ymd2ord y m d = n"
proof -
  define a r1 where "a = (n - 1) div 146097" and "r1 = (n - 1) mod 146097"
  define b r2 where "b = r1 div 36524" and "r2 = r1 mod 36524"
  define c r3 where "c = r2 div 1461" and "r3 = r2 mod 1461"
  define k r where "k = r3 div 365" and "r = r3 mod 365"
  let ?y = "a * 400 + 1 + b * 100 + c * 4 + k"
  have n: "n - 1 = 146097 * a + 36524 * b + 1461 * c + 365 * k + r"
    using mult_div_mod_eq [of 146097 "n - 1"] mult_div_mod_eq [of 36524 r1]
      mult_div_mod_eq [of 1461 r2] mult_div_mod_eq [of 365 r3]
    unfolding a_def r1_def [symmetric] b_def r2_def [symmetric] c_def r3_def [symmetric]
      k_def r_def [symmetric] by linarith
  have r: "r1 = 36524 * b + r2" "r2 = 1461 * c + r3" "r3 = 365 * k + r"
    unfolding b_def r2_def c_def r3_def k_def r_def by simp_all
  have rb: "0 \<le> r1" "r1 < 146097" "0 \<le> r2" "r2 < 36524" "0 \<le> r3" "r3 < 1461" "0 \<le> r" "r < 365"
    unfolding r1_def r2_def r3_def r_def by simp_all
  have b: "0 \<le> b" "b \<le> 4" "0 \<le> c" "c < 25" "0 \<le> k" "k \<le> 4" "0 \<le> r" "r < 365"
    using r rb by linarith+
  have eq: "ord2ymd n = (if k = 4 \<or> b = 4 then (?y - 1, 12, 31)
      else (case month_day (k = 3 \<and> (c \<noteq> 24 \<or> b = 3)) r of (m, d) \<Rightarrow> (?y, m, d)))"
    by (simp add: ord2ymd_def Let_def a_def b_def c_def k_def r1_def r2_def r3_def r_def)
  show ?thesis
  proof (cases "k = 4 \<or> b = 4")
    case True
    have ymd: "y = ?y - 1" "m = 12" "d = 31" using assms eq True by auto
    have dim: "days_in_month y 12 = 31" by (simp add: days_in_month_def month_length_def month_lengths_def)
    have dbm: "days_before_month y 12 = (if is_leap y then 335 else 334)"
      by (simp add: days_before_month_def before_month_def plain_before_month_def month_lengths_def)
    show ?thesis
    proof (cases "b = 4")
      case True
      then have z: "c = 0" "k = 0" "r = 0" using b r rb by linarith+
      have y: "y = a * 400 + 1 + 3 * 100 + 24 * 4 + 3" using ymd True z by simp
      have "days_before_year y = 146097 * a + 36524 * 3 + 1461 * 24 + 365 * 3" "is_leap y"
        unfolding y using leap_cycle [of 3 24 3 a] by auto
      then show ?thesis using n True z ymd dim dbm by (simp add: ymd2ord_def)
    next
      case False
      then have k: "k = 4" and bb: "b < 4" using True b by auto
      have z: "r = 0" using k b r rb by linarith
      have c: "c \<noteq> 24 \<or> b = 3" using k b r rb z by auto
      have y: "y = a * 400 + 1 + b * 100 + c * 4 + 3" using ymd k by simp
      have "days_before_year y = 146097 * a + 36524 * b + 1461 * c + 365 * 3" "is_leap y"
        unfolding y using leap_cycle [of b c 3 a] b bb c by auto
      then show ?thesis using n k z ymd dim dbm by (simp add: ymd2ord_def)
    qed
  next
    case False
    then have lt: "k < 4" "b < 4" using b by auto
    obtain m' d' where md: "month_day (is_leap ?y) r = (m', d')" by fastforce
    have "ord2ymd n = (?y, m', d')"
      using eq False md leap_cycle(2) [of b c k a] b lt by simp
    then have ymd: "y = ?y" "m = m'" "d = d'" using assms by auto
    have "r < (if is_leap ?y then 366 else 365)" using b by simp
    from month_day_spec [OF md _ this] b ymd leap_cycle(1) [of b c k a] lt n
    show ?thesis by (simp add: ymd2ord_def)
  qed
qed

subsection \<open>Datetimes\<close>

text \<open>
  The wall clock counts microseconds from 0001-01-01T00:00:00; \<^verbatim>\<open>datetime\<close> keeps it between
  that point and the end of year 9999 and raises \<open>OverflowError\<close> outside.
\<close>

definition DAY_US :: int where "DAY_US = 86400000000"

definition MINUTE_US :: int where "MINUTE_US = 60000000"

record datetime =
  wall :: int
  offset :: int

datatype pydatetime = Naive int | Aware datetime

definition wall_ok :: "int \<Rightarrow> bool" where
  "wall_ok w \<longleftrightarrow> 0 \<le> w \<and> w < MAX_ORD * DAY_US"

definition instant :: "datetime \<Rightarrow> int" where
  "instant d = wall d - offset d"

definition utc :: "int \<Rightarrow> datetime" where
  "utc t = \<lparr>wall = t, offset = 0\<rparr>"

definition shift :: "datetime \<Rightarrow> int \<Rightarrow> exn + datetime" where
  \<comment> \<open>d + timedelta(microseconds=us)\<close>
  "shift d us =
     (let w = wall d + us in if wall_ok w then Inr (d\<lparr>wall := w\<rparr>) else Inl OverflowError)"

definition astimezone_utc :: "datetime \<Rightarrow> exn + datetime" where
  "astimezone_utc d = (if wall_ok (instant d) then Inr (utc (instant d)) else Inl OverflowError)"

definition date_of :: "datetime \<Rightarrow> int" where
  \<comment> \<open>d.date(), as its ordinal: the calendar day of the wall clock\<close>
  "date_of d = wall d div DAY_US + 1"

definition dt_max :: "datetime \<Rightarrow> datetime \<Rightarrow> datetime" where
  "dt_max a b = (if instant a < instant b then b else a)"

definition dt_min :: "datetime \<Rightarrow> datetime \<Rightarrow> datetime" where
  "dt_min a b = (if instant b < instant a then b else a)"

definition mk_wall :: "int \<Rightarrow> int \<Rightarrow> int \<Rightarrow> int \<Rightarrow> int \<Rightarrow> int \<Rightarrow> int \<Rightarrow> exn + int" where
  \<comment> \<open>the field checks of datetime(year, month, day, hour, minute, second, microsecond)\<close>
  "mk_wall y m d hh mi ss us =
     (if \<not> (1 \<le> y \<and> y \<le> 9999) then Inl (ValueError ''year must be in 1..9999'')
      else if \<not> (1 \<le> m \<and> m \<le> 12) then Inl (ValueError ''month must be in 1..12'')
      else if \<not> (1 \<le> d \<and> d \<le> days_in_month y m) then Inl (ValueError ''day is out of range for month'')
      else if \<not> (0 \<le> hh \<and> hh \<le> 23) then Inl (ValueError ''hour must be in 0..23'')
      else if \<not> (0 \<le> mi \<and> mi \<le> 59) then Inl (ValueError ''minute must be in 0..59'')
      else if \<not> (0 \<le> ss \<and> ss \<le> 59) then Inl (ValueError ''second must be in 0..59'')
      else if \<not> (0 \<le> us \<and> us \<le> 999999) then Inl (ValueError ''microsecond must be in 0..999999'')
      else Inr ((ymd2ord y m d - 1) * DAY_US + ((hh * 60 + mi) * 60 + ss) * 1000000 + us))"

lemma instant_utc [simp]: "instant (utc t) = t"
  by (simp add: instant_def utc_def)

lemma wall_utc [simp]: "wall (utc t) = t"
  by (simp add: utc_def)

lemma offset_utc [simp]: "offset (utc t) = 0"
  by (simp add: utc_def)

lemma offset_zero_utc: "offset d = 0 \<Longrightarrow> d = utc (instant d)"
  by (cases d) (simp add: utc_def instant_def)

lemma shift_Inr_iff: "shift d us = Inr d' \<longleftrightarrow> wall_ok (wall d + us) \<and> d' = d\<lparr>wall := wall d + us\<rparr>"
  by (auto simp: shift_def Let_def)

lemma shift_instant: "shift d us = Inr d' \<Longrightarrow> instant d' = instant d + us"
  by (auto simp: shift_Inr_iff instant_def)

lemma date_of_bounds: "date_of d = n \<longleftrightarrow> (n - 1) * DAY_US \<le> wall d \<and> wall d < n * DAY_US"
proof -
  have "0 < DAY_US" by (simp add: DAY_US_def)
  then show ?thesis
    unfolding date_of_def DAY_US_def by auto
qed

subsection \<open>Text of a datetime\<close>

definition time_of_day :: "datetime \<Rightarrow> int \<times> int \<times> int \<times> int" where
  "time_of_day d =
     (let t = wall d mod DAY_US; s = t div 1000000
      in (s div 3600, s div 60 mod 60, s mod 60, t mod 1000000))"

definition offset_text :: "int \<Rightarrow> string" where
  "offset_text off =
     (let a = \<bar>off\<bar>; s = a div 1000000; us = a mod 1000000
      in (if off < 0 then ''-'' else ''+'') @ pad0 2 (s div 3600) @ '':'' @ pad0 2 (s div 60 mod 60)
         @ (if s mod 60 \<noteq> 0 \<or> us \<noteq> 0 then '':'' @ pad0 2 (s mod 60) else [])
         @ (if us \<noteq> 0 then ''.'' @ pad0 6 us else []))"

definition isoformat :: "string \<Rightarrow> datetime \<Rightarrow> string" where
  \<comment> \<open>d.isoformat(sep); str(d) is the case of a blank\<close>
  "isoformat sep d = (case ord2ymd (date_of d) of (y, m, dd) \<Rightarrow> case time_of_day d of (hh, mi, ss, us) \<Rightarrow>
     pad0 4 y @ ''-'' @ pad0 2 m @ ''-'' @ pad0 2 dd @ sep @
     pad0 2 hh @ '':'' @ pad0 2 mi @ '':'' @ pad0 2 ss @
     (if us \<noteq> 0 then ''.'' @ pad0 6 us else []) @ offset_text (offset d))"

definition strftime_minutes :: "datetime \<Rightarrow> string" where
  \<comment> \<open>d.strftime('%Y-%m-%d %H:%M UTC')\<close>
  "strftime_minutes d = (case ord2ymd (date_of d) of (y, m, dd) \<Rightarrow> case time_of_day d of (hh, mi, ss, us) \<Rightarrow>
     str_int y @ ''-'' @ pad0 2 m @ ''-'' @ pad0 2 dd @ '' '' @ pad0 2 hh @ '':'' @ pad0 2 mi @ '' UTC'')"

definition strftime_date :: "int \<Rightarrow> string" where
  \<comment> \<open>date.fromordinal(n).strftime('%Y-%m-%d')\<close>
  "strftime_date n = (case ord2ymd n of (y, m, dd) \<Rightarrow>
     str_int y @ ''-'' @ pad0 2 m @ ''-'' @ pad0 2 dd)"

end
