(* ===== verification/DatetimeUtils.thy ===== *)
theory DatetimeUtils
  imports PyTime
begin

text \<open>
  \<^verbatim>\<open>utils/datetime_utils.py\<close>: the single enforcement point of the timezone policy, over a
  model of \<^verbatim>\<open>datetime.fromisoformat\<close> that follows the reference implementation of the
  standard library (calendar dates, ISO week dates, reduced times, offsets). A group of digits
  is ASCII digits of the exact width. Text is UTF-8, so the one-character separator between
  date and time is one byte and the continuation bytes after it.
\<close>

subsection \<open>datetime.fromisoformat\<close>

definition char_at :: "string \<Rightarrow> nat \<Rightarrow> char option" where
  "char_at s i = (if i < length s then Some (s ! i) else None)"

definition slice :: "string \<Rightarrow> nat \<Rightarrow> nat \<Rightarrow> string" where
  "slice s i n = take n (drop i s)"

definition dec_val :: "string \<Rightarrow> int" where
  "dec_val s = foldl (\<lambda>a c. 10 * a + digit_val c) 0 s"

definition num :: "string \<Rightarrow> nat \<Rightarrow> nat \<Rightarrow> exn + int" where
  \<comment> \<open>the number written by the \<open>n\<close> digits at position \<open>i\<close>\<close>
  "num s i n = (let t = slice s i n in
     if n > 0 \<and> length t = n \<and> list_all is_digit t then Inr (dec_val t)
     else Inl (ValueError ''Invalid isoformat string''))"

definition iso_error :: "exn" where
  "iso_error = ValueError ''Invalid isoformat string''"

definition separator_at :: "string \<Rightarrow> exn + nat" where
  "separator_at s =
     (let len = length s in
      if len = 7 then Inr 7
      else if char_at s 4 = Some CHR ''-'' then
        (if char_at s 5 = Some CHR ''W'' then
           (if len > 8 \<and> char_at s 8 = Some CHR ''-'' then
              (if len = 9 then Inl iso_error
               else if len > 10 \<and> is_digit (s ! 10) then Inr 8 else Inr 10)
            else Inr 8)
         else Inr 10)
      else if char_at s 4 = Some CHR ''W'' then
        (let idx = 7 + length (takeWhile is_digit (drop 7 s)) in
         if idx < 9 then Inr idx else if even idx then Inr 7 else Inr 8)
      else Inr 8)"

definition isoweek1monday :: "int \<Rightarrow> int" where
  "isoweek1monday y =
     (let firstday = ymd2ord y 1 1; wd = (firstday + 6) mod 7; w1 = firstday - wd
      in if wd > 3 then w1 + 7 else w1)"

definition isoweek_to_gregorian :: "int \<Rightarrow> int \<Rightarrow> int \<Rightarrow> exn + (int \<times> int \<times> int)" where
  "isoweek_to_gregorian y week day =
     (if \<not> (1 \<le> y \<and> y \<le> 9999) then Inl iso_error
      else if \<not> (0 < week \<and> week < 53) \<and>
              \<not> (week = 53 \<and> (let fw = ymd2ord y 1 1 mod 7 in fw = 4 \<or> fw = 3 \<and> is_leap y))
           then Inl iso_error
      else if \<not> (0 < day \<and> day < 8) then Inl iso_error
      else Inr (ord2ymd (isoweek1monday y + (week - 1) * 7 + (day - 1))))"

definition parse_isoformat_date :: "string \<Rightarrow> exn + (int \<times> int \<times> int)" where
  "parse_isoformat_date s =
     then_do (num s 0 4) (\<lambda>year.
     (let has_sep = (char_at s 4 = Some CHR ''-''); pos = (if has_sep then 5 else 4) in
      if char_at s pos = Some CHR ''W'' then
        then_do (num s (pos + 1) 2) (\<lambda>weekno.
          (let pos = pos + 3 in
           if length s > pos then
             (if (char_at s pos = Some CHR ''-'') \<noteq> has_sep then Inl iso_error
              else then_do (num s (if has_sep then pos + 1 else pos) 1)
                     (\<lambda>dayno. isoweek_to_gregorian year weekno dayno))
           else isoweek_to_gregorian year weekno 1))
      else
        then_do (num s pos 2) (\<lambda>month.
          if (char_at s (pos + 2) = Some CHR ''-'') \<noteq> has_sep then Inl iso_error
          else then_do (num s (if has_sep then pos + 3 else pos + 2) 2)
                 (\<lambda>day. Inr (year, month, day)))))"

text \<open>
  \<^verbatim>\<open>HH[:?MM[:?SS[{.,}fff[fff]]]]\<close>: the loop over at most three two-digit components, then the
  fraction, of which the first six digits count. The result is in microseconds.
\<close>

fun time_comps :: "nat \<Rightarrow> string \<Rightarrow> bool \<Rightarrow> nat \<Rightarrow> int list \<Rightarrow> exn + (int list \<times> nat)" where
  "time_comps 0 s sep pos acc = Inr (acc, pos)"
| "time_comps (Suc k) s sep pos acc =
     (if length s - pos < 2 then Inl iso_error
      else then_do (num s pos 2) (\<lambda>v.
        (let pos = pos + 2; nxt = char_at s pos;
             sep = (if acc = [] then nxt = Some CHR '':'' else sep);
             acc = acc @ [v]
         in if nxt = None \<or> k = 0 then Inr (acc, pos)
            else if sep \<and> nxt \<noteq> Some CHR '':'' then Inl iso_error
            else time_comps k s sep (if sep then pos + 1 else pos) acc)))"

definition parse_hh_mm_ss_ff :: "string \<Rightarrow> exn + (int \<times> int \<times> int \<times> int)" where
  "parse_hh_mm_ss_ff s =
     then_do (time_comps 3 s False 0 []) (\<lambda>(comps, pos).
     (let c = (\<lambda>i. if i < length comps then comps ! i else 0) in
      if pos < length s then
        (if s ! pos \<noteq> CHR ''.'' \<and> s ! pos \<noteq> CHR '','' then Inl iso_error
         else (let pos = pos + 1; rem = length s - pos; n = min 6 rem in
               then_do (num s pos n) (\<lambda>f.
                 if list_all is_digit (drop (pos + n) s)
                 then Inr (c 0, c 1, c 2, f * 10 ^ (6 - n)) else Inl iso_error)))
      else Inr (c 0, c 1, c 2, 0)))"

definition find_char :: "char \<Rightarrow> string \<Rightarrow> nat" where
  \<comment> \<open>s.find(c) + 1: 0 when there is none\<close>
  "find_char c s = (if c \<in> set s then length (takeWhile (\<lambda>x. x \<noteq> c) s) + 1 else 0)"

definition parse_isoformat_time :: "string \<Rightarrow> exn + ((int \<times> int \<times> int \<times> int) \<times> int option)" where
  \<comment> \<open>the offset in microseconds, \<open>None\<close> without a zone\<close>
  "parse_isoformat_time s =
     (if length s < 2 then Inl iso_error
      else
       (let tz_pos = (if find_char CHR ''-'' s \<noteq> 0 then find_char CHR ''-'' s
                      else if find_char CHR ''+'' s \<noteq> 0 then find_char CHR ''+'' s
                      else find_char CHR ''Z'' s);
            timestr = (if tz_pos > 0 then take (tz_pos - 1) s else s)
        in then_do (parse_hh_mm_ss_ff timestr) (\<lambda>comps.
           if tz_pos = length s \<and> last s = CHR ''Z'' then Inr (comps, Some 0)
           else if tz_pos > 0 then
             (let tzstr = drop tz_pos s in
              if length tzstr \<in> {0, 1, 3} then Inl iso_error
              else then_do (parse_hh_mm_ss_ff tzstr) (\<lambda>(h, m, sec, us).
                (let a = ((h * 60 + m) * 60 + sec) * 1000000 + us;
                     off = (if s ! (tz_pos - 1) = CHR ''-'' then - a else a)
                 in if \<bar>off\<bar> < DAY_US then Inr (comps, Some off) else Inl iso_error)))
           else Inr (comps, None))))"

definition is_continuation :: "char \<Rightarrow> bool" where
  "is_continuation c \<longleftrightarrow> (128::nat) \<le> of_char c \<and> (of_char c :: nat) < 192"

definition after_separator :: "string \<Rightarrow> string" where
  "after_separator s = (case s of [] \<Rightarrow> [] | _ # t \<Rightarrow> dropWhile is_continuation t)"

definition fromisoformat :: "string \<Rightarrow> exn + pydatetime" where
  "fromisoformat s =
     (if length s < 7 then Inl iso_error
      else then_do (separator_at s) (\<lambda>sep.
           then_do (parse_isoformat_date (take sep s)) (\<lambda>(y, m, d).
           (let tstr = after_separator (drop sep s) in
            then_do (if tstr = [] then Inr ((0, 0, 0, 0), None) else parse_isoformat_time tstr)
              (\<lambda>((hh, mi, ss, us), tz).
                 then_do (mk_wall y m d hh mi ss us) (\<lambda>w.
                   Inr (case tz of None \<Rightarrow> Naive w
                        | Some off \<Rightarrow> Aware \<lparr>wall = w, offset = off\<rparr>)))))))"

subsection \<open>utils/datetime_utils.py\<close>

definition require_aware_utc :: "pydatetime \<Rightarrow> exn + datetime" where
  "require_aware_utc value =
     (case value of Naive _ \<Rightarrow> Inl NaiveDateTimeError | Aware d \<Rightarrow> astimezone_utc d)"

definition endswith_Z :: "string \<Rightarrow> bool" where
  "endswith_Z s \<longleftrightarrow> s \<noteq> [] \<and> last s = CHR ''Z''"

definition parse_iso_datetime :: "string \<Rightarrow> exn + datetime" where
  "parse_iso_datetime value =
     (let txt = (if endswith_Z value then butlast value @ ''+00:00'' else value)
      in then_do (fromisoformat txt) require_aware_utc)"

lemma require_aware_utc_spec:
  "require_aware_utc value = Inr d \<longleftrightarrow>
     (\<exists>a. value = Aware a \<and> wall_ok (instant a) \<and> d = utc (instant a))"
  by (cases "value") (auto simp: require_aware_utc_def astimezone_utc_def)

end
