(* ===== verification/Models.thy ===== *)
theory Models
  imports DatetimeUtils
begin

text \<open>
  The domain of \<^verbatim>\<open>models.py\<close>: the status and priority enums (all \<^verbatim>\<open>str\<close> enums, so that a
  member is equal to its text), the rows of the three tables, the database as three row lists,
  and Python values as the Agent's parameters carry them. What belongs to PostgreSQL and its
  driver is a parameter, the record \<open>db_env\<close>: how a Python value is bound to a column, the
  session time zone, \<^verbatim>\<open>ILIKE\<close>, the collation, and whether a commit fails.
\<close>

subsection \<open>Enums\<close>

datatype task_priority = TP_LOW | TP_MEDIUM | TP_HIGH

datatype task_status = TS_TODO | TS_IN_PROGRESS | TS_COMPLETED | TS_CANCELLED

datatype reminder_status = RS_PENDING | RS_SENT | RS_CANCELLED

datatype confirmation_status = CS_PENDING | CS_CONFIRMED | CS_EXPIRED | CS_CANCELLED

fun priority_value :: "task_priority \<Rightarrow> string" where
  "priority_value TP_LOW = ''LOW''"
| "priority_value TP_MEDIUM = ''MEDIUM''"
| "priority_value TP_HIGH = ''HIGH''"

fun status_value :: "task_status \<Rightarrow> string" where
  "status_value TS_TODO = ''TODO''"
| "status_value TS_IN_PROGRESS = ''IN_PROGRESS''"
| "status_value TS_COMPLETED = ''COMPLETED''"
| "status_value TS_CANCELLED = ''CANCELLED''"

fun rem_status_value :: "reminder_status \<Rightarrow> string" where
  "rem_status_value RS_PENDING = ''PENDING''"
| "rem_status_value RS_SENT = ''SENT''"
| "rem_status_value RS_CANCELLED = ''CANCELLED''"

fun conf_status_value :: "confirmation_status \<Rightarrow> string" where
  "conf_status_value CS_PENDING = ''PENDING''"
| "conf_status_value CS_CONFIRMED = ''CONFIRMED''"
| "conf_status_value CS_EXPIRED = ''EXPIRED''"
| "conf_status_value CS_CANCELLED = ''CANCELLED''"

definition task_priority_of :: "string \<Rightarrow> exn + task_priority" where
  \<comment> \<open>TaskPriority(text)\<close>
  "task_priority_of s =
     (if s = ''LOW'' then Inr TP_LOW else if s = ''MEDIUM'' then Inr TP_MEDIUM
      else if s = ''HIGH'' then Inr TP_HIGH else Inl (ValueError (s @ '' is not a valid TaskPriority'')))"

definition task_status_of :: "string \<Rightarrow> exn + task_status" where
  \<comment> \<open>TaskStatus(text)\<close>
  "task_status_of s =
     (if s = ''TODO'' then Inr TS_TODO else if s = ''IN_PROGRESS'' then Inr TS_IN_PROGRESS
      else if s = ''COMPLETED'' then Inr TS_COMPLETED else if s = ''CANCELLED'' then Inr TS_CANCELLED
      else Inl (ValueError (s @ '' is not a valid TaskStatus'')))"

lemma task_priority_of_value [simp]: "task_priority_of (priority_value p) = Inr p"
  by (cases p) (auto simp: task_priority_of_def)

lemma task_status_of_value [simp]: "task_status_of (status_value p) = Inr p"
  by (cases p) (auto simp: task_status_of_def)

lemma task_priority_of_Inr: "task_priority_of s = Inr p \<longleftrightarrow> s = priority_value p"
  by (cases p) (auto simp: task_priority_of_def split: if_splits)

lemma task_status_of_Inr: "task_status_of s = Inr p \<longleftrightarrow> s = status_value p"
  by (cases p) (auto simp: task_status_of_def split: if_splits)

subsection \<open>Python values\<close>

datatype pyval =
    PNone
  | PBool bool
  | PInt int
  | PFloat f64
  | PStr string
  | PDatetime pydatetime
  | PList "pyval list"
  | PDict "(string \<times> pyval) list"

definition nonpositive :: "pyval \<Rightarrow> exn + bool" where
  \<comment> \<open>v <= 0\<close>
  "nonpositive v = (case v of
     PBool b \<Rightarrow> Inr (\<not> b) | PInt i \<Rightarrow> Inr (i \<le> 0) | PFloat x \<Rightarrow> Inr (fst x \<le> 0)
   | _ \<Rightarrow> Inl (TypeError ''<= not supported''))"

definition opt_val :: "('a \<Rightarrow> pyval) \<Rightarrow> 'a option \<Rightarrow> pyval" where
  "opt_val f x = (case x of None \<Rightarrow> PNone | Some y \<Rightarrow> f y)"

subsection \<open>Rows\<close>

record task =
  t_id :: uuid
  t_name :: string
  t_description :: "string option"
  t_deadline :: datetime
  t_duration :: "int option"
  t_priority :: string
  t_status :: string
  t_created_at :: datetime
  t_updated_at :: datetime

record reminder =
  r_id :: uuid
  r_task_id :: uuid
  r_remind_at :: datetime
  r_status :: string
  r_created_at :: datetime
  r_updated_at :: datetime

record pending_confirmation =
  c_id :: uuid
  c_user_id :: "uuid option"
  c_execution_command :: string
  c_created_at :: datetime
  c_expires_at :: datetime
  c_status :: string

record db =
  tasks :: "task list"
  reminders :: "reminder list"
  confirmations :: "pending_confirmation list"

text \<open>A session sees its own uncommitted writes: the rows it works on and the rows committed.\<close>

record session =
  committed :: db
  working :: db

subsection \<open>What PostgreSQL and its driver decide\<close>

record db_env =
  session_tz :: "int \<Rightarrow> int"
  bind_name :: "pyval \<Rightarrow> exn + string"
  bind_text :: "pyval \<Rightarrow> exn + string option"
  bind_int :: "pyval \<Rightarrow> exn + int option"
  bind_str :: "pyval \<Rightarrow> exn + string"
  ilike :: "string \<Rightarrow> string \<Rightarrow> bool"
  collation_key :: "string \<Rightarrow> string"
  commit_exn :: "db \<Rightarrow> exn option"

text \<open>
  The documented behaviour the program relies on: text without NUL is stored as it is (up to
  255 characters in the name column), integers of 32 bits too, a number that is stored is stored as
  it is, and \<^verbatim>\<open>None\<close> is NULL.
\<close>

definition plain_text :: "string \<Rightarrow> bool" where
  "plain_text s \<longleftrightarrow> CHR 0x00 \<notin> set s"

definition int4 :: "int \<Rightarrow> bool" where
  "int4 i \<longleftrightarrow> - (2 ^ 31) \<le> i \<and> i < 2 ^ 31"

definition binds_plain :: "db_env \<Rightarrow> bool" where
  "binds_plain E \<longleftrightarrow>
     (\<forall>s. plain_text s \<and> pylen s \<le> 255 \<longrightarrow> bind_name E (PStr s) = Inr s) \<and>
     (\<forall>s. plain_text s \<longrightarrow> bind_text E (PStr s) = Inr (Some s)) \<and>
     bind_text E PNone = Inr None \<and>
     (\<forall>i. int4 i \<longrightarrow> bind_int E (PInt i) = Inr (Some i)) \<and>
     (\<forall>i x. bind_int E (PInt i) = Inr x \<longrightarrow> x = Some i) \<and>
     (\<forall>b x. bind_int E (PBool b) = Inr x \<longrightarrow> x = Some (if b then 1 else 0)) \<and>
     bind_int E PNone = Inr None \<and>
     (\<forall>s. plain_text s \<longrightarrow> bind_str E (PStr s) = Inr s)"

lemma binds_plainD:
  assumes "binds_plain E"
  shows "plain_text s \<Longrightarrow> pylen s \<le> 255 \<Longrightarrow> bind_name E (PStr s) = Inr s"
    and "plain_text s \<Longrightarrow> bind_text E (PStr s) = Inr (Some s)"
    and "bind_text E PNone = Inr None"
    and "int4 i \<Longrightarrow> bind_int E (PInt i) = Inr (Some i)"
    and "bind_int E PNone = Inr None"
    and "plain_text s \<Longrightarrow> bind_str E (PStr s) = Inr s"
  using assms unfolding binds_plain_def by blast+

lemma bind_int_stores:
  assumes "binds_plain E"
  shows "bind_int E (PInt i) = Inr x \<Longrightarrow> x = Some i"
    and "bind_int E (PBool b) = Inr x \<Longrightarrow> x = Some (if b then 1 else 0)"
  using assms unfolding binds_plain_def by blast+

definition from_db :: "db_env \<Rightarrow> int \<Rightarrow> datetime" where
  \<comment> \<open>a TIMESTAMPTZ instant as the driver returns it, in the session time zone\<close>
  "from_db E t = \<lparr>wall = t + session_tz E t, offset = session_tz E t\<rparr>"

lemma instant_from_db [simp]: "instant (from_db E t) = t"
  by (simp add: from_db_def instant_def)

text \<open>A concrete environment: a UTC session, strict binding, ASCII case folding.\<close>

fun like_match :: "string \<Rightarrow> string \<Rightarrow> bool" where
  "like_match [] s = (s = [])"
| "like_match (p # ps) [] = (p = CHR ''%'' \<and> like_match ps [])"
| "like_match (p # ps) (c # s) =
     (if p = CHR ''%'' then like_match ps (c # s) \<or> like_match (p # ps) s
      else (p = CHR ''_'' \<or> p = c) \<and> like_match ps s)"

definition pg_env :: db_env where
  "pg_env = \<lparr>session_tz = (\<lambda>_. 0),
     bind_name = (\<lambda>v. case v of PStr s \<Rightarrow> if plain_text s \<and> pylen s \<le> 255 then Inr s else Inl (DbError ''value too long'')
                       | _ \<Rightarrow> Inl (DbError ''cannot bind'')),
     bind_text = (\<lambda>v. case v of PStr s \<Rightarrow> if plain_text s then Inr (Some s) else Inl (DbError ''NUL'')
                       | PNone \<Rightarrow> Inr None | _ \<Rightarrow> Inl (DbError ''cannot bind'')),
     bind_int = (\<lambda>v. case v of PInt i \<Rightarrow> if int4 i then Inr (Some i) else Inl (DbError ''integer out of range'')
                       | PNone \<Rightarrow> Inr None | _ \<Rightarrow> Inl (DbError ''cannot bind'')),
     bind_str = (\<lambda>v. case v of PStr s \<Rightarrow> if plain_text s then Inr s else Inl (DbError ''NUL'')
                       | _ \<Rightarrow> Inl (DbError ''cannot bind'')),
     ilike = (\<lambda>p s. like_match (map to_lower p) (map to_lower s)),
     collation_key = (\<lambda>s. s),
     commit_exn = (\<lambda>_. None)\<rparr>"

lemma binds_plain_pg_env: "binds_plain pg_env"
  by (simp add: binds_plain_def pg_env_def)

lemma pg_env_simps [simp]:
  "session_tz pg_env = (\<lambda>_. 0)" "commit_exn pg_env d = None"
  "bind_text pg_env PNone = Inr None" "bind_int pg_env PNone = Inr None"
  by (simp_all add: pg_env_def)

lemma from_db_pg_env [simp]: "from_db pg_env t = utc t"
  by (simp add: from_db_def utc_def)

lemma pg_env_bind [simp]:
  "bind_name pg_env (PStr s) = (if plain_text s \<and> pylen s \<le> 255 then Inr s else Inl (DbError ''value too long''))"
  "bind_text pg_env (PStr s) = (if plain_text s then Inr (Some s) else Inl (DbError ''NUL''))"
  "bind_str pg_env (PStr s) = (if plain_text s then Inr s else Inl (DbError ''NUL''))"
  "bind_int pg_env (PInt i) = (if int4 i then Inr (Some i) else Inl (DbError ''integer out of range''))"
  by (simp_all add: pg_env_def)

end
