(* ===== verification/PyUuid.thy ===== *)
theory PyUuid
  imports Prelude
begin

text \<open>
  Python's \<^verbatim>\<open>uuid.UUID\<close> as the program uses it: \<^verbatim>\<open>str(u)\<close> (the authorization check and the
  sort keys compare it) and \<^verbatim>\<open>UUID(text)\<close> (the interpreter and the request correlation parse
  untrusted text), over \<^verbatim>\<open>int(text, 16)\<close> with its white space, sign, prefix and underscores. An
  identifier is a 128-bit word. Non-ASCII decimal digits are not digits here.
\<close>

definition hex_char :: "nat \<Rightarrow> char" where
  "hex_char n = (if n < 10 then char_of (48 + n) else char_of (87 + n))"

definition hex_val :: "char \<Rightarrow> int option" where
  "hex_val c = (let n = (of_char c :: nat) in
     if 48 \<le> n \<and> n \<le> 57 then Some (int n - 48)
     else if 97 \<le> n \<and> n \<le> 102 then Some (int n - 87)
     else if 65 \<le> n \<and> n \<le> 70 then Some (int n - 55) else None)"

fun hex_digits :: "nat \<Rightarrow> nat \<Rightarrow> string" where
  \<comment> \<open>the lowest \<open>k\<close> hexadecimal digits, most significant first\<close>
  "hex_digits 0 n = []"
| "hex_digits (Suc k) n = hex_digits k (n div 16) @ [hex_char (n mod 16)]"

definition uuid_hex :: "uuid \<Rightarrow> string" where
  "uuid_hex u = hex_digits 32 (unat u)"

definition dashed :: "string \<Rightarrow> string" where
  "dashed h = take 8 h @ ''-'' @ take 4 (drop 8 h) @ ''-'' @ take 4 (drop 12 h) @ ''-''
     @ take 4 (drop 16 h) @ ''-'' @ drop 20 h"

definition uuid_str :: "uuid \<Rightarrow> string" where
  "uuid_str u = dashed (uuid_hex u)"

subsection \<open>UUID(text)\<close>

function remove_all :: "string \<Rightarrow> string \<Rightarrow> string" where
  \<comment> \<open>text.replace(p, '') for a pattern that is not empty\<close>
  "remove_all p s =
     (if s = [] \<or> p = [] then s
      else if take (length p) s = p then remove_all p (drop (length p) s)
      else hd s # remove_all p (tl s))"
  by pat_completeness auto
termination
  by (relation "measure (\<lambda>(p, s). length s)") auto

declare remove_all.simps [simp del]

definition strip :: "(char \<Rightarrow> bool) \<Rightarrow> string \<Rightarrow> string" where
  "strip p s = rev (dropWhile p (rev (dropWhile p s)))"

definition is_space :: "char \<Rightarrow> bool" where
  "is_space c = (let n = (of_char c :: nat) in n = 32 \<or> (9 \<le> n \<and> n \<le> 13) \<or> (28 \<le> n \<and> n \<le> 31))"

fun hex_run :: "bool \<Rightarrow> int \<Rightarrow> string \<Rightarrow> int option" where
  \<comment> \<open>digits with single underscores between them; the flag says the last character was a digit\<close>
  "hex_run dig a [] = (if dig then Some a else None)"
| "hex_run dig a (c # cs) =
     (if c = CHR ''_'' then (if dig then hex_run False a cs else None)
      else (case hex_val c of None \<Rightarrow> None | Some v \<Rightarrow> hex_run True (16 * a + v) cs))"

definition drop_prefix_0x :: "string \<Rightarrow> string" where
  "drop_prefix_0x s =
     (if take 2 s = ''0x'' \<or> take 2 s = ''0X''
      then (let t = drop 2 s in if take 1 t = ''_'' then drop 1 t else t) else s)"

definition int_base16 :: "string \<Rightarrow> int option" where
  "int_base16 s =
     (let t = strip is_space s in
      if take 1 t = ''-'' then map_option uminus (hex_run False 0 (drop_prefix_0x (drop 1 t)))
      else hex_run False 0 (drop_prefix_0x (if take 1 t = ''+'' then drop 1 t else t)))"

definition uuid_of :: "string \<Rightarrow> exn + uuid" where
  "uuid_of s =
     (let h = remove_all ''uuid:'' (remove_all ''urn:'' s);
          h = filter (\<lambda>c. c \<noteq> CHR ''-'') (strip (\<lambda>c. c = CHR ''{'' \<or> c = CHR ''}'') h)
      in if pylen h \<noteq> 32 then Inl (ValueError ''badly formed hexadecimal UUID string'')
         else (case int_base16 h of
                 None \<Rightarrow> Inl (ValueError ''invalid literal for int() with base 16'')
               | Some v \<Rightarrow> if 0 \<le> v \<and> v < 2 ^ 128 then Inr (of_int v)
                           else Inl (ValueError ''int is out of range (need a 128-bit value)'')))"

subsection \<open>Reading back the text of an identifier\<close>

lemma length_hex_digits [simp]: "length (hex_digits k n) = k"
  by (induction k arbitrary: n) auto

lemma hex_val_char: "n < 16 \<Longrightarrow> hex_val (hex_char n) = Some (int n)"
  by (auto simp: hex_val_def hex_char_def Let_def)

definition lower_hex :: "string" where
  "lower_hex = ''0123456789abcdef''"

lemma hex_char_table: "list_all (\<lambda>n. hex_char n \<in> set lower_hex) [0..<16]"
  by code_simp

lemma hex_char_set: "n < 16 \<Longrightarrow> hex_char n \<in> set lower_hex"
  using hex_char_table by (simp add: list_all_iff)

lemma set_hex_digits: "set (hex_digits k n) \<subseteq> set lower_hex"
  using hex_char_set by (induction k arbitrary: n) auto

lemma hex_run_digits:
  assumes "n < 16 ^ k"
  shows "hex_run dig a (hex_digits k n @ cs) =
    (if k = 0 then hex_run dig a cs else hex_run True (a * 16 ^ k + int n) cs)"
  using assms
proof (induction k arbitrary: n dig a cs)
  case (Suc k)
  have lt: "n div 16 < 16 ^ k" using Suc.prems by (simp add: less_mult_imp_div_less mult.commute)
  have us: "hex_char (n mod 16) \<noteq> CHR ''_''"
    using hex_char_set [of "n mod 16"] by (auto simp: lower_hex_def)
  have val: "16 * (a * 16 ^ k + int (n div 16)) + int (n mod 16) = a * 16 ^ Suc k + int n"
    by (simp add: algebra_simps zdiv_int zmod_int)
  show ?case
  proof (cases "k = 0")
    case True
    with Suc.prems us show ?thesis by (simp add: hex_val_char mult.commute)
  next
    case False
    then have "hex_run dig a (hex_digits (Suc k) n @ cs) =
        hex_run True (16 * (a * 16 ^ k + int (n div 16)) + int (n mod 16)) cs"
      using Suc.IH [OF lt, of dig a "hex_char (n mod 16) # cs"] us by (simp add: hex_val_char)
    then show ?thesis by (simp only: val) simp
  qed
qed simp

lemma remove_all_absent: "p \<noteq> [] \<Longrightarrow> hd p \<notin> set s \<Longrightarrow> remove_all p s = s"
proof (induction s)
  case (Cons c s)
  then obtain a q where p: "p = a # q" by (cases p) auto
  with Cons show ?case by (auto simp: remove_all.simps [of "a # q" "c # s"])
qed (simp add: remove_all.simps)

lemma strip_absent: "\<forall>c \<in> set s. \<not> p c \<Longrightarrow> strip p s = s"
proof -
  assume a: "\<forall>c \<in> set s. \<not> p c"
  then have "dropWhile p s = s" by (cases s) auto
  moreover have "dropWhile p (rev s) = rev s" using a by (cases "rev s") (auto simp: rev_eq_Cons_iff)
  ultimately show ?thesis by (simp add: strip_def)
qed

lemma set_dashed: "set (dashed h) \<subseteq> insert CHR ''-'' (set h)"
  by (auto simp: dashed_def dest: in_set_takeD in_set_dropD)

lemma undash: "CHR ''-'' \<notin> set h \<Longrightarrow> filter (\<lambda>c. c \<noteq> CHR ''-'') (dashed h) = h"
proof -
  assume a: "CHR ''-'' \<notin> set h"
  have f: "set t \<subseteq> set h \<Longrightarrow> filter (\<lambda>c. c \<noteq> CHR ''-'') t = t" for t
    using a by (auto simp: filter_id_conv)
  have "filter (\<lambda>c. c \<noteq> CHR ''-'') (dashed h) =
      take 8 h @ take 4 (drop 8 h) @ take 4 (drop 12 h) @ take 4 (drop 16 h) @ drop 20 h"
    by (simp add: dashed_def f set_take_subset set_drop_subset
        subset_trans [OF set_take_subset set_drop_subset])
  also have "take 4 (drop 16 h) @ drop 20 h = drop 16 h"
    using append_take_drop_id [of 4 "drop 16 h"] by simp
  also have "take 4 (drop 12 h) @ drop 16 h = drop 12 h"
    using append_take_drop_id [of 4 "drop 12 h"] by simp
  also have "take 4 (drop 8 h) @ drop 12 h = drop 8 h"
    using append_take_drop_id [of 4 "drop 8 h"] by simp
  also have "take 8 h @ drop 8 h = h" by simp
  finally show ?thesis .
qed

lemma lower_hex_chars:
  "c \<in> set lower_hex \<Longrightarrow> c \<notin> {CHR ''u'', CHR ''-'', CHR ''_'', CHR ''+'', CHR ''x'', CHR ''X'', CHR ''{'', CHR ''}''}
     \<and> (of_char c :: nat) < 128 \<and> \<not> is_space c"
  by (auto simp: lower_hex_def is_space_def Let_def)

lemma pylen_ascii: "\<forall>c \<in> set s. (of_char c :: nat) < 128 \<Longrightarrow> pylen s = length s"
  by (induction s) (auto simp: pylen_def)

lemma uuid_of_str: "uuid_of (uuid_str u) = Inr u"
proof -
  let ?h = "uuid_hex u" and ?d = "uuid_str u"
  have h: "set ?h \<subseteq> set lower_hex" by (simp add: uuid_hex_def set_hex_digits)
  have d: "set ?d \<subseteq> insert CHR ''-'' (set lower_hex)"
    using h set_dashed [of ?h] by (auto simp: uuid_str_def)
  have "CHR ''u'' \<notin> set ?d" using d by (auto simp: lower_hex_def)
  then have r: "remove_all ''uuid:'' (remove_all ''urn:'' ?d) = ?d"
    by (simp add: remove_all_absent)
  have s: "strip (\<lambda>c. c = CHR ''{'' \<or> c = CHR ''}'') ?d = ?d"
    by (rule strip_absent) (use d in \<open>auto simp: lower_hex_def\<close>)
  have f: "filter (\<lambda>c. c \<noteq> CHR ''-'') ?d = ?h"
    unfolding uuid_str_def by (rule undash) (use h in \<open>auto simp: lower_hex_def\<close>)
  have len: "pylen ?h = 32"
    using pylen_ascii [of ?h] h lower_hex_chars by (auto simp: uuid_hex_def)
  have sp: "strip is_space ?h = ?h" by (rule strip_absent) (use h lower_hex_chars in auto)
  have "length ?h = 32" by (simp add: uuid_hex_def)
  then obtain a b t where ab: "?h = a # b # t"
    by (metis One_nat_def Suc_1 Suc_length_conv eval_nat_numeral(2) numeral_2_eq_2 numeral_eq_Suc)
  have no: "a \<notin> {CHR ''-'', CHR ''+''}" "b \<notin> {CHR ''x'', CHR ''X''}"
    using h ab lower_hex_chars by auto
  have "int_base16 ?h = hex_run False 0 ?h"
    unfolding int_base16_def sp using no ab by (simp add: drop_prefix_0x_def)
  also have "\<dots> = Some (uint u)"
    using hex_run_digits [of "unat u" 32 False 0 "[]"] unsigned_less [of u, where 'a = nat]
    by (simp add: uuid_hex_def)
  finally have i: "int_base16 ?h = Some (uint u)" .
  show ?thesis
    unfolding uuid_of_def r s f Let_def using len i unsigned_less [of u, where 'a = int] by simp
qed

lemma uuid_str_eq_iff: "uuid_str u = uuid_str v \<longleftrightarrow> u = v"
  using uuid_of_str by (metis Inr_inject)

end
