(* ===== verification/AgentSchemas.thy ===== *)
theory AgentSchemas
  imports Models PyUuid
begin

text \<open>
  The contracts between the language model and the application: \<^verbatim>\<open>schemas/agent.py\<close>,
  \<^verbatim>\<open>services/execution_command.py\<close>, the result types of the guardrails, and the interpreter
  \<^verbatim>\<open>services/agent_interpreter.py\<close>, which turns the model's structured output into an untrusted
  proposal. \<^verbatim>\<open>parameters\<close> is a \<^verbatim>\<open>dict[str, Any]\<close>: an association list of Python values.
\<close>

subsection \<open>schemas/agent.py\<close>

datatype action_type = CREATE_TASK | UPDATE_TASK | DELETE_TASK | CREATE_REMINDER | UPDATE_REMINDER
  | DELETE_REMINDER | ANALYZE_WORKLOAD | SUGGEST_RESCHEDULING

fun action_value :: "action_type \<Rightarrow> string" where
  "action_value CREATE_TASK = ''CREATE_TASK''"
| "action_value UPDATE_TASK = ''UPDATE_TASK''"
| "action_value DELETE_TASK = ''DELETE_TASK''"
| "action_value CREATE_REMINDER = ''CREATE_REMINDER''"
| "action_value UPDATE_REMINDER = ''UPDATE_REMINDER''"
| "action_value DELETE_REMINDER = ''DELETE_REMINDER''"
| "action_value ANALYZE_WORKLOAD = ''ANALYZE_WORKLOAD''"
| "action_value SUGGEST_RESCHEDULING = ''SUGGEST_RESCHEDULING''"

datatype date_range_expression = TODAY | TOMORROW | THIS_WEEK | NEXT_WEEK | THIS_MONTH | NEXT_MONTH
  | EXPLICIT_RANGE

definition date_range_expression_of :: "string \<Rightarrow> exn + date_range_expression" where
  \<comment> \<open>DateRangeExpression(text)\<close>
  "date_range_expression_of s =
     (if s = ''TODAY'' then Inr TODAY else if s = ''TOMORROW'' then Inr TOMORROW
      else if s = ''THIS_WEEK'' then Inr THIS_WEEK else if s = ''NEXT_WEEK'' then Inr NEXT_WEEK
      else if s = ''THIS_MONTH'' then Inr THIS_MONTH else if s = ''NEXT_MONTH'' then Inr NEXT_MONTH
      else if s = ''EXPLICIT_RANGE'' then Inr EXPLICIT_RANGE
      else Inl (ValueError (s @ '' is not a valid DateRangeExpression'')))"

definition expression_of_value :: "pyval \<Rightarrow> exn + date_range_expression" where
  \<comment> \<open>DateRangeExpression(v): only text is a member's value; an unhashable argument fails the same way\<close>
  "expression_of_value v = (case v of PStr s \<Rightarrow> date_range_expression_of s
     | _ \<Rightarrow> Inl (ValueError ''not a valid DateRangeExpression''))"

datatype proposal_status = PS_PROPOSED | PS_NEEDS_CLARIFICATION | PS_NEEDS_CONFIRMATION | PS_VALIDATED | PS_REJECTED

datatype response_type = ACTION_PROPOSED | CLARIFICATION_REQUIRED | CONFIRMATION_REQUIRED | CONFIRMATION
  | REJECTED | CONVERSATION

type_synonym params = "(string \<times> pyval) list"

definition dict_get :: "params \<Rightarrow> string \<Rightarrow> pyval" where
  \<comment> \<open>params.get(key)\<close>
  "dict_get ps k = (case map_of ps k of None \<Rightarrow> PNone | Some v \<Rightarrow> v)"

definition dict_item :: "params \<Rightarrow> string \<Rightarrow> exn + pyval" where
  \<comment> \<open>params[key]\<close>
  "dict_item ps k = (case map_of ps k of None \<Rightarrow> Inl (KeyError k) | Some v \<Rightarrow> Inr v)"

record resource_reference =
  ref_id :: "uuid option"
  ref_natural_language :: "string option"

definition mk_reference :: "uuid option \<Rightarrow> string option \<Rightarrow> exn + resource_reference" where
  \<comment> \<open>ResourceReference(...) with its model validator\<close>
  "mk_reference i nl =
     (if i = None \<and> nl = None
      then Inl (ValidationError ''At least one of 'id' or 'natural_language' must be provided'')
      else Inr \<lparr>ref_id = i, ref_natural_language = nl\<rparr>)"

record action_proposal =
  ap_action_type :: action_type
  ap_resource :: "resource_reference option"
  ap_parameters :: params
  ap_status :: proposal_status

record agent_response =
  ar_response_type :: response_type
  ar_message :: string
  ar_proposal :: "action_proposal option"
  ar_confirmation_id :: "uuid option"

datatype interpretation_type = IR_ACTION_PROPOSED | IR_NEEDS_CLARIFICATION | IR_CONFIRMATION | IR_REJECTED
  | IR_CONVERSATION

record interpretation_output =
  io_response_type :: interpretation_type
  io_action_type :: "action_type option"
  io_resource_id :: "string option"
  io_resource_description :: "string option"
  io_parameters :: params
  io_message :: string

subsection \<open>ValidatedAction, DecisionResult, ExecutionCommand\<close>

record validated_action =
  va_action_type :: action_type
  va_resource_id :: "uuid option"
  va_parameters :: params

datatype decision_status = DS_AUTHORIZED | DS_DENIED | DS_NOT_CONFIGURED | DS_CONFIRMATION_REQUIRED

fun decision_value :: "decision_status \<Rightarrow> string" where
  "decision_value DS_AUTHORIZED = ''AUTHORIZED''"
| "decision_value DS_DENIED = ''DENIED''"
| "decision_value DS_NOT_CONFIGURED = ''NOT_CONFIGURED''"
| "decision_value DS_CONFIRMATION_REQUIRED = ''CONFIRMATION_REQUIRED''"

record decision_result =
  dr_status :: decision_status
  dr_reason :: string
  dr_action :: validated_action

record execution_command =
  cmd_action_type :: action_type
  cmd_resource_id :: "uuid option"
  cmd_parameters :: params

definition command_from_decision :: "decision_result \<Rightarrow> execution_command" where
  "command_from_decision decision =
     \<lparr>cmd_action_type = va_action_type (dr_action decision),
      cmd_resource_id = va_resource_id (dr_action decision),
      cmd_parameters = va_parameters (dr_action decision)\<rparr>"

subsection \<open>services/agent_interpreter.py\<close>

fun response_type_map :: "interpretation_type \<Rightarrow> response_type" where
  "response_type_map IR_ACTION_PROPOSED = ACTION_PROPOSED"
| "response_type_map IR_NEEDS_CLARIFICATION = CLARIFICATION_REQUIRED"
| "response_type_map IR_CONFIRMATION = CONFIRMATION"
| "response_type_map IR_REJECTED = REJECTED"
| "response_type_map IR_CONVERSATION = CONVERSATION"

definition or_text :: "string \<Rightarrow> string \<Rightarrow> string" where
  \<comment> \<open>a or b\<close>
  "or_text a b = (if a = [] then b else a)"

definition plain_response :: "response_type \<Rightarrow> string \<Rightarrow> agent_response" where
  "plain_response ty msg =
     \<lparr>ar_response_type = ty, ar_message = msg, ar_proposal = None, ar_confirmation_id = None\<rparr>"

definition interpret_confirmation :: "interpretation_output \<Rightarrow> agent_response" where
  "interpret_confirmation out =
     (case io_resource_id out of
        None \<Rightarrow> plain_response CONFIRMATION (io_message out)
      | Some txt \<Rightarrow> (case uuid_of txt of
           Inl _ \<Rightarrow> plain_response CLARIFICATION_REQUIRED
                     (or_text (io_message out) ''The confirmation reference is invalid.'')
         | Inr i \<Rightarrow> (plain_response CONFIRMATION (io_message out))\<lparr>ar_confirmation_id := Some i\<rparr>))"

definition build_resource_reference :: "interpretation_output \<Rightarrow> resource_reference option" where
  \<comment> \<open>\<open>None\<close> is \<^verbatim>\<open>_ResourceError\<close>\<close>
  "build_resource_reference out =
     (case io_resource_id out of
        Some txt \<Rightarrow> (case uuid_of txt of Inl _ \<Rightarrow> None
                   | Inr i \<Rightarrow> Some \<lparr>ref_id = Some i, ref_natural_language = None\<rparr>)
      | None \<Rightarrow> (case io_resource_description out of
           None \<Rightarrow> None
         | Some s \<Rightarrow> if s = [] then None else Some \<lparr>ref_id = None, ref_natural_language = Some s\<rparr>))"

definition untargeted_actions :: "action_type set" where
  "untargeted_actions = {CREATE_TASK, ANALYZE_WORKLOAD, SUGGEST_RESCHEDULING}"

definition propose :: "interpretation_output \<Rightarrow> action_type \<Rightarrow> resource_reference option \<Rightarrow> agent_response" where
  "propose out act ref = \<lparr>ar_response_type = ACTION_PROPOSED, ar_message = io_message out,
     ar_proposal = Some \<lparr>ap_action_type = act, ap_resource = ref, ap_parameters = io_parameters out,
                         ap_status = PS_PROPOSED\<rparr>,
     ar_confirmation_id = None\<rparr>"

definition interpret_action :: "interpretation_output \<Rightarrow> agent_response" where
  "interpret_action out =
     (let ambiguous = plain_response CLARIFICATION_REQUIRED
            (or_text (io_message out) ''The request is ambiguous.'') in
      case io_action_type out of
        None \<Rightarrow> ambiguous
      | Some act \<Rightarrow>
          if act \<in> untargeted_actions then propose out act None
          else (case build_resource_reference out of None \<Rightarrow> ambiguous
                | Some ref \<Rightarrow> propose out act (Some ref)))"

definition to_agent_response :: "interpretation_output \<Rightarrow> agent_response" where
  "to_agent_response out =
     (if io_response_type out = IR_ACTION_PROPOSED then interpret_action out
      else if io_response_type out = IR_CONFIRMATION then interpret_confirmation out
      else plain_response (response_type_map (io_response_type out)) (io_message out))"

type_synonym llm = "string \<Rightarrow> exn + interpretation_output"

definition interpret_message :: "llm \<Rightarrow> string \<Rightarrow> exn + agent_response" where
  \<comment> \<open>AgentInterpreter.interpret(AgentRequest(message))\<close>
  "interpret_message model msg =
     (if pylen msg < 1 then Inl (ValidationError ''String should have at least 1 character'')
      else then_do (model msg) (\<lambda>out. Inr (to_agent_response out)))"

subsection \<open>What the interpreter guarantees\<close>

lemma proposal_only_when_proposed:
  "ar_proposal (to_agent_response out) = Some p \<Longrightarrow>
     ar_response_type (to_agent_response out) = ACTION_PROPOSED \<and> io_action_type out = Some (ap_action_type p)
     \<and> ap_parameters p = io_parameters out"
  by (auto simp: to_agent_response_def interpret_action_def interpret_confirmation_def propose_def
      plain_response_def Let_def split: if_splits option.splits sum.splits)

lemma proposal_resource:
  assumes "ar_proposal (to_agent_response out) = Some p"
  shows "ap_resource p = None \<longleftrightarrow> ap_action_type p \<in> untargeted_actions"
    and "ap_resource p = Some ref \<Longrightarrow> build_resource_reference out = Some ref"
  using assms
  by (auto simp: to_agent_response_def interpret_action_def interpret_confirmation_def propose_def
      plain_response_def Let_def split: if_splits option.splits sum.splits)

subsection \<open>Properties\<close>

text \<open>References survive the round trip through text: the identifier the agent prints in a confirmation request
  reads back as the same confirmation, and as the target of an action as the same resource.\<close>

lemma reference_round_trip:
  "ar_confirmation_id (to_agent_response (out\<lparr>io_response_type := IR_CONFIRMATION, io_resource_id := Some (uuid_str i)\<rparr>)) = Some i \<and>
   ar_response_type (to_agent_response (out\<lparr>io_response_type := IR_CONFIRMATION, io_resource_id := Some (uuid_str i)\<rparr>)) = CONFIRMATION \<and>
   build_resource_reference (out\<lparr>io_resource_id := Some (uuid_str i)\<rparr>) = Some \<lparr>ref_id = Some i, ref_natural_language = None\<rparr>"
  by (simp add: to_agent_response_def interpret_confirmation_def plain_response_def build_resource_reference_def uuid_of_str)

end
