(* ===== verification/Repositories.thy ===== *)
theory Repositories
  imports Models
begin

text \<open>
  \<^verbatim>\<open>repositories/*.py\<close> and \<^verbatim>\<open>uow.py\<close>. A repository operation acts on the session's working
  rows; the unit of work commits or discards them. A table is the list of its rows in the order
  a scan meets them, and every theorem holds for every such order. Two interfaces are stated as
  locales: a table addressed by key, and a row claimed by one conditional UPDATE.
\<close>

subsection \<open>Interface: a table addressed by key\<close>

definition find_row :: "('r \<Rightarrow> uuid) \<Rightarrow> uuid \<Rightarrow> 'r list \<Rightarrow> 'r option" where
  "find_row key i rs = find (\<lambda>r. key r = i) rs"

definition replace_row :: "('r \<Rightarrow> uuid) \<Rightarrow> 'r \<Rightarrow> 'r list \<Rightarrow> 'r list" where
  "replace_row key r rs = map (\<lambda>x. if key x = key r then r else x) rs"

definition remove_row :: "('r \<Rightarrow> uuid) \<Rightarrow> uuid \<Rightarrow> 'r list \<Rightarrow> 'r list" where
  "remove_row key i rs = filter (\<lambda>x. key x \<noteq> i) rs"

lemma find_row_Nil [simp]: "find_row key i [] = None"
  by (simp add: find_row_def)

lemma find_row_Cons [simp]:
  "find_row key i (r # rs) = (if key r = i then Some r else find_row key i rs)"
  by (simp add: find_row_def)

lemma find_row_SomeD: "find_row key i rs = Some r \<Longrightarrow> r \<in> set rs \<and> key r = i"
  by (induction rs) (auto split: if_splits)

lemma find_row_None_iff: "find_row key i rs = None \<longleftrightarrow> i \<notin> key ` set rs"
  by (induction rs) auto

lemma find_row_distinct: "distinct (map key rs) \<Longrightarrow> r \<in> set rs \<Longrightarrow> find_row key (key r) rs = Some r"
  by (induction rs) (auto simp: rev_image_eqI)

lemma find_row_map: "(\<And>x. key (f x) = key x) \<Longrightarrow> find_row key i (map f rs) = map_option f (find_row key i rs)"
  by (induction rs) auto

lemma find_row_append:
  "find_row key i (xs @ ys) = (case find_row key i xs of None \<Rightarrow> find_row key i ys | Some r \<Rightarrow> Some r)"
  by (induction xs) auto

lemma find_row_replace:
  "find_row key i (replace_row key r rs) =
     (if i = key r \<and> i \<in> key ` set rs then Some r else find_row key i rs)"
  by (induction rs) (auto simp: replace_row_def)

lemma find_row_remove: "find_row key i (remove_row key j rs) = (if i = j then None else find_row key i rs)"
  by (induction rs) (auto simp: remove_row_def)

lemma keys_replace_row: "map key (replace_row key r rs) = map key rs"
  by (induction rs) (auto simp: replace_row_def)

lemma distinct_remove_row: "distinct (map key rs) \<Longrightarrow> distinct (map key (remove_row key i rs))"
  by (simp add: remove_row_def distinct_map_filter)

lemma set_remove_row: "set (remove_row key i rs) = {r \<in> set rs. key r \<noteq> i}"
  by (simp add: remove_row_def)

lemma set_replace_row:
  "set (replace_row key r rs) = (if key r \<in> key ` set rs then insert r {x \<in> set rs. key x \<noteq> key r} else set rs)"
  by (induction rs) (auto simp: replace_row_def)

locale keyed_table =
  fixes rows :: "'d \<Rightarrow> 'r list"
    and key :: "'r \<Rightarrow> uuid"
    and get :: "uuid \<Rightarrow> 'd \<Rightarrow> 'r option"
    and ins :: "'r \<Rightarrow> 'd \<Rightarrow> 'd"
    and upd :: "'r \<Rightarrow> 'd \<Rightarrow> 'd"
    and del :: "uuid \<Rightarrow> 'd \<Rightarrow> 'd"
  assumes get_rows: "get i d = find_row key i (rows d)"
    and rows_ins: "rows (ins r d) = rows d @ [r]"
    and rows_upd: "rows (upd r d) = replace_row key r (rows d)"
    and rows_del: "rows (del i d) = remove_row key i (rows d)"
begin

lemma get_SomeD: "get i d = Some r \<Longrightarrow> r \<in> set (rows d) \<and> key r = i"
  by (simp add: get_rows find_row_SomeD)

lemma get_None_iff: "get i d = None \<longleftrightarrow> i \<notin> key ` set (rows d)"
  by (simp add: get_rows find_row_None_iff)

lemma get_ins: "get (key r) d = None \<Longrightarrow> get i (ins r d) = (if i = key r then Some r else get i d)"
  by (auto simp: get_rows rows_ins find_row_append split: option.splits)

lemma get_upd: "get (key r) d = Some old \<Longrightarrow> get i (upd r d) = (if i = key r then Some r else get i d)"
  using find_row_None_iff [of key "key r" "rows d"]
  by (auto simp: get_rows rows_upd find_row_replace)

lemma get_del: "get i (del j d) = (if i = j then None else get i d)"
  by (simp add: get_rows rows_del find_row_remove)

lemma distinct_ins:
  "distinct (map key (rows d)) \<Longrightarrow> get (key r) d = None \<Longrightarrow> distinct (map key (rows (ins r d)))"
  by (auto simp: rows_ins get_None_iff)

lemma distinct_upd: "distinct (map key (rows d)) \<Longrightarrow> distinct (map key (rows (upd r d)))"
  by (simp add: rows_upd keys_replace_row)

lemma distinct_del: "distinct (map key (rows d)) \<Longrightarrow> distinct (map key (rows (del i d)))"
  by (simp add: rows_del distinct_remove_row)

lemma keys_upd: "key ` set (rows (upd r d)) = key ` set (rows d)"
  using keys_replace_row [of key r "rows d"] by (simp add: rows_upd flip: set_map)

lemmas table_simps = get_ins get_upd get_del distinct_ins distinct_upd distinct_del keys_upd

end

subsection \<open>Interface: a conditional UPDATE that claims a row\<close>

text \<open>
  \<^verbatim>\<open>UPDATE t SET \<dots> WHERE id = :id AND <condition>\<close> returning the number of rows, where the
  new values make the condition false for good. \<open>run_claims\<close> lets callers try one after the
  other, each with its own parameters.
\<close>

fun run_claims :: "('q \<Rightarrow> 'd \<Rightarrow> nat \<times> 'd) \<Rightarrow> 'q list \<Rightarrow> 'd \<Rightarrow> nat list \<times> 'd" where
  "run_claims f [] d = ([], d)"
| "run_claims f (q # qs) d =
     (case f q d of (n, d') \<Rightarrow> case run_claims f qs d' of (ns, d'') \<Rightarrow> (n # ns, d''))"

lemma one_row_per_key: "distinct (map key rs) \<Longrightarrow> length (filter (\<lambda>r. key r = i \<and> P r) rs) \<le> 1"
proof (induction rs)
  case (Cons r rs)
  have "filter (\<lambda>r. key r = i \<and> P r) rs = []" if "key r = i"
  proof -
    have "\<forall>x \<in> set rs. key x \<noteq> i" using Cons.prems that by (simp add: image_iff) metis
    then show ?thesis by (auto simp: filter_empty_conv)
  qed
  then show ?case using Cons by auto
qed simp

locale conditional_claim =
  fixes rows :: "'d \<Rightarrow> 'r list"
    and key :: "'r \<Rightarrow> uuid"
    and open_for :: "'q \<Rightarrow> 'r \<Rightarrow> bool"
    and close :: "'q \<Rightarrow> 'r \<Rightarrow> 'r"
    and claim :: "uuid \<Rightarrow> 'q \<Rightarrow> 'd \<Rightarrow> nat \<times> 'd"
  assumes claim_count: "fst (claim i q d) = length (filter (\<lambda>r. key r = i \<and> open_for q r) (rows d))"
    and claim_rows: "rows (snd (claim i q d)) =
      map (\<lambda>r. if key r = i \<and> open_for q r then close q r else r) (rows d)"
    and close_key: "key (close q r) = key r"
    and close_closed: "\<not> open_for q' (close q r)"
begin

lemma claim_keys: "map key (rows (snd (claim i q d))) = map key (rows d)"
  by (simp add: claim_rows close_key)

lemma claim_le_one: "distinct (map key (rows d)) \<Longrightarrow> fst (claim i q d) \<le> 1"
  using one_row_per_key [of key "rows d" i "open_for q"] by (simp add: claim_count)

definition spent :: "uuid \<Rightarrow> 'd \<Rightarrow> bool" where
  "spent i d \<longleftrightarrow> (\<forall>r \<in> set (rows d). key r = i \<longrightarrow> (\<forall>q. \<not> open_for q r))"

lemma spent_claim:
  assumes "spent i d"
  shows "fst (claim i q d) = 0" and "spent i (snd (claim i q d))"
proof -
  show "fst (claim i q d) = 0"
    using assms by (auto simp: claim_count spent_def filter_empty_conv)
  have "rows (snd (claim i q d)) = rows d"
    using assms by (auto simp: claim_rows spent_def intro!: map_idI)
  with assms show "spent i (snd (claim i q d))" by (simp add: spent_def)
qed

lemma won_spent:
  assumes "distinct (map key (rows d))" and "fst (claim i q d) \<noteq> 0"
  shows "spent i (snd (claim i q d))"
proof -
  obtain r where r: "r \<in> set (rows d)" "key r = i" "open_for q r"
    using assms(2) by (auto simp: claim_count filter_empty_conv)
  have "x = r" if "x \<in> set (rows d)" "key x = i" for x
    using assms(1) r that unfolding distinct_map inj_on_def by blast
  then have "\<not> open_for q' (if key x = i \<and> open_for q x then close q x else x)"
    if "x \<in> set (rows d)" "key x = i" for x q'
    using r(2,3) that close_closed by metis
  note shut = this
  show ?thesis
    unfolding spent_def
  proof (intro ballI impI allI)
    fix y q' assume "y \<in> set (rows (snd (claim i q d)))" and y: "key y = i"
    then obtain x where x: "x \<in> set (rows d)" "y = (if key x = i \<and> open_for q x then close q x else x)"
      by (auto simp: claim_rows)
    then have "key x = i" using y close_key by (auto split: if_splits)
    with x shut show "\<not> open_for q' y" by blast
  qed
qed

lemma spent_run: "spent i d \<Longrightarrow> sum_list (fst (run_claims (claim i) qs d)) = 0"
proof (induction qs arbitrary: d)
  case (Cons q qs)
  from spent_claim [OF Cons.prems, of q] Cons.IH [of "snd (claim i q d)"] show ?case
    by (auto split: prod.splits)
qed simp

text \<open>However many callers try, at most one of them wins the row.\<close>

lemma one_winner: "distinct (map key (rows d)) \<Longrightarrow> sum_list (fst (run_claims (claim i) qs d)) \<le> 1"
proof (induction qs arbitrary: d)
  case (Cons q qs)
  obtain n d' where c: "claim i q d = (n, d')" by fastforce
  obtain ns d'' where rc: "run_claims (claim i) qs d' = (ns, d'')" by fastforce
  have dist: "distinct (map key (rows d'))" using claim_keys [of i q d] c Cons.prems by simp
  show ?case
  proof (cases "n = 0")
    case True
    with Cons.IH [OF dist] c rc show ?thesis by simp
  next
    case False
    then have "spent i d'" using won_spent [OF Cons.prems, of i q] c by simp
    from spent_run [OF this, of qs] claim_le_one [OF Cons.prems, of i q] c rc
    show ?thesis by (simp del: sum_list_eq_0_iff)
  qed
qed simp

end

subsection \<open>Unit of work\<close>

text \<open>
  A service's operation reads and writes the working rows, or raises. A module runs it, commits,
  and on any exception (of the operation or of the commit) rolls back and re-raises.
\<close>

type_synonym 'a act = "db \<Rightarrow> exn + 'a \<times> db"

definition rollback :: "session \<Rightarrow> session" where
  "rollback s = s\<lparr>working := committed s\<rparr>"

definition commit :: "db_env \<Rightarrow> session \<Rightarrow> exn + session" where
  "commit E s =
     (case commit_exn E (working s) of Some e \<Rightarrow> Inl e | None \<Rightarrow> Inr (s\<lparr>committed := working s\<rparr>))"

definition transact :: "db_env \<Rightarrow> 'a act \<Rightarrow> session \<Rightarrow> (exn + 'a) \<times> session" where
  "transact E f s =
     (case f (working s) of
        Inl e \<Rightarrow> (Inl e, rollback s)
      | Inr (x, d) \<Rightarrow>
          (case commit E (s\<lparr>working := d\<rparr>) of
             Inl e \<Rightarrow> (Inl e, rollback s)
           | Inr s' \<Rightarrow> (Inr x, s')))"

definition clean :: "session \<Rightarrow> bool" where
  \<comment> \<open>nothing uncommitted, as at the start of a request\<close>
  "clean s \<longleftrightarrow> working s = committed s"

lemma transact_cases:
  obtains (raised) e where "f (working s) = Inl e" "transact E f s = (Inl e, rollback s)"
  | (commit_failed) x d e where "f (working s) = Inr (x, d)" "commit_exn E d = Some e"
      "transact E f s = (Inl e, rollback s)"
  | (saved) x d where "f (working s) = Inr (x, d)" "commit_exn E d = None"
      "transact E f s = (Inr x, \<lparr>committed = d, working = d\<rparr>)"
proof (cases "f (working s)")
  case (Inl e)
  then show ?thesis using raised by (simp add: transact_def)
next
  case (Inr p)
  obtain x d where p: "p = (x, d)" by fastforce
  have "committed s = committed s" ..
  show ?thesis
  proof (cases "commit_exn E d")
    case None
    have "s\<lparr>working := d, committed := d\<rparr> = \<lparr>committed = d, working = d\<rparr>" by (cases s) simp
    with None Inr p show ?thesis using saved [of x d] by (simp add: transact_def commit_def)
  next
    case (Some e)
    with Inr p show ?thesis using commit_failed [of x d e] by (simp add: transact_def commit_def)
  qed
qed

lemma transact_clean: "clean (snd (transact E f s))"
  by (cases rule: transact_cases [of f s E]) (auto simp: clean_def rollback_def)

lemma transact_Inl: "fst (transact E f s) = Inl e \<Longrightarrow> snd (transact E f s) = rollback s"
  by (cases rule: transact_cases [of f s E]) auto

lemma transact_Inr:
  "transact E f s = (Inr x, s') \<Longrightarrow> \<exists>d. f (working s) = Inr (x, d) \<and> s' = \<lparr>committed = d, working = d\<rparr>"
  by (cases rule: transact_cases [of f s E]) auto

lemma transact_commits:
  "f (working s) = Inr (x, d) \<Longrightarrow> commit_exn E d = None
   \<Longrightarrow> transact E f s = (Inr x, \<lparr>committed = d, working = d\<rparr>)"
  by (cases rule: transact_cases [of f s E]) auto

lemma transact_raises: "f (working s) = Inl e \<Longrightarrow> transact E f s = (Inl e, rollback s)"
  by (simp add: transact_def)

lemma transact_failed_unchanged:
  "\<not> (\<exists>x. fst (transact E f s) = Inr x) \<Longrightarrow> committed (snd (transact E f s)) = committed s"
  by (cases rule: transact_cases [of f s E]) (auto simp: rollback_def)

subsection \<open>Interface: an invariant of the stored rows kept by a use case\<close>

locale invariant_use_case =
  fixes inv :: "db \<Rightarrow> bool" and use_case :: "'a act"
  assumes keeps: "inv d \<Longrightarrow> use_case d = Inr (x, d') \<Longrightarrow> inv d'"
begin

lemma transact_keeps:
  assumes "inv (committed s)" and "clean s"
  shows "inv (committed (snd (transact E use_case s)))"
  using assms keeps
  by (cases rule: transact_cases [of use_case s E]) (auto simp: clean_def rollback_def)

end

subsection \<open>repositories/task_repository.py\<close>

record new_task =
  \<comment> \<open>the keyword arguments of \<open>Task(...)\<close>, still Python values\<close>
  n_name :: pyval
  n_description :: pyval
  n_deadline :: datetime
  n_priority :: pyval
  n_status :: pyval
  n_duration :: pyval

record task_patch =
  \<comment> \<open>the attributes set on a loaded task\<close>
  p_name :: "pyval option"
  p_description :: "pyval option"
  p_deadline :: "datetime option"
  p_priority :: "pyval option"
  p_status :: "pyval option"
  p_duration :: "pyval option"

definition task_get :: "uuid \<Rightarrow> db \<Rightarrow> task option" where
  "task_get i d = find_row t_id i (tasks d)"

definition task_insert :: "task \<Rightarrow> db \<Rightarrow> db" where
  "task_insert t d = d\<lparr>tasks := tasks d @ [t]\<rparr>"

definition task_replace :: "task \<Rightarrow> db \<Rightarrow> db" where
  "task_replace t d = d\<lparr>tasks := replace_row t_id t (tasks d)\<rparr>"

definition task_erase :: "uuid \<Rightarrow> db \<Rightarrow> db" where
  \<comment> \<open>DELETE FROM tasks; the foreign key of reminders is ON DELETE CASCADE\<close>
  "task_erase i d = d\<lparr>tasks := remove_row t_id i (tasks d),
                       reminders := filter (\<lambda>r. r_task_id r \<noteq> i) (reminders d)\<rparr>"

interpretation task_table: keyed_table tasks t_id task_get task_insert task_replace task_erase
  by unfold_locales (simp_all add: task_get_def task_insert_def task_replace_def task_erase_def)

definition bind_new_task :: "db_env \<Rightarrow> uuid \<Rightarrow> new_task \<Rightarrow> int \<Rightarrow> int \<Rightarrow> exn + task" where
  "bind_new_task E i n created updated =
     then_do (bind_name E (n_name n)) (\<lambda>nm.
     then_do (bind_text E (n_description n)) (\<lambda>ds.
     then_do (bind_int E (n_duration n)) (\<lambda>du.
     then_do (bind_str E (n_priority n)) (\<lambda>pr.
     then_do (bind_str E (n_status n)) (\<lambda>st.
       Inr \<lparr>t_id = i, t_name = nm, t_description = ds, t_deadline = from_db E (instant (n_deadline n)),
            t_duration = du, t_priority = pr, t_status = st,
            t_created_at = from_db E created, t_updated_at = from_db E updated\<rparr>)))))"

definition task_repo_create :: "db_env \<Rightarrow> uuid \<Rightarrow> new_task \<Rightarrow> int \<Rightarrow> int \<Rightarrow> task act" where
  \<comment> \<open>add, flush, refresh; a duplicate primary key is an IntegrityError\<close>
  "task_repo_create E i n created updated d =
     then_do (bind_new_task E i n created updated) (\<lambda>t.
       if task_get i d \<noteq> None then Inl (DbError ''duplicate key'') else Inr (t, task_insert t d))"

definition set_field :: "('v \<Rightarrow> exn + 'c) \<Rightarrow> 'v option \<Rightarrow> 'c \<Rightarrow> exn + 'c" where
  "set_field bind v old = (case v of None \<Rightarrow> Inr old | Some x \<Rightarrow> bind x)"

definition bind_patch :: "db_env \<Rightarrow> task \<Rightarrow> task_patch \<Rightarrow> exn + task" where
  "bind_patch E t p =
     then_do (set_field (bind_name E) (p_name p) (t_name t)) (\<lambda>nm.
     then_do (set_field (bind_text E) (p_description p) (t_description t)) (\<lambda>ds.
     then_do (set_field (bind_int E) (p_duration p) (t_duration t)) (\<lambda>du.
     then_do (set_field (bind_str E) (p_priority p) (t_priority t)) (\<lambda>pr.
     then_do (set_field (bind_str E) (p_status p) (t_status t)) (\<lambda>st.
       Inr (t\<lparr>t_name := nm, t_description := ds,
              t_deadline := (case p_deadline p of None \<Rightarrow> t_deadline t | Some x \<Rightarrow> from_db E (instant x)),
              t_duration := du, t_priority := pr, t_status := st\<rparr>))))))"

definition task_repo_update :: "db_env \<Rightarrow> task \<Rightarrow> task_patch \<Rightarrow> int \<Rightarrow> task act" where
  \<comment> \<open>merge, flush, refresh; without a net change no UPDATE is sent and onupdate does not run\<close>
  "task_repo_update E t p updated d =
     then_do (bind_patch E t p) (\<lambda>t'.
       if t' = t then Inr (t, d)
       else (let t'' = t'\<lparr>t_updated_at := from_db E updated\<rparr> in Inr (t'', task_replace t'' d)))"

definition task_repo_delete :: "uuid \<Rightarrow> bool act" where
  "task_repo_delete i d =
     (case task_get i d of None \<Rightarrow> Inr (False, d) | Some _ \<Rightarrow> Inr (True, task_erase i d))"

definition find_by_name :: "db_env \<Rightarrow> string \<Rightarrow> db \<Rightarrow> task list" where
  "find_by_name E phrase d =
     sort_key (\<lambda>t. collation_key E (t_name t))
       (filter (\<lambda>t. ilike E (''%'' @ phrase @ ''%'') (t_name t)) (tasks d))"

definition find_by_deadline_range :: "datetime \<Rightarrow> datetime \<Rightarrow> db \<Rightarrow> task list" where
  "find_by_deadline_range start fin d =
     sort_key (\<lambda>t. instant (t_deadline t))
       (filter (\<lambda>t. instant (t_deadline t) \<ge> instant start \<and> instant (t_deadline t) \<le> instant fin) (tasks d))"

subsection \<open>repositories/reminder_repository.py\<close>

definition reminder_get :: "uuid \<Rightarrow> db \<Rightarrow> reminder option" where
  "reminder_get i d = find_row r_id i (reminders d)"

definition reminder_insert :: "reminder \<Rightarrow> db \<Rightarrow> db" where
  "reminder_insert r d = d\<lparr>reminders := reminders d @ [r]\<rparr>"

definition reminder_replace :: "reminder \<Rightarrow> db \<Rightarrow> db" where
  "reminder_replace r d = d\<lparr>reminders := replace_row r_id r (reminders d)\<rparr>"

definition reminder_erase :: "uuid \<Rightarrow> db \<Rightarrow> db" where
  "reminder_erase i d = d\<lparr>reminders := remove_row r_id i (reminders d)\<rparr>"

interpretation reminder_table: keyed_table reminders r_id reminder_get reminder_insert
    reminder_replace reminder_erase
  by unfold_locales
    (simp_all add: reminder_get_def reminder_insert_def reminder_replace_def reminder_erase_def)

definition reminder_repo_create :: "reminder \<Rightarrow> reminder act" where
  \<comment> \<open>add, flush, refresh, under the primary and the foreign key\<close>
  "reminder_repo_create r d =
     (if reminder_get (r_id r) d \<noteq> None then Inl (DbError ''duplicate key'')
      else if task_get (r_task_id r) d = None then Inl (DbError ''foreign key violation'')
      else Inr (r, reminder_insert r d))"

definition list_by_task_id :: "uuid \<Rightarrow> db \<Rightarrow> reminder list" where
  "list_by_task_id i d = sort_key (\<lambda>r. instant (r_remind_at r)) (filter (\<lambda>r. r_task_id r = i) (reminders d))"

definition find_by_task_name :: "db_env \<Rightarrow> string \<Rightarrow> db \<Rightarrow> reminder list" where
  "find_by_task_name E phrase d =
     sort_key (\<lambda>r. instant (r_remind_at r))
       (filter (\<lambda>r. case task_get (r_task_id r) d of None \<Rightarrow> False
                     | Some t \<Rightarrow> ilike E (''%'' @ phrase @ ''%'') (t_name t)) (reminders d))"

definition reminder_repo_update :: "db_env \<Rightarrow> reminder \<Rightarrow> reminder \<Rightarrow> int \<Rightarrow> reminder act" where
  \<comment> \<open>the loaded row and the row with its new attributes\<close>
  "reminder_repo_update E old r updated d =
     (if r = old then Inr (old, d)
      else (let r' = r\<lparr>r_updated_at := from_db E updated\<rparr> in Inr (r', reminder_replace r' d)))"

definition reminder_repo_delete :: "uuid \<Rightarrow> bool act" where
  "reminder_repo_delete i d =
     (case reminder_get i d of None \<Rightarrow> Inr (False, d) | Some _ \<Rightarrow> Inr (True, reminder_erase i d))"

definition reminder_due :: "int \<Rightarrow> reminder \<Rightarrow> bool" where
  "reminder_due now r \<longleftrightarrow> r_status r = rem_status_value RS_PENDING \<and> instant (r_remind_at r) \<le> now"

definition find_due :: "nat \<Rightarrow> int \<Rightarrow> db \<Rightarrow> reminder list" where
  "find_due limit now d =
     take limit (sort_key (\<lambda>r. (instant (r_remind_at r), r_id r)) (filter (reminder_due now) (reminders d)))"

definition mark_sent :: "db_env \<Rightarrow> uuid \<Rightarrow> int \<Rightarrow> db \<Rightarrow> nat \<times> db" where
  "mark_sent E i now d =
     (length (filter (\<lambda>r. r_id r = i \<and> reminder_due now r) (reminders d)),
      d\<lparr>reminders := map (\<lambda>r. if r_id r = i \<and> reminder_due now r
          then r\<lparr>r_status := rem_status_value RS_SENT, r_updated_at := from_db E now\<rparr> else r) (reminders d)\<rparr>)"

interpretation reminder_claim: conditional_claim reminders r_id reminder_due
    "\<lambda>now r. r\<lparr>r_status := rem_status_value RS_SENT, r_updated_at := from_db E now\<rparr>" "mark_sent E" for E
  by unfold_locales (simp_all add: mark_sent_def reminder_due_def)

subsection \<open>repositories/pending_confirmation_repository.py\<close>

definition confirmation_get :: "uuid \<Rightarrow> db \<Rightarrow> pending_confirmation option" where
  "confirmation_get i d = find_row c_id i (confirmations d)"

definition confirmation_insert :: "pending_confirmation \<Rightarrow> db \<Rightarrow> db" where
  "confirmation_insert c d = d\<lparr>confirmations := confirmations d @ [c]\<rparr>"

definition confirmation_replace :: "pending_confirmation \<Rightarrow> db \<Rightarrow> db" where
  "confirmation_replace c d = d\<lparr>confirmations := replace_row c_id c (confirmations d)\<rparr>"

definition confirmation_erase :: "uuid \<Rightarrow> db \<Rightarrow> db" where
  \<comment> \<open>no code of the program deletes a confirmation; the table interface has the operation\<close>
  "confirmation_erase i d = d\<lparr>confirmations := remove_row c_id i (confirmations d)\<rparr>"

interpretation confirmation_table: keyed_table confirmations c_id confirmation_get confirmation_insert
    confirmation_replace confirmation_erase
  by unfold_locales
    (simp_all add: confirmation_get_def confirmation_insert_def confirmation_replace_def confirmation_erase_def)

definition confirmation_repo_create :: "pending_confirmation \<Rightarrow> pending_confirmation act" where
  "confirmation_repo_create c d =
     (if confirmation_get (c_id c) d \<noteq> None then Inl (DbError ''duplicate key'')
      else Inr (c, confirmation_insert c d))"

definition find_latest_pending_by_user :: "uuid option \<Rightarrow> db \<Rightarrow> pending_confirmation option" where
  \<comment> \<open>ORDER BY created_at DESC, id DESC LIMIT 1; an absent user matches NULL\<close>
  "find_latest_pending_by_user user d =
     (let cs = sort_key (\<lambda>c. (instant (c_created_at c), c_id c))
                 (filter (\<lambda>c. c_user_id c = user \<and> c_status c = conf_status_value CS_PENDING) (confirmations d))
      in if cs = [] then None else Some (last cs))"

definition confirmation_overdue :: "int \<Rightarrow> pending_confirmation \<Rightarrow> bool" where
  "confirmation_overdue now c \<longleftrightarrow> c_status c = conf_status_value CS_PENDING \<and> instant (c_expires_at c) < now"

definition mark_expired :: "int \<Rightarrow> db \<Rightarrow> nat \<times> db" where
  "mark_expired now d =
     (length (filter (confirmation_overdue now) (confirmations d)),
      d\<lparr>confirmations := map (\<lambda>c. if confirmation_overdue now c
          then c\<lparr>c_status := conf_status_value CS_EXPIRED\<rparr> else c) (confirmations d)\<rparr>)"

definition confirmable :: "uuid option \<times> int \<Rightarrow> pending_confirmation \<Rightarrow> bool" where
  "confirmable q c \<longleftrightarrow> (case q of (user, now) \<Rightarrow>
     c_user_id c = user \<and> c_status c = conf_status_value CS_PENDING \<and> instant (c_expires_at c) > now)"

definition mark_confirmed :: "uuid \<Rightarrow> uuid option \<times> int \<Rightarrow> db \<Rightarrow> nat \<times> db" where
  "mark_confirmed i q d =
     (length (filter (\<lambda>c. c_id c = i \<and> confirmable q c) (confirmations d)),
      d\<lparr>confirmations := map (\<lambda>c. if c_id c = i \<and> confirmable q c
          then c\<lparr>c_status := conf_status_value CS_CONFIRMED\<rparr> else c) (confirmations d)\<rparr>)"

interpretation confirmation_claim: conditional_claim confirmations c_id confirmable
    "\<lambda>q c. c\<lparr>c_status := conf_status_value CS_CONFIRMED\<rparr>" mark_confirmed
  by unfold_locales (auto simp: mark_confirmed_def confirmable_def split: prod.splits)

subsection \<open>The integrity of the stored rows\<close>

definition db_integrity :: "db \<Rightarrow> bool" where
  "db_integrity d \<longleftrightarrow>
     distinct (map t_id (tasks d)) \<and> distinct (map r_id (reminders d)) \<and>
     distinct (map c_id (confirmations d)) \<and>
     (\<forall>r \<in> set (reminders d). r_task_id r \<in> t_id ` set (tasks d)) \<and>
     (\<forall>r \<in> set (reminders d). r_status r \<in> range rem_status_value) \<and>
     (\<forall>c \<in> set (confirmations d). c_status c \<in> range conf_status_value)"

text \<open>What each write does to integrity, shared by the services.\<close>

lemma integrity_task_insert:
  "db_integrity d \<Longrightarrow> task_get (t_id t) d = None \<Longrightarrow> db_integrity (task_insert t d)"
  using task_table.distinct_ins [of d t] by (auto simp: db_integrity_def task_insert_def)

lemma integrity_task_replace: "db_integrity d \<Longrightarrow> db_integrity (task_replace t d)"
  using task_table.keys_upd [of t d] task_table.distinct_upd [of d t]
  by (auto simp: db_integrity_def task_replace_def)

lemma integrity_task_erase: "db_integrity d \<Longrightarrow> db_integrity (task_erase i d)"
  by (auto simp: db_integrity_def task_erase_def distinct_remove_row distinct_map_filter set_remove_row)

lemma integrity_reminder_insert:
  assumes "db_integrity d" and "reminder_get (r_id r) d = None"
    and "task_get (r_task_id r) d \<noteq> None" and "r_status r \<in> range rem_status_value"
  shows "db_integrity (reminder_insert r d)"
  using assms reminder_table.distinct_ins [of d r] task_table.get_None_iff [of "r_task_id r" d]
  by (auto simp: db_integrity_def reminder_insert_def)

lemma integrity_reminder_replace:
  assumes "db_integrity d" and "reminder_get (r_id r) d = Some old"
    and "r_task_id r = r_task_id old" and "r_status r \<in> range rem_status_value"
  shows "db_integrity (reminder_replace r d)"
proof -
  have "old \<in> set (reminders d)" using assms(2) reminder_table.get_SomeD by blast
  then have "r_task_id r \<in> t_id ` set (tasks d)" using assms(1,3) by (auto simp: db_integrity_def)
  with assms show ?thesis
    by (auto simp: db_integrity_def reminder_replace_def keys_replace_row set_replace_row)
qed

lemma integrity_reminder_erase: "db_integrity d \<Longrightarrow> db_integrity (reminder_erase i d)"
  by (auto simp: db_integrity_def reminder_erase_def distinct_remove_row set_remove_row)

lemma status_text_in_range [simp]:
  "''SENT'' \<in> range rem_status_value" "''PENDING'' \<in> range rem_status_value"
  "''CANCELLED'' \<in> range rem_status_value" "''PENDING'' \<in> range conf_status_value"
  "''EXPIRED'' \<in> range conf_status_value" "''CONFIRMED'' \<in> range conf_status_value"
  using rangeI [of rem_status_value RS_SENT] rangeI [of rem_status_value RS_PENDING]
    rangeI [of rem_status_value RS_CANCELLED] rangeI [of conf_status_value CS_PENDING]
    rangeI [of conf_status_value CS_EXPIRED] rangeI [of conf_status_value CS_CONFIRMED]
  by simp_all

lemma integrity_map_reminders:
  assumes "db_integrity d" and "\<And>r. r_id (f r) = r_id r" and "\<And>r. r_task_id (f r) = r_task_id r"
    and "\<And>r. r_status (f r) = r_status r \<or> r_status (f r) \<in> range rem_status_value"
  shows "db_integrity (d\<lparr>reminders := map f (reminders d)\<rparr>)"
proof -
  have "r_id \<circ> f = r_id" using assms(2) by auto
  moreover have "\<forall>r \<in> set (map f (reminders d)). r_status r \<in> range rem_status_value"
  proof
    fix y assume "y \<in> set (map f (reminders d))"
    then obtain x where x: "x \<in> set (reminders d)" "y = f x" by auto
    with assms(1) have "r_status x \<in> range rem_status_value" by (simp add: db_integrity_def)
    with assms(4) [of x] x(2) show "r_status y \<in> range rem_status_value" by metis
  qed
  moreover have "\<forall>r \<in> set (map f (reminders d)). r_task_id r \<in> t_id ` set (tasks d)"
    using assms(1,3) by (auto simp: db_integrity_def)
  ultimately show ?thesis
    using assms(1) unfolding db_integrity_def by simp
qed

lemma integrity_map_confirmations:
  assumes "db_integrity d" and "\<And>c. c_id (f c) = c_id c"
    and "\<And>c. c_status (f c) = c_status c \<or> c_status (f c) \<in> range conf_status_value"
  shows "db_integrity (d\<lparr>confirmations := map f (confirmations d)\<rparr>)"
proof -
  have "c_id \<circ> f = c_id" using assms(2) by auto
  moreover have "\<forall>c \<in> set (map f (confirmations d)). c_status c \<in> range conf_status_value"
  proof
    fix y assume "y \<in> set (map f (confirmations d))"
    then obtain x where x: "x \<in> set (confirmations d)" "y = f x" by auto
    with assms(1) have "c_status x \<in> range conf_status_value" by (simp add: db_integrity_def)
    with assms(3) [of x] x(2) show "c_status y \<in> range conf_status_value" by metis
  qed
  ultimately show ?thesis
    using assms(1) unfolding db_integrity_def by simp
qed

lemma integrity_mark_sent: "db_integrity d \<Longrightarrow> db_integrity (snd (mark_sent E i now d))"
  unfolding mark_sent_def snd_conv by (rule integrity_map_reminders) auto

lemma integrity_mark_expired: "db_integrity d \<Longrightarrow> db_integrity (snd (mark_expired now d))"
  unfolding mark_expired_def snd_conv by (rule integrity_map_confirmations) auto

lemma integrity_mark_confirmed: "db_integrity d \<Longrightarrow> db_integrity (snd (mark_confirmed i q d))"
  unfolding mark_confirmed_def snd_conv by (rule integrity_map_confirmations) auto

lemma integrity_confirmation_insert:
  assumes "db_integrity d" and "confirmation_get (c_id c) d = None" and "c_status c \<in> range conf_status_value"
  shows "db_integrity (confirmation_insert c d)"
  using assms confirmation_table.distinct_ins [of d c] by (auto simp: db_integrity_def confirmation_insert_def)

lemma integrity_confirmation_replace:
  "db_integrity d \<Longrightarrow> c_status c \<in> range conf_status_value \<Longrightarrow> db_integrity (confirmation_replace c d)"
  by (auto simp: db_integrity_def confirmation_replace_def keys_replace_row set_replace_row)

lemmas integrity_intros = integrity_task_insert integrity_task_replace integrity_task_erase
  integrity_reminder_insert integrity_reminder_replace integrity_reminder_erase integrity_mark_sent
  integrity_mark_expired integrity_mark_confirmed integrity_confirmation_insert
  integrity_confirmation_replace

end
