(* ===== verification/Samples.thy ===== *)
theory Samples
  imports Repositories
begin

text \<open>
  Small stored rows on which the theorems are instantiated: one task with one pending reminder, and
  a confirmation. Times are microseconds.
\<close>

definition sample_task :: "uuid \<Rightarrow> int \<Rightarrow> task" where
  "sample_task i dl = \<lparr>t_id = i, t_name = ''Report'', t_description = Some ''draft'', t_deadline = utc dl,
     t_duration = Some 60, t_priority = ''HIGH'', t_status = ''TODO'', t_created_at = utc 0, t_updated_at = utc 0\<rparr>"

definition sample_reminder :: "uuid \<Rightarrow> uuid \<Rightarrow> int \<Rightarrow> reminder_status \<Rightarrow> reminder" where
  "sample_reminder i tid at st = \<lparr>r_id = i, r_task_id = tid, r_remind_at = utc at, r_status = rem_status_value st,
     r_created_at = utc 0, r_updated_at = utc 0\<rparr>"

definition sample_confirmation :: "uuid \<Rightarrow> uuid option \<Rightarrow> string \<Rightarrow> int \<Rightarrow> pending_confirmation" where
  "sample_confirmation i user command expires = \<lparr>c_id = i, c_user_id = user, c_execution_command = command,
     c_created_at = utc 0, c_expires_at = utc expires, c_status = conf_status_value CS_PENDING\<rparr>"

definition sample_db :: db where
  \<comment> \<open>task 1 is due at 1000 and has reminder 2, pending, at 500\<close>
  "sample_db = \<lparr>tasks = [sample_task 1 1000], reminders = [sample_reminder 2 1 500 RS_PENDING], confirmations = []\<rparr>"

definition sample_session :: session where
  "sample_session = \<lparr>committed = sample_db, working = sample_db\<rparr>"

lemmas sample_simps = sample_task_def sample_reminder_def sample_confirmation_def sample_db_def sample_session_def

lemma rangeI_rem: "rem_status_value st \<in> range rem_status_value"
  by (rule rangeI)

lemma integrity_sample_db: "db_integrity sample_db"
  by (simp add: db_integrity_def sample_simps)

end
