(* ===== verification/Confirmations.thy ===== *)
theory Confirmations
  imports AgentSchemas Samples
begin

text \<open>
  \<^verbatim>\<open>modules/pending_confirmation_module.py\<close>: a destructive command is stored as JSON and
  waits for the user's word. The JSON codec of the command (pydantic's \<^verbatim>\<open>model_dump_json\<close> and
  \<^verbatim>\<open>model_validate_json\<close>) is the argument \<open>J\<close>. The life of a confirmation is the relation
  \<open>conf_next\<close>; every operation of the module is shown to follow it.
\<close>

record json_codec =
  dump_command :: "execution_command \<Rightarrow> string"
  load_command :: "string \<Rightarrow> exn + execution_command"

datatype confirm_outcome = CO_CONFIRMED | CO_ALREADY_CONFIRMED | CO_EXPIRED | CO_CANCELLED | CO_NOT_FOUND

record confirm_result =
  cr_outcome :: confirm_outcome
  cr_confirmation :: "pending_confirmation option"

subsection \<open>PendingConfirmationModule\<close>

definition new_confirmation ::
  "db_env \<Rightarrow> json_codec \<Rightarrow> uuid \<Rightarrow> int \<Rightarrow> uuid option \<Rightarrow> execution_command \<Rightarrow> datetime \<Rightarrow> pending_confirmation" where
  "new_confirmation E J i now user command expires =
     \<lparr>c_id = i, c_user_id = user, c_execution_command = dump_command J command,
      c_created_at = from_db E now, c_expires_at = from_db E (instant expires),
      c_status = conf_status_value CS_PENDING\<rparr>"

definition create_confirmation ::
  "db_env \<Rightarrow> json_codec \<Rightarrow> uuid \<Rightarrow> int \<Rightarrow> uuid option \<Rightarrow> execution_command \<Rightarrow> int
     \<Rightarrow> session \<Rightarrow> (exn + pending_confirmation) \<times> session" where
  \<comment> \<open>\<^verbatim>\<open>expires_at\<close> is computed before the transaction is entered\<close>
  "create_confirmation E J i now user command ttl_seconds s =
     (case shift (utc now) (ttl_seconds * 1000000) of
        Inl e \<Rightarrow> (Inl e, s)
      | Inr expires \<Rightarrow>
          transact E (confirmation_repo_create (new_confirmation E J i now user command expires)) s)"

definition get_latest_pending :: "uuid option \<Rightarrow> session \<Rightarrow> pending_confirmation option" where
  "get_latest_pending user s = find_latest_pending_by_user user (working s)"

definition commit_or_rollback :: "db_env \<Rightarrow> 'a \<Rightarrow> session \<Rightarrow> (exn + 'a) \<times> session" where
  \<comment> \<open>try: commit() except: rollback(); raise\<close>
  "commit_or_rollback E x s =
     (case commit E s of Inl e \<Rightarrow> (Inl e, rollback s) | Inr s' \<Rightarrow> (Inr x, s'))"

definition confirm ::
  "db_env \<Rightarrow> int \<Rightarrow> uuid \<Rightarrow> uuid option \<Rightarrow> session \<Rightarrow> (exn + confirm_result) \<times> session" where
  "confirm E now i user s =
     (case mark_confirmed i (user, now) (working s) of (updated, d) \<Rightarrow>
      let s1 = s\<lparr>working := d\<rparr> in
      if updated = 1 then
        (case confirmation_get i d of
           None \<Rightarrow> (Inl (DbError ''refresh of a missing row''), s1)
         | Some c \<Rightarrow> commit_or_rollback E \<lparr>cr_outcome = CO_CONFIRMED, cr_confirmation = Some c\<rparr> s1)
      else
        (case confirmation_get i d of
           None \<Rightarrow> (Inr \<lparr>cr_outcome = CO_NOT_FOUND, cr_confirmation = None\<rparr>, s1)
         | Some c \<Rightarrow>
             if c_user_id c \<noteq> user then (Inr \<lparr>cr_outcome = CO_NOT_FOUND, cr_confirmation = None\<rparr>, s1)
             else if c_status c = conf_status_value CS_CONFIRMED
             then (Inr \<lparr>cr_outcome = CO_ALREADY_CONFIRMED, cr_confirmation = Some c\<rparr>, s1)
             else if c_status c = conf_status_value CS_CANCELLED
             then (Inr \<lparr>cr_outcome = CO_CANCELLED, cr_confirmation = Some c\<rparr>, s1)
             else if c_status c = conf_status_value CS_EXPIRED
             then (Inr \<lparr>cr_outcome = CO_EXPIRED, cr_confirmation = Some c\<rparr>, s1)
             else (let c' = c\<lparr>c_status := conf_status_value CS_EXPIRED\<rparr> in
                   commit_or_rollback E \<lparr>cr_outcome = CO_EXPIRED, cr_confirmation = Some c'\<rparr>
                     (s1\<lparr>working := confirmation_replace c' d\<rparr>))))"

definition cleanup_expired :: "db_env \<Rightarrow> int \<Rightarrow> session \<Rightarrow> (exn + nat) \<times> session" where
  "cleanup_expired E now s =
     (case mark_expired now (working s) of (marked, d) \<Rightarrow>
        if marked \<noteq> 0 then commit_or_rollback E marked (s\<lparr>working := d\<rparr>)
        else (Inr marked, s\<lparr>working := d\<rparr>))"

subsection \<open>Rows under a map\<close>

lemma get_mark_confirmed:
  "confirmation_get j (snd (mark_confirmed i q d)) =
     map_option (\<lambda>c. if c_id c = i \<and> confirmable q c then c\<lparr>c_status := conf_status_value CS_CONFIRMED\<rparr> else c)
       (confirmation_get j d)"
  by (simp add: confirmation_get_def mark_confirmed_def find_row_map)

lemma get_mark_expired:
  "confirmation_get j (snd (mark_expired now d)) =
     map_option (\<lambda>c. if confirmation_overdue now c then c\<lparr>c_status := conf_status_value CS_EXPIRED\<rparr> else c)
       (confirmation_get j d)"
  by (simp add: confirmation_get_def mark_expired_def find_row_map)

lemma filter_key_distinct:
  "distinct (map key rs) \<Longrightarrow>
     length (filter (\<lambda>r. key r = i \<and> P r) rs) = (case find_row key i rs of None \<Rightarrow> 0 | Some r \<Rightarrow> if P r then 1 else 0)"
proof (induction rs)
  case (Cons r rs)
  have "filter (\<lambda>x. key x = key r \<and> P x) rs = []" if "key r = i"
    using Cons.prems that by (auto simp: filter_empty_conv image_iff)
  then show ?case using Cons by auto
qed simp

lemma mark_confirmed_count:
  "db_integrity d \<Longrightarrow> fst (mark_confirmed i q d) =
     (case confirmation_get i d of None \<Rightarrow> 0 | Some c \<Rightarrow> if confirmable q c then 1 else 0)"
  by (simp add: mark_confirmed_def confirmation_get_def db_integrity_def filter_key_distinct)

lemma mark_confirmed_none: "fst (mark_confirmed i q d) = 0 \<Longrightarrow> snd (mark_confirmed i q d) = d"
  by (cases d) (auto simp: mark_confirmed_def filter_empty_conv intro!: map_idI)

lemma mark_expired_none: "fst (mark_expired now d) = 0 \<Longrightarrow> snd (mark_expired now d) = d"
  by (cases d) (auto simp: mark_expired_def filter_empty_conv intro!: map_idI)

subsection \<open>The life of a confirmation\<close>

definition conf_next :: "pending_confirmation \<Rightarrow> pending_confirmation \<Rightarrow> bool" where
  \<comment> \<open>a stored confirmation stays as it is, or leaves PENDING for CONFIRMED or EXPIRED\<close>
  "conf_next c c' \<longleftrightarrow> c' = c \<or> (c_status c = conf_status_value CS_PENDING \<and>
     (c' = c\<lparr>c_status := conf_status_value CS_CONFIRMED\<rparr> \<or> c' = c\<lparr>c_status := conf_status_value CS_EXPIRED\<rparr>))"

definition conf_evolves :: "db \<Rightarrow> db \<Rightarrow> bool" where
  "conf_evolves d d' \<longleftrightarrow> (\<forall>i c. confirmation_get i d = Some c \<longrightarrow>
     (\<exists>c'. confirmation_get i d' = Some c' \<and> conf_next c c'))"

lemma conf_next_refl [simp, intro]: "conf_next c c"
  by (simp add: conf_next_def)

lemma conf_next_trans: "conf_next a b \<Longrightarrow> conf_next b c \<Longrightarrow> conf_next a c"
  by (auto simp: conf_next_def)

lemma conf_evolves_refl [simp, intro]: "conf_evolves d d"
  by (simp add: conf_evolves_def)

lemma conf_evolves_trans: "conf_evolves a b \<Longrightarrow> conf_evolves b c \<Longrightarrow> conf_evolves a c"
  unfolding conf_evolves_def using conf_next_trans by meson

lemma conf_evolves_same: "confirmations d' = confirmations d \<Longrightarrow> conf_evolves d d'"
  by (auto simp: conf_evolves_def confirmation_get_def)

lemma conf_evolves_mark_confirmed: "conf_evolves d (snd (mark_confirmed i q d))"
  by (auto simp: conf_evolves_def get_mark_confirmed conf_next_def confirmable_def split: prod.splits)

lemma conf_evolves_mark_expired: "conf_evolves d (snd (mark_expired now d))"
  by (auto simp: conf_evolves_def get_mark_expired conf_next_def confirmation_overdue_def)

lemma conf_evolves_insert:
  "confirmation_get (c_id c) d = None \<Longrightarrow> conf_evolves d (confirmation_insert c d)"
  by (auto simp: conf_evolves_def confirmation_table.get_ins)

lemma conf_evolves_replace:
  assumes "confirmation_get (c_id c') d = Some c" and "conf_next c c'"
  shows "conf_evolves d (confirmation_replace c' d)"
  using assms by (auto simp: conf_evolves_def confirmation_table.get_upd [OF assms(1)])

lemma confirmation_repo_create_Inr:
  "confirmation_repo_create c d = Inr (x, d') \<longleftrightarrow> confirmation_get (c_id c) d = None \<and> x = c \<and> d' = confirmation_insert c d"
  by (auto simp: confirmation_repo_create_def)

lemma integrity_create_confirmation:
  "db_integrity d \<Longrightarrow> confirmation_repo_create (new_confirmation E J i now user command expires) d = Inr (c, d')
   \<Longrightarrow> db_integrity d'"
  by (auto simp: confirmation_repo_create_Inr new_confirmation_def intro!: integrity_confirmation_insert)

interpretation create_confirmation_uc: invariant_use_case db_integrity
    "confirmation_repo_create (new_confirmation E J i now user command expires)" for E J i now user command expires
  by unfold_locales (rule integrity_create_confirmation)

subsection \<open>What the operations do\<close>

lemma commit_or_rollback_cases:
  "commit_or_rollback E x s =
     (case commit_exn E (working s) of
        None \<Rightarrow> (Inr x, \<lparr>committed = working s, working = working s\<rparr>) | Some e \<Rightarrow> (Inl e, rollback s))"
  by (cases s) (auto simp: commit_or_rollback_def commit_def split: option.splits)

text \<open>The decision of \<open>confirm\<close> as a function of the row it finds.\<close>

fun confirm_verdict :: "int \<Rightarrow> uuid option \<Rightarrow> pending_confirmation option \<Rightarrow> confirm_outcome" where
  "confirm_verdict now user None = CO_NOT_FOUND"
| "confirm_verdict now user (Some c) =
     (if c_user_id c \<noteq> user then CO_NOT_FOUND
      else if c_status c = conf_status_value CS_CONFIRMED then CO_ALREADY_CONFIRMED
      else if c_status c = conf_status_value CS_CANCELLED then CO_CANCELLED
      else if c_status c = conf_status_value CS_EXPIRED then CO_EXPIRED
      else if now < instant (c_expires_at c) then CO_CONFIRMED else CO_EXPIRED)"

definition settle :: "confirm_outcome \<Rightarrow> pending_confirmation \<Rightarrow> pending_confirmation" where
  \<comment> \<open>the row after a confirmation attempt with this outcome\<close>
  "settle out c = (if c_status c \<noteq> conf_status_value CS_PENDING then c
     else if out = CO_CONFIRMED then c\<lparr>c_status := conf_status_value CS_CONFIRMED\<rparr>
     else if out = CO_EXPIRED then c\<lparr>c_status := conf_status_value CS_EXPIRED\<rparr> else c)"

definition confirm_rows :: "int \<Rightarrow> uuid \<Rightarrow> uuid option \<Rightarrow> db \<Rightarrow> db" where
  "confirm_rows now i user d =
     (case confirmation_get i d of None \<Rightarrow> d
      | Some c \<Rightarrow> confirmation_replace (settle (confirm_verdict now user (Some c)) c) d)"

lemma confirmation_replace_same:
  assumes "db_integrity d" and "confirmation_get i d = Some c"
  shows "confirmation_replace c d = d"
proof -
  have "c_id c = i" "c \<in> set (confirmations d)"
    using confirmation_table.get_SomeD [OF assms(2)] by auto
  then have "x = c" if "x \<in> set (confirmations d)" "c_id x = c_id c" for x
    using assms(1) that unfolding db_integrity_def distinct_map inj_on_def by blast
  then have "replace_row c_id c (confirmations d) = confirmations d"
    unfolding replace_row_def by (intro map_idI) auto
  then show ?thesis by (simp add: confirmation_replace_def)
qed

lemma mark_confirmed_replace:
  assumes "db_integrity d" and "confirmation_get i d = Some c" and "confirmable q c"
  shows "snd (mark_confirmed i q d) = confirmation_replace (c\<lparr>c_status := conf_status_value CS_CONFIRMED\<rparr>) d"
proof -
  have c: "c_id c = i" "c \<in> set (confirmations d)"
    using confirmation_table.get_SomeD [OF assms(2)] by auto
  have u: "x = c" if "x \<in> set (confirmations d)" "c_id x = i" for x
    using assms(1) that c unfolding db_integrity_def distinct_map inj_on_def by blast
  have "(if c_id x = i \<and> confirmable q x then x\<lparr>c_status := conf_status_value CS_CONFIRMED\<rparr> else x) =
      (if c_id x = c_id c then c\<lparr>c_status := conf_status_value CS_CONFIRMED\<rparr> else x)"
    if "x \<in> set (confirmations d)" for x
  proof (cases "c_id x = i")
    case True
    with u that have "x = c" by blast
    with c(1) assms(3) show ?thesis by simp
  qed (simp add: c(1))
  then show ?thesis
    by (simp add: mark_confirmed_def confirmation_replace_def replace_row_def cong: map_cong)
qed

text \<open>Any attempt, on any stored row: the outcome, the rows, and what a failed commit leaves.\<close>

lemma settle_changes:
  assumes "db_integrity d" and "confirmation_get i d = Some c" and "settle out c \<noteq> c"
  shows "confirmation_replace (settle out c) d \<noteq> d"
proof
  assume eq: "confirmation_replace (settle out c) d = d"
  have id: "c_id c = i" using confirmation_table.get_SomeD [OF assms(2)] by simp
  have "c_id (settle out c) = i" using id by (simp add: settle_def)
  then have "confirmation_get i (confirmation_replace (settle out c) d) = Some (settle out c)"
    using confirmation_table.get_upd [of "settle out c" d c i] assms(2) by simp
  with eq assms(2,3) show False by simp
qed

lemma confirm_none:
  assumes "db_integrity (working s)" and "confirmation_get i (working s) = None"
  shows "confirm E now i user s = (Inr \<lparr>cr_outcome = CO_NOT_FOUND, cr_confirmation = None\<rparr>, s)"
proof -
  have m: "fst (mark_confirmed i (user, now) (working s)) = 0"
    by (simp add: mark_confirmed_count [OF assms(1)] assms(2))
  show ?thesis using assms(2) m mark_confirmed_none [OF m]
    by (cases "mark_confirmed i (user, now) (working s)") (simp add: confirm_def)
qed

lemma confirm_open:
  assumes ok: "db_integrity (working s)" and row: "confirmation_get i (working s) = Some c"
    and open_row: "confirmable (user, now) c"
  shows "confirm E now i user s =
    (let c' = c\<lparr>c_status := conf_status_value CS_CONFIRMED\<rparr> in
     commit_or_rollback E \<lparr>cr_outcome = CO_CONFIRMED, cr_confirmation = Some c'\<rparr>
       (s\<lparr>working := confirmation_replace c' (working s)\<rparr>))"
proof -
  let ?q = "(user, now)" and ?c = "c\<lparr>c_status := conf_status_value CS_CONFIRMED\<rparr>"
  have id: "c_id c = i" using confirmation_table.get_SomeD [OF row] by simp
  have n: "fst (mark_confirmed i ?q (working s)) = 1"
    using mark_confirmed_count [OF ok, of i ?q] row open_row by simp
  have d: "snd (mark_confirmed i ?q (working s)) = confirmation_replace ?c (working s)"
    by (rule mark_confirmed_replace [OF ok row open_row])
  have "confirmation_get i (confirmation_replace ?c (working s)) = Some ?c"
    using confirmation_table.get_upd [of ?c "working s" c i] row id by simp
  then show ?thesis using n d
    by (cases "mark_confirmed i ?q (working s)") (simp add: confirm_def Let_def)
qed

lemma confirm_shut:
  assumes ok: "db_integrity (working s)" and row: "confirmation_get i (working s) = Some c"
    and shut: "\<not> confirmable (user, now) c"
  shows "confirm E now i user s =
    (let out = confirm_verdict now user (Some c) in
     if c_user_id c = user \<and> c_status c = conf_status_value CS_PENDING
     then commit_or_rollback E \<lparr>cr_outcome = out, cr_confirmation = Some (settle out c)\<rparr>
            (s\<lparr>working := confirmation_replace (settle out c) (working s)\<rparr>)
     else (Inr \<lparr>cr_outcome = out, cr_confirmation = (if out = CO_NOT_FOUND then None else Some c)\<rparr>, s))"
proof -
  let ?q = "(user, now)"
  have m: "fst (mark_confirmed i ?q (working s)) = 0"
    using mark_confirmed_count [OF ok, of i ?q] row shut by simp
  obtain k where k: "c_status c = conf_status_value k"
    using ok confirmation_table.get_SomeD [OF row] by (auto simp: db_integrity_def)
  have s1: "s\<lparr>working := working s\<rparr> = s" by simp
  have eq: "mark_confirmed i ?q (working s) = (0, working s)"
    using m mark_confirmed_none [OF m] by (metis prod.collapse)
  show ?thesis
  proof (cases "c_user_id c = user")
    case False
    then show ?thesis by (simp add: confirm_def eq row)
  next
    case True
    then show ?thesis using k shut row
      by (cases k) (simp_all add: confirm_def eq settle_def confirmable_def Let_def)
  qed
qed

text \<open>Any attempt: the outcome, the rows, and what a failed commit leaves.\<close>

lemma confirm_spec:
  assumes ok: "db_integrity (working s)"
  shows "confirm E now i user s =
    (let row = confirmation_get i (working s); out = confirm_verdict now user row;
         d' = confirm_rows now i user (working s);
         res = \<lparr>cr_outcome = out, cr_confirmation =
           (if out = CO_NOT_FOUND then None else map_option (settle out) row)\<rparr>
     in if d' = working s then (Inr res, s) else commit_or_rollback E res (s\<lparr>working := d'\<rparr>))"
proof (cases "confirmation_get i (working s)")
  case None
  then show ?thesis using confirm_none [OF ok None] by (simp add: confirm_rows_def)
next
  case (Some c)
  let ?out = "confirm_verdict now user (Some c)"
  have same: "settle ?out c = c \<Longrightarrow> confirm_rows now i user (working s) = working s"
    by (simp add: confirm_rows_def Some confirmation_replace_same [OF ok Some])
  have diff: "settle ?out c \<noteq> c \<Longrightarrow> confirm_rows now i user (working s) \<noteq> working s"
    by (simp add: confirm_rows_def Some settle_changes [OF ok Some])
  have rows: "confirm_rows now i user (working s) = confirmation_replace (settle ?out c) (working s)"
    by (simp add: confirm_rows_def Some)
  show ?thesis
  proof (cases "confirmable (user, now) c")
    case True
    then have v: "?out = CO_CONFIRMED" "settle ?out c = c\<lparr>c_status := conf_status_value CS_CONFIRMED\<rparr>"
      "c_status c = ''PENDING''"
      by (auto simp: confirmable_def settle_def)
    have "c_status (settle ?out c) \<noteq> c_status c" using v by simp
    then have "settle ?out c \<noteq> c" by metis
    with diff rows v show ?thesis
      using confirm_open [OF ok Some True] by (simp add: Some Let_def del: confirm_verdict.simps)
  next
    case False
    show ?thesis
    proof (cases "c_user_id c = user \<and> c_status c = conf_status_value CS_PENDING")
      case True
      then have v: "?out = CO_EXPIRED" using False by (auto simp: confirmable_def)
      have "c_status (settle ?out c) \<noteq> c_status c" using True v by (simp add: settle_def)
      then have "settle ?out c \<noteq> c" by metis
      with diff rows v show ?thesis
        using confirm_shut [OF ok Some False] True by (simp add: Some Let_def del: confirm_verdict.simps)
    next
      case other: False
      have "settle ?out c = c"
        using other by (auto simp: settle_def)
      with same show ?thesis
        using confirm_shut [OF ok Some False, of E] unfolding Let_def if_not_P [OF other]
        by (simp add: Some del: confirm_verdict.simps)
    qed
  qed
qed

text \<open>Every operation of the module follows \<open>conf_next\<close>, row by row, and keeps the rows well formed.\<close>

lemma conf_evolves_commit_or_rollback:
  assumes "clean s" and "conf_evolves (committed s) d"
  shows "conf_evolves (committed s) (committed (snd (commit_or_rollback E x (s\<lparr>working := d\<rparr>))))"
  using assms by (auto simp: commit_or_rollback_cases clean_def rollback_def split: option.splits)

lemma conf_next_settle: "conf_next c (settle out c)"
  by (auto simp: conf_next_def settle_def)

lemma conf_evolves_confirm_rows: "conf_evolves d (confirm_rows now i user d)"
proof (cases "confirmation_get i d")
  case (Some c)
  have "c_id (settle out c) = i" for out
    using confirmation_table.get_SomeD [OF Some] by (simp add: settle_def)
  with Some show ?thesis
    by (auto simp: confirm_rows_def intro!: conf_evolves_replace [of _ _ c] conf_next_settle)
qed (simp add: confirm_rows_def)

lemma integrity_confirm_rows:
  assumes "db_integrity d"
  shows "db_integrity (confirm_rows now i user d)"
proof (cases "confirmation_get i d")
  case (Some c)
  have "c_status c \<in> range conf_status_value"
    using assms confirmation_table.get_SomeD [OF Some] by (auto simp: db_integrity_def)
  then have "c_status (settle out c) \<in> range conf_status_value" for out
    by (auto simp: settle_def simp del: conf_status_value.simps)
  with Some assms show ?thesis by (simp add: confirm_rows_def integrity_confirmation_replace del: confirm_verdict.simps)
qed (simp add: confirm_rows_def assms)

lemma confirm_committed:
  assumes "db_integrity (working s)" and "clean s"
  shows "committed (snd (confirm E now i user s)) \<in> {committed s, confirm_rows now i user (committed s)}
    \<and> clean (snd (confirm E now i user s))"
  using assms confirm_spec [OF assms(1), of E now i user]
  by (auto simp: commit_or_rollback_cases Let_def clean_def rollback_def split: option.splits if_splits)

lemma cleanup_committed:
  assumes "clean s"
  shows "committed (snd (cleanup_expired E now s)) \<in> {committed s, snd (mark_expired now (committed s))}
    \<and> clean (snd (cleanup_expired E now s))"
  using assms mark_expired_none [of now "working s"]
  by (cases "mark_expired now (working s)")
    (auto simp: cleanup_expired_def commit_or_rollback_cases clean_def rollback_def split: option.splits)

lemma create_confirmation_committed:
  assumes "clean s"
  shows "clean (snd (create_confirmation E J i now user command ttl s)) \<and>
    (committed (snd (create_confirmation E J i now user command ttl s)) = committed s \<or>
     (\<exists>expires c. confirmation_repo_create (new_confirmation E J i now user command expires) (committed s)
        = Inr (c, committed (snd (create_confirmation E J i now user command ttl s)))))"
proof (cases "shift (utc now) (ttl * 1000000)")
  case (Inr x)
  let ?f = "confirmation_repo_create (new_confirmation E J i now user command x)"
  show ?thesis
    using assms transact_clean [of E ?f s]
    by (cases rule: transact_cases [of ?f s E])
      (auto simp: create_confirmation_def Inr clean_def rollback_def)
qed (simp add: create_confirmation_def assms)

lemma conf_evolves_create:
  assumes "confirmation_repo_create (new_confirmation E J i now user command x) d = Inr (c, d')"
  shows "conf_evolves d d'"
  using assms by (auto simp: confirmation_repo_create_Inr intro!: conf_evolves_insert)

subsection \<open>Properties\<close>

lemma confirm_commits:
  assumes "db_integrity (working s)" and "\<And>d. commit_exn E d = None" and "clean s"
  shows "confirm E now i user s =
    (let row = confirmation_get i (working s); out = confirm_verdict now user row; d = confirm_rows now i user (working s)
     in (Inr \<lparr>cr_outcome = out, cr_confirmation = (if out = CO_NOT_FOUND then None else map_option (settle out) row)\<rparr>,
         \<lparr>committed = d, working = d\<rparr>))"
proof -
  have "s = \<lparr>committed = working s, working = working s\<rparr>" using assms(3) by (cases s) (simp add: clean_def)
  then show ?thesis
    using confirm_spec [OF assms(1), of E now i user] assms(2) by (auto simp: Let_def commit_or_rollback_cases)
qed

lemma mark_expired_frame [simp]: "tasks (snd (mark_expired now d)) = tasks d" "reminders (snd (mark_expired now d)) = reminders d"
  by (simp_all add: mark_expired_def)

lemma confirm_rows_frame [simp]: "tasks (confirm_rows now i user d) = tasks d" "reminders (confirm_rows now i user d) = reminders d"
  by (simp_all add: confirm_rows_def confirmation_replace_def split: option.splits)

lemma confirm_rows_get:
  "confirmation_get j (confirm_rows now i user d) =
     (if j = i then map_option (\<lambda>c. settle (confirm_verdict now user (Some c)) c) (confirmation_get i d) else confirmation_get j d)"
proof (cases "confirmation_get i d")
  case (Some c)
  have "c_id (settle out c) = i" for out using confirmation_table.get_SomeD [OF Some] by (simp add: settle_def)
  then show ?thesis using Some by (simp add: confirm_rows_def confirmation_table.get_upd [of _ d c] del: confirm_verdict.simps)
qed (simp add: confirm_rows_def)

text \<open>C21: What a confirmation attempt does, on every branch: a row that is absent or of another user is NOT_FOUND
  and untouched; the user's own row is confirmed exactly when it is PENDING and not yet expired, becomes
  EXPIRED exactly when it is PENDING and too late, and a settled one answers its state; no other row, task
  or reminder changes.\<close>

theorem confirm_outcomes:
  assumes "db_integrity (working s)" and "clean s" and "\<And>d. commit_exn E d = None"
  shows "\<exists>res s'. confirm E now i user s = (Inr res, s') \<and>
    cr_outcome res = (case confirmation_get i (working s) of None \<Rightarrow> CO_NOT_FOUND
      | Some c \<Rightarrow> if c_user_id c \<noteq> user then CO_NOT_FOUND
          else if c_status c = ''CONFIRMED'' then CO_ALREADY_CONFIRMED else if c_status c = ''CANCELLED'' then CO_CANCELLED
          else if c_status c = ''EXPIRED'' \<or> instant (c_expires_at c) \<le> now then CO_EXPIRED else CO_CONFIRMED) \<and>
    (\<forall>j. confirmation_get j (committed s') = (if j = i then map_option (\<lambda>c.
        if c_user_id c = user \<and> c_status c = ''PENDING''
        then c\<lparr>c_status := if now < instant (c_expires_at c) then ''CONFIRMED'' else ''EXPIRED''\<rparr> else c) (confirmation_get i (working s))
      else confirmation_get j (working s))) \<and>
    tasks (committed s') = tasks (working s) \<and> reminders (committed s') = reminders (working s)"
proof -
  have v: "confirm_verdict now user (confirmation_get i (working s)) =
      (case confirmation_get i (working s) of None \<Rightarrow> CO_NOT_FOUND
      | Some c \<Rightarrow> if c_user_id c \<noteq> user then CO_NOT_FOUND
          else if c_status c = ''CONFIRMED'' then CO_ALREADY_CONFIRMED else if c_status c = ''CANCELLED'' then CO_CANCELLED
          else if c_status c = ''EXPIRED'' \<or> instant (c_expires_at c) \<le> now then CO_EXPIRED else CO_CONFIRMED)"
    by (cases "confirmation_get i (working s)") auto
  have st: "settle (confirm_verdict now user (Some c)) c =
      (if c_user_id c = user \<and> c_status c = ''PENDING''
       then c\<lparr>c_status := if now < instant (c_expires_at c) then ''CONFIRMED'' else ''EXPIRED''\<rparr> else c)" for c
    by (auto simp: settle_def)
  have fr: "tasks (confirm_rows now i user d) = tasks d" "reminders (confirm_rows now i user d) = reminders d" for d
    by (simp_all add: confirm_rows_def confirmation_replace_def split: option.splits)
  show ?thesis
    unfolding confirm_commits [OF assms(1,3,2)] Let_def by (simp add: v st fr confirm_rows_get del: confirm_verdict.simps)
qed

fun run_confirms :: "db_env \<Rightarrow> uuid \<Rightarrow> (uuid option \<times> int) list \<Rightarrow> session \<Rightarrow> (exn + confirm_result) list \<times> session" where
  \<comment> \<open>attempts one after the other, by anybody, at any time\<close>
  "run_confirms E i [] s = ([], s)"
| "run_confirms E i ((user, now) # qs) s =
     (case confirm E now i user s of (r, s') \<Rightarrow> case run_confirms E i qs s' of (rs, s'') \<Rightarrow> (r # rs, s''))"

definition confirmed_result :: "exn + confirm_result \<Rightarrow> bool" where
  "confirmed_result r = (case r of Inl e \<Rightarrow> False | Inr x \<Rightarrow> cr_outcome x = CO_CONFIRMED)"

lemma confirm_confirmed:
  assumes "db_integrity (working s)" and "clean s"
  shows "clean (snd (confirm E now i user s)) \<and> db_integrity (working (snd (confirm E now i user s))) \<and>
    (confirmed_result (fst (confirm E now i user s)) \<longrightarrow>
      map_option c_status (confirmation_get i (working s)) = Some ''PENDING'' \<and>
      map_option c_status (confirmation_get i (working (snd (confirm E now i user s)))) = Some ''CONFIRMED'') \<and>
    (map_option c_status (confirmation_get i (working s)) = Some ''CONFIRMED'' \<longrightarrow>
      map_option c_status (confirmation_get i (working (snd (confirm E now i user s)))) = Some ''CONFIRMED'')"
proof -
  let ?d = "confirm_rows now i user (working s)"
  have ok: "db_integrity ?d" by (rule integrity_confirm_rows [OF assms(1)])
  have c: "committed s = working s" using assms(2) by (simp add: clean_def)
  have row: "map_option c_status (confirmation_get i (working s)) = Some ''PENDING''"
    if v: "confirm_verdict now user (confirmation_get i (working s)) = CO_CONFIRMED"
  proof -
    obtain x where x: "confirmation_get i (working s) = Some x" using v by (cases "confirmation_get i (working s)") auto
    then have "c_status x \<in> range conf_status_value"
      using assms(1) confirmation_table.get_SomeD [OF x] by (auto simp: db_integrity_def)
    then obtain k where "c_status x = conf_status_value k" by blast
    with v x show ?thesis by (cases k) (auto split: if_splits)
  qed
  have out: "map_option c_status (confirmation_get i ?d) = Some ''CONFIRMED''"
    if v: "confirm_verdict now user (confirmation_get i (working s)) = CO_CONFIRMED"
  proof -
    obtain x where "confirmation_get i (working s) = Some x" "c_status x = ''PENDING''" using row [OF v] by auto
    with v show ?thesis by (simp add: confirm_rows_get settle_def del: confirm_verdict.simps)
  qed
  have keep: "map_option c_status (confirmation_get i ?d) = Some ''CONFIRMED''"
    if "map_option c_status (confirmation_get i (working s)) = Some ''CONFIRMED''"
    using that by (auto simp: confirm_rows_get settle_def)
  show ?thesis
    using confirm_spec [OF assms(1), of E now i user] assms row out keep ok c
    by (auto simp: Let_def confirmed_result_def commit_or_rollback_cases rollback_def clean_def split: option.splits if_splits)
qed

lemma run_confirms_count:
  assumes "db_integrity (working s)" and "clean s"
  shows "length (filter confirmed_result (fst (run_confirms E i qs s))) \<le> 1 \<and>
    (map_option c_status (confirmation_get i (working s)) = Some ''CONFIRMED'' \<longrightarrow>
      filter confirmed_result (fst (run_confirms E i qs s)) = [])"
  using assms
proof (induction qs arbitrary: s)
  case (Cons q qs)
  obtain user now where q: "q = (user, now)" by (cases q)
  obtain r s' where c: "confirm E now i user s = (r, s')" by fastforce
  obtain rs s'' where rc: "run_confirms E i qs s' = (rs, s'')" by fastforce
  note f = confirm_confirmed [OF Cons.prems, of E now i user, unfolded c fst_conv snd_conv]
  have "length (filter confirmed_result rs) \<le> 1 \<and>
      (map_option c_status (confirmation_get i (working s')) = Some ''CONFIRMED'' \<longrightarrow> filter confirmed_result rs = [])"
    using Cons.IH [of s'] f rc by simp
  with f show ?case by (auto simp: q c rc)
qed simp

text \<open>C15: A confirmation is confirmed at most once: of any sequence of attempts on one identifier, by any users
  at any times and with commits that may fail, at most one is told CONFIRMED, so a stored command runs at
  most once.\<close>

theorem confirmed_at_most_once:
  assumes "db_integrity (working s)" and "clean s"
  shows "length (filter confirmed_result (fst (run_confirms E i qs s))) \<le> 1"
  using run_confirms_count [OF assms] by blast

lemma confirmed_at_most_once_witness:
  "length (filter confirmed_result (fst (run_confirms pg_env 3 [(None, 50), (Some 1, 60), (Some 1, 70), (Some 1, 2000)]
     \<lparr>committed = sample_db\<lparr>confirmations := [sample_confirmation 3 (Some 1) ''{}'' 1000]\<rparr>,
      working = sample_db\<lparr>confirmations := [sample_confirmation 3 (Some 1) ''{}'' 1000]\<rparr>\<rparr>))) \<le> 1"
proof (rule confirmed_at_most_once)
  show "db_integrity (working \<lparr>committed = sample_db\<lparr>confirmations := [sample_confirmation 3 (Some 1) ''{}'' 1000]\<rparr>,
      working = sample_db\<lparr>confirmations := [sample_confirmation 3 (Some 1) ''{}'' 1000]\<rparr>\<rparr>)"
    using rangeI [of conf_status_value CS_PENDING] by (simp add: db_integrity_def sample_simps)
qed (simp add: clean_def)

lemma confirm_outcomes_witness:
  "\<exists>res s'. confirm pg_env 50 3 (Some 1)
     \<lparr>committed = sample_db\<lparr>confirmations := [sample_confirmation 3 (Some 1) ''{}'' 1000]\<rparr>,
      working = sample_db\<lparr>confirmations := [sample_confirmation 3 (Some 1) ''{}'' 1000]\<rparr>\<rparr> = (Inr res, s') \<and>
     cr_outcome res = CO_CONFIRMED \<and> map_option c_status (confirmation_get 3 (committed s')) = Some ''CONFIRMED''"
proof -
  let ?d = "sample_db\<lparr>confirmations := [sample_confirmation 3 (Some 1) ''{}'' 1000]\<rparr>"
  let ?s = "\<lparr>committed = ?d, working = ?d\<rparr>"
  have ok: "db_integrity (working ?s)"
    using rangeI [of conf_status_value CS_PENDING] by (simp add: db_integrity_def sample_simps)
  have g: "confirmation_get 3 (working ?s) = Some (sample_confirmation 3 (Some 1) ''{}'' 1000)"
    by (simp add: confirmation_get_def sample_simps)
  have "clean ?s" by (simp add: clean_def)
  from confirm_outcomes [OF ok this, of pg_env 50 3 "Some 1"] show ?thesis unfolding g by (auto simp: sample_confirmation_def)
qed

text \<open>Housekeeping expires exactly the pending confirmations whose time is past, whoever owns them, reports
  how many they are, and changes nothing else.\<close>

lemma cleanup_expires_overdue:
  assumes "\<And>d. commit_exn E d = None" and "clean s"
  shows "\<exists>s'. cleanup_expired E now s = (Inr (length (filter (\<lambda>c. c_status c = ''PENDING'' \<and> instant (c_expires_at c) < now)
      (confirmations (working s)))), s') \<and>
    committed s' = (working s)\<lparr>confirmations := map (\<lambda>c. if c_status c = ''PENDING'' \<and> instant (c_expires_at c) < now
      then c\<lparr>c_status := ''EXPIRED''\<rparr> else c) (confirmations (working s))\<rparr>"
proof -
  have n: "fst (mark_expired now d) = length (filter (\<lambda>c. c_status c = ''PENDING'' \<and> instant (c_expires_at c) < now) (confirmations d))"
    "snd (mark_expired now d) = d\<lparr>confirmations := map (\<lambda>c. if c_status c = ''PENDING'' \<and> instant (c_expires_at c) < now
      then c\<lparr>c_status := ''EXPIRED''\<rparr> else c) (confirmations d)\<rparr>" for d
    by (simp_all add: mark_expired_def confirmation_overdue_def [abs_def])
  show ?thesis
    using assms mark_expired_none [of now "working s"] n [of "working s"]
    by (cases "mark_expired now (working s)") (auto simp: cleanup_expired_def commit_or_rollback_cases clean_def)
qed

lemma cleanup_expires_overdue_witness:
  "fst (cleanup_expired pg_env 2000
     \<lparr>committed = sample_db\<lparr>confirmations := [sample_confirmation 3 (Some 1) ''{}'' 1000]\<rparr>,
      working = sample_db\<lparr>confirmations := [sample_confirmation 3 (Some 1) ''{}'' 1000]\<rparr>\<rparr>) = Inr 1"
  using cleanup_expires_overdue [of pg_env "\<lparr>committed = sample_db\<lparr>confirmations := [sample_confirmation 3 (Some 1) ''{}'' 1000]\<rparr>,
      working = sample_db\<lparr>confirmations := [sample_confirmation 3 (Some 1) ''{}'' 1000]\<rparr>\<rparr>" 2000]
  by (auto simp: clean_def sample_confirmation_def)

text \<open>Without a reference, a confirmation means the newest: what is offered is a pending confirmation of the
  same user, none of the user's pending ones is younger, and there is one whenever the user has any.\<close>

lemma latest_pending_is_newest:
  "(case get_latest_pending user s of
      None \<Rightarrow> filter (\<lambda>c. c_user_id c = user \<and> c_status c = ''PENDING'') (confirmations (working s)) = []
    | Some c \<Rightarrow> c \<in> set (confirmations (working s)) \<and> c_user_id c = user \<and> c_status c = ''PENDING'' \<and>
        list_all (\<lambda>c'. (instant (c_created_at c'), c_id c') \<le> (instant (c_created_at c), c_id c))
          (filter (\<lambda>c'. c_user_id c' = user \<and> c_status c' = ''PENDING'') (confirmations (working s))))"
proof -
  let ?key = "\<lambda>c. (instant (c_created_at c), c_id c)"
  let ?P = "\<lambda>c. c_user_id c = user \<and> c_status c = ''PENDING''"
  define cs where "cs = sort_key ?key (filter ?P (confirmations (working s)))"
  have set_cs: "set cs = {c \<in> set (confirmations (working s)). ?P c}" and sorted_cs: "sorted (map ?key cs)"
    by (simp_all add: cs_def)
  have eq: "get_latest_pending user s = (if cs = [] then None else Some (last cs))"
    by (simp add: get_latest_pending_def find_latest_pending_by_user_def Let_def cs_def)
  show ?thesis
  proof (cases "cs = []")
    case True
    then have "\<not> ?P c" if "c \<in> set (confirmations (working s))" for c using set_cs that by auto
    then show ?thesis using True eq by (auto simp: filter_empty_conv)
  next
    case False
    then have "last cs \<in> set cs" by simp
    moreover have "?key c \<le> ?key (last cs)" if "c \<in> set cs" for c
    proof -
      have split: "cs = butlast cs @ [last cs]" using False by simp
      have "sorted (map ?key (butlast cs @ [last cs]))" using sorted_cs split by metis
      moreover have "c \<in> set (butlast cs @ [last cs])" using that split by metis
      ultimately show ?thesis by (auto simp: sorted_append)
    qed
    ultimately show ?thesis using False eq set_cs by (auto simp: list_all_iff)
  qed
qed

end
