(* ===== verification/Guardrails.thy ===== *)
theory Guardrails
  imports AgentSchemas Samples
begin

text \<open>
  What stands between an untrusted proposal and its execution: \<^verbatim>\<open>services/action_validator.py\<close>
  (structure), \<^verbatim>\<open>services/resource_resolver.py\<close> (names to identifiers),
  \<^verbatim>\<open>services/authorization_service.py\<close>, \<^verbatim>\<open>guardrails/safety_policy.py\<close> and
  \<^verbatim>\<open>guardrails/decision_service.py\<close>. How Python writes a value (\<^verbatim>\<open>repr\<close>) or an exception
  (\<^verbatim>\<open>str\<close>) inside a message is the argument \<open>T\<close>; no decision depends on it.
\<close>

record texts =
  repr_of :: "pyval \<Rightarrow> string"
  str_exn :: "exn \<Rightarrow> string"

subsection \<open>services/action_validator.py\<close>

datatype validation_status = VS_VALID | VS_CLARIFICATION_REQUIRED | VS_REJECTED

record validation_result =
  vr_status :: validation_status
  vr_message :: string

definition clarification :: "string \<Rightarrow> validation_result" where
  "clarification msg = \<lparr>vr_status = VS_CLARIFICATION_REQUIRED, vr_message = msg\<rparr>"

definition valid_result :: validation_result where
  "valid_result = \<lparr>vr_status = VS_VALID, vr_message = []\<rparr>"

definition no_resource_actions :: "action_type set" where
  "no_resource_actions = {CREATE_TASK, ANALYZE_WORKLOAD, SUGGEST_RESCHEDULING}"

fun required_parameters :: "action_type \<Rightarrow> string list" where
  \<comment> \<open>in alphabetical order, as the message lists them\<close>
  "required_parameters CREATE_TASK = [''deadline'', ''taskName'']"
| "required_parameters CREATE_REMINDER = [''remindAt'']"
| "required_parameters ANALYZE_WORKLOAD = [''date_range_expression'']"
| "required_parameters SUGGEST_RESCHEDULING = [''date_range_expression'']"
| "required_parameters _ = []"

definition update_actions :: "action_type set" where
  "update_actions = {UPDATE_TASK, UPDATE_REMINDER}"

definition has_usable_reference :: "resource_reference \<Rightarrow> bool" where
  "has_usable_reference ref \<longleftrightarrow>
     ref_id ref \<noteq> None \<or> (ref_natural_language ref \<noteq> None \<and> ref_natural_language ref \<noteq> Some [])"

definition parse_iso_value :: "pyval \<Rightarrow> exn + datetime" where
  \<comment> \<open>parse_iso_datetime on a value that need not be text\<close>
  "parse_iso_value v = (case v of PStr s \<Rightarrow> parse_iso_datetime s
     | _ \<Rightarrow> Inl (AttributeError ''object has no attribute 'endswith' ''))"

definition validate_explicit_range :: "texts \<Rightarrow> params \<Rightarrow> exn + validation_result" where
  "validate_explicit_range T ps =
     (let explicit_start = dict_get ps ''explicit_start''; explicit_end = dict_get ps ''explicit_end'' in
      if explicit_start = PNone \<or> explicit_end = PNone
      then Inr (clarification ''EXPLICIT_RANGE requires both explicit_start and explicit_end.'')
      else (case then_do (parse_iso_value explicit_start) (\<lambda>a.
                 then_do (parse_iso_value explicit_end) (\<lambda>b. Inr (a, b))) of
              Inl e \<Rightarrow> if is_value_error e \<or> is_type_error e
                      then Inr (clarification (''Invalid explicit date: '' @ str_exn T e)) else Inl e
            | Inr (a, b) \<Rightarrow>
                if instant a > instant b
                then Inr (clarification ''explicit_start must be <= explicit_end.'')
                else Inr valid_result))"

definition validate_analyze_workload :: "texts \<Rightarrow> params \<Rightarrow> exn + validation_result" where
  "validate_analyze_workload T ps =
     (let expression = dict_get ps ''date_range_expression'' in
      case expression_of_value expression of
        Inl _ \<Rightarrow> Inr (clarification (''A valid date range is required for workload analysis (got ''
                   @ repr_of T expression @ '').''))
      | Inr x \<Rightarrow> if x = EXPLICIT_RANGE then validate_explicit_range T ps else Inr valid_result)"

definition validate_proposal :: "texts \<Rightarrow> action_proposal \<Rightarrow> exn + validation_result" where
  "validate_proposal T proposal =
     (let act = ap_action_type proposal; ps = ap_parameters proposal;
          missing = filter (\<lambda>k. k \<notin> fst ` set ps) (required_parameters act) in
      if act \<in> no_resource_actions \<and> ap_resource proposal \<noteq> None
      then Inr (clarification (action_value act @ '' does not target an existing resource.''))
      else if act \<notin> no_resource_actions \<and> ap_resource proposal = None
      then Inr (clarification ''A target resource is required for this action.'')
      else if (case ap_resource proposal of None \<Rightarrow> False | Some ref \<Rightarrow> \<not> has_usable_reference ref)
      then Inr (clarification ''The resource reference is missing.'')
      else if missing \<noteq> []
      then Inr (clarification (''Missing required parameter(s): '' @ join '', '' missing @ ''.''))
      else if act \<in> update_actions \<and> ps = []
      then Inr (clarification ''An update action must change at least one field.'')
      else if act \<in> {ANALYZE_WORKLOAD, SUGGEST_RESCHEDULING}
      then validate_analyze_workload T ps
      else Inr valid_result)"

subsection \<open>services/resource_resolver.py\<close>

record resolution_result =
  rr_status :: validation_status
  rr_action :: "validated_action option"
  rr_message :: string

definition unresolved :: "string \<Rightarrow> resolution_result" where
  "unresolved msg = \<lparr>rr_status = VS_CLARIFICATION_REQUIRED, rr_action = None, rr_message = msg\<rparr>"

definition resolved :: "action_proposal \<Rightarrow> uuid option \<Rightarrow> resolution_result" where
  "resolved proposal i = \<lparr>rr_status = VS_VALID,
     rr_action = Some \<lparr>va_action_type = ap_action_type proposal, va_resource_id = i,
                       va_parameters = ap_parameters proposal\<rparr>,
     rr_message = []\<rparr>"

definition task_resolved_actions :: "action_type set" where
  "task_resolved_actions = {UPDATE_TASK, DELETE_TASK, CREATE_REMINDER}"

definition reminder_resolved_actions :: "action_type set" where
  "reminder_resolved_actions = {UPDATE_REMINDER, DELETE_REMINDER}"

definition resolve_natural_language ::
  "db_env \<Rightarrow> action_proposal \<Rightarrow> string \<Rightarrow> db \<Rightarrow> resolution_result" where
  "resolve_natural_language E proposal phrase d =
     (let act = ap_action_type proposal in
      if act \<notin> task_resolved_actions \<union> reminder_resolved_actions
      then unresolved ''This action has no resolvable resource reference.''
      else (let matches = (if act \<in> task_resolved_actions then map t_id (find_by_name E phrase d)
                           else map r_id (find_by_task_name E phrase d)) in
            if length matches = 0 then unresolved ''No resource matches that reference.''
            else if length matches > 1 then unresolved ''That reference matches more than one resource.''
            else resolved proposal (Some (hd matches))))"

definition phrase_of :: "resource_reference \<Rightarrow> string" where
  \<comment> \<open>the phrase in an f-string: \<^verbatim>\<open>f"%{phrase}%"\<close>\<close>
  "phrase_of ref = (case ref_natural_language ref of None \<Rightarrow> ''None'' | Some phrase \<Rightarrow> phrase)"

definition resolve_proposal :: "db_env \<Rightarrow> action_proposal \<Rightarrow> db \<Rightarrow> resolution_result" where
  "resolve_proposal E proposal d =
     (if ap_action_type proposal = CREATE_TASK then
        (if ap_resource proposal \<noteq> None
         then unresolved ''CREATE_TASK does not target an existing resource.'' else resolved proposal None)
      else if ap_action_type proposal = ANALYZE_WORKLOAD then
        (if ap_resource proposal \<noteq> None
         then unresolved ''ANALYZE_WORKLOAD does not target an existing resource.'' else resolved proposal None)
      else (case ap_resource proposal of
              None \<Rightarrow> unresolved ''A target resource is required for this action.''
            | Some ref \<Rightarrow> (case ref_id ref of
                  Some i \<Rightarrow> resolved proposal (Some i)
                | None \<Rightarrow> resolve_natural_language E proposal (phrase_of ref) d)))"

subsection \<open>services/authorization_service.py\<close>

datatype authorization_status = AS_AUTHORIZED | AS_DENIED | AS_NOT_CONFIGURED

record authorization_result =
  az_status :: authorization_status
  az_reason :: string

record auth_settings =
  \<comment> \<open>\<^verbatim>\<open>settings.default_user_id\<close>, \<^verbatim>\<open>settings.single_user_mode\<close>\<close>
  default_user_id :: string
  single_user_mode :: bool

definition authorize :: "auth_settings \<Rightarrow> uuid option \<Rightarrow> authorization_result" where
  "authorize cfg actor =
     (if single_user_mode cfg
      then \<lparr>az_status = AS_AUTHORIZED, az_reason = ''Single-user mode is enabled; all requests are authorized.''\<rparr>
      else if default_user_id cfg \<noteq> [] \<and> (case actor of None \<Rightarrow> False | Some u \<Rightarrow> uuid_str u = default_user_id cfg)
      then \<lparr>az_status = AS_AUTHORIZED, az_reason = ''Actor matches the configured default user.''\<rparr>
      else \<lparr>az_status = AS_NOT_CONFIGURED, az_reason = ''Authorization is not configured: the MVP has no user/account model, task ownership model, reminder ownership model, or authentication system, so resource ownership cannot be verified.''\<rparr>)"

subsection \<open>guardrails/safety_policy.py, guardrails/decision_service.py\<close>

definition supported_actions :: "action_type set" where
  "supported_actions = {CREATE_TASK, UPDATE_TASK, DELETE_TASK, CREATE_REMINDER, UPDATE_REMINDER,
     DELETE_REMINDER, ANALYZE_WORKLOAD, SUGGEST_RESCHEDULING}"

definition destructive_actions :: "action_type set" where
  "destructive_actions = {DELETE_TASK, DELETE_REMINDER}"

definition evaluate_safety :: "validated_action \<Rightarrow> decision_result" where
  "evaluate_safety act =
     (if va_action_type act \<notin> supported_actions
      then \<lparr>dr_status = DS_DENIED, dr_reason = ''Action type is not supported by the safety policy.'', dr_action = act\<rparr>
      else if va_action_type act \<in> destructive_actions
      then \<lparr>dr_status = DS_CONFIRMATION_REQUIRED,
            dr_reason = ''Destructive action requires confirmation before execution.'', dr_action = act\<rparr>
      else \<lparr>dr_status = DS_AUTHORIZED, dr_reason = ''Action is permitted by the safety policy.'', dr_action = act\<rparr>)"

definition decide :: "auth_settings \<Rightarrow> validated_action \<Rightarrow> uuid option \<Rightarrow> decision_result" where
  "decide cfg act actor =
     (let authorization = authorize cfg actor in
      if az_status authorization = AS_NOT_CONFIGURED
      then \<lparr>dr_status = DS_NOT_CONFIGURED, dr_reason = az_reason authorization, dr_action = act\<rparr>
      else if az_status authorization = AS_DENIED
      then \<lparr>dr_status = DS_DENIED, dr_reason = az_reason authorization, dr_action = act\<rparr>
      else evaluate_safety act)"

subsection \<open>What a proposal that passes looks like\<close>

lemma clarification_not_valid [simp]: "vr_status (clarification m) \<noteq> VS_VALID" "vr_status (clarification m) \<noteq> VS_REJECTED"
  "vr_status valid_result = VS_VALID"
  by (simp_all add: clarification_def valid_result_def)

lemma unresolved_not_valid [simp]: "rr_status (unresolved m) = VS_CLARIFICATION_REQUIRED"
  "rr_status (resolved p i) = VS_VALID" "rr_action (unresolved m) = None"
  by (simp_all add: unresolved_def resolved_def)

lemma supported_actions_UNIV: "supported_actions = UNIV"
proof -
  have "a \<in> supported_actions" for a by (cases a) (simp_all add: supported_actions_def)
  then show ?thesis by blast
qed

lemma authorize_authorized:
  "az_status (authorize cfg actor) = AS_AUTHORIZED \<longleftrightarrow>
     single_user_mode cfg \<or> (default_user_id cfg \<noteq> [] \<and> (\<exists>u. actor = Some u \<and> uuid_str u = default_user_id cfg))"
  by (auto simp: authorize_def split: option.splits)

lemma authorize_never_denied: "az_status (authorize cfg actor) \<noteq> AS_DENIED"
  by (auto simp: authorize_def)

lemma decide_status:
  "dr_status (decide cfg act actor) =
     (if az_status (authorize cfg actor) \<noteq> AS_AUTHORIZED then DS_NOT_CONFIGURED
      else if va_action_type act \<in> destructive_actions then DS_CONFIRMATION_REQUIRED else DS_AUTHORIZED)"
  "dr_action (decide cfg act actor) = act"
  using authorize_never_denied [of cfg actor]
  by (cases "az_status (authorize cfg actor)";
      auto simp: decide_def evaluate_safety_def supported_actions_UNIV Let_def)+

lemma validate_proposal_validD:
  assumes "validate_proposal T p = Inr v" and "vr_status v = VS_VALID"
  shows "ap_resource p = None \<longleftrightarrow> ap_action_type p \<in> no_resource_actions"
    and "\<And>ref. ap_resource p = Some ref \<Longrightarrow> has_usable_reference ref"
    and "\<And>k. k \<in> set (required_parameters (ap_action_type p)) \<Longrightarrow> k \<in> fst ` set (ap_parameters p)"
    and "ap_action_type p \<in> {ANALYZE_WORKLOAD, SUGGEST_RESCHEDULING} \<Longrightarrow>
           validate_analyze_workload T (ap_parameters p) = Inr v"
    and "ap_action_type p \<in> update_actions \<Longrightarrow> ap_parameters p \<noteq> []"
  using assms
  by (auto simp: validate_proposal_def Let_def filter_empty_conv split: if_splits option.splits)

lemma resolved_iff:
  "rr_status (resolve_proposal E p d) = VS_VALID \<longleftrightarrow> rr_action (resolve_proposal E p d) \<noteq> None"
  by (auto simp: resolve_proposal_def resolve_natural_language_def Let_def unresolved_def resolved_def
      split: if_splits option.splits)

lemma resolved_action:
  assumes "rr_action (resolve_proposal E p d) = Some act"
  shows "va_action_type act = ap_action_type p \<and> va_parameters act = ap_parameters p"
  using assms
  by (auto simp: resolve_proposal_def resolve_natural_language_def Let_def unresolved_def resolved_def
      split: if_splits option.splits)

subsection \<open>Properties\<close>

definition sample_texts :: texts where
  "sample_texts = \<lparr>repr_of = (\<lambda>_. ''value''), str_exn = (\<lambda>_. ''error'')\<rparr>"

definition sample_proposal :: "action_type \<Rightarrow> resource_reference option \<Rightarrow> params \<Rightarrow> action_proposal" where
  "sample_proposal act ref ps = \<lparr>ap_action_type = act, ap_resource = ref, ap_parameters = ps, ap_status = PS_PROPOSED\<rparr>"

text \<open>The decision is this table: an actor who is not authorized (single-user mode off, and not the
  configured default user) is told NOT_CONFIGURED whatever the action; an authorized one must confirm the
  two deletions and may do everything else at once. DENIED never comes out.\<close>

lemma decision_table:
  "dr_status (decide cfg act actor) =
     (if single_user_mode cfg \<or> (default_user_id cfg \<noteq> [] \<and> map_option uuid_str actor = Some (default_user_id cfg))
      then (if va_action_type act \<in> {DELETE_TASK, DELETE_REMINDER} then DS_CONFIRMATION_REQUIRED else DS_AUTHORIZED)
      else DS_NOT_CONFIGURED) \<and> dr_action (decide cfg act actor) = act"
proof -
  have "az_status (authorize cfg actor) = AS_AUTHORIZED \<longleftrightarrow>
      single_user_mode cfg \<or> (default_user_id cfg \<noteq> [] \<and> map_option uuid_str actor = Some (default_user_id cfg))"
    unfolding authorize_authorized by (cases actor) auto
  then show ?thesis unfolding decide_status by (simp add: destructive_actions_def)
qed

text \<open>What the validator accepts among the actions on tasks and reminders: exactly the proposals that have a
  target if and only if the action is not a creation of a task, whose target carries an identifier or a
  phrase that is not empty, which bring the required parameters, and which change something if they are
  an update. It never raises on them.\<close>

lemma validator_accepts_exactly:
  assumes "ap_action_type p \<notin> {ANALYZE_WORKLOAD, SUGGEST_RESCHEDULING}"
  shows "\<exists>v. validate_proposal T p = Inr v \<and> (vr_status v = VS_VALID \<longleftrightarrow>
    (ap_resource p = None \<longleftrightarrow> ap_action_type p = CREATE_TASK) \<and>
    (case ap_resource p of None \<Rightarrow> True
     | Some ref \<Rightarrow> ref_id ref \<noteq> None \<or> ref_natural_language ref \<notin> {None, Some []}) \<and>
    (ap_action_type p = CREATE_TASK \<longrightarrow> {''taskName'', ''deadline''} \<subseteq> fst ` set (ap_parameters p)) \<and>
    (ap_action_type p = CREATE_REMINDER \<longrightarrow> ''remindAt'' \<in> fst ` set (ap_parameters p)) \<and>
    (ap_action_type p \<in> {UPDATE_TASK, UPDATE_REMINDER} \<longrightarrow> ap_parameters p \<noteq> []))"
proof (cases "ap_resource p")
  case None
  with assms show ?thesis
    by (cases "ap_action_type p") (auto simp: validate_proposal_def no_resource_actions_def update_actions_def Let_def)
next
  case (Some ref)
  with assms show ?thesis
    by (cases "ap_action_type p")
      (auto simp: validate_proposal_def no_resource_actions_def update_actions_def Let_def has_usable_reference_def)
qed

lemma validator_accepts_exactly_witness:
  "\<exists>v. validate_proposal sample_texts
     (sample_proposal DELETE_TASK (Some \<lparr>ref_id = Some 1, ref_natural_language = None\<rparr>) []) = Inr v \<and> vr_status v = VS_VALID"
  using validator_accepts_exactly [of "sample_proposal DELETE_TASK (Some \<lparr>ref_id = Some 1, ref_natural_language = None\<rparr>) []" sample_texts]
  by (auto simp: sample_proposal_def)

text \<open>C26: A phrase resolves only when it is unambiguous: without an identifier, an action on a task is resolved
  to task \<open>i\<close> exactly when one stored task has a name that matches the phrase and it is \<open>i\<close>, and an
  action on a reminder exactly when one stored reminder belongs to a task with such a name.\<close>

theorem phrase_resolves_uniquely:
  assumes "ap_resource p = Some \<lparr>ref_id = None, ref_natural_language = Some phrase\<rparr>"
    and "ap_action_type p \<in> {UPDATE_TASK, DELETE_TASK, CREATE_REMINDER, UPDATE_REMINDER, DELETE_REMINDER}"
  shows "map_option va_resource_id (rr_action (resolve_proposal E p d)) = Some (Some i) \<longleftrightarrow>
    (if ap_action_type p \<in> {UPDATE_TASK, DELETE_TASK, CREATE_REMINDER}
     then map t_id (filter (\<lambda>t. ilike E (''%'' @ phrase @ ''%'') (t_name t)) (tasks d)) = [i]
     else map r_id (filter (\<lambda>r. \<exists>t. task_get (r_task_id r) d = Some t \<and> ilike E (''%'' @ phrase @ ''%'') (t_name t))
       (reminders d)) = [i])"
proof -
  have one: "map_option va_resource_id (rr_action (if length ys = 0 then unresolved m else if length ys > 1 then unresolved m'
      else resolved p (Some (hd ys)))) = Some (Some i) \<longleftrightarrow> ys = [i]" for ys m m'
    by (cases ys; cases "tl ys") (auto simp: unresolved_def resolved_def)
  have single: "map f (sort_key g xs) = [i] \<longleftrightarrow> map f xs = [i]" for f :: "'x \<Rightarrow> uuid" and g :: "'x \<Rightarrow> 'k::linorder" and xs
    by (cases xs; cases "tl xs") (auto simp: length_0_conv [symmetric] simp del: length_0_conv dest: arg_cong [of _ _ length])
  have filt: "(\<lambda>r. case task_get (r_task_id r) d of None \<Rightarrow> False | Some t \<Rightarrow> ilike E (''%'' @ phrase @ ''%'') (t_name t)) =
    (\<lambda>r. \<exists>t. task_get (r_task_id r) d = Some t \<and> ilike E (''%'' @ phrase @ ''%'') (t_name t))"
    by (auto simp: fun_eq_iff split: option.splits)
  have nl: "resolve_proposal E p d = resolve_natural_language E p phrase d"
    using assms by (auto simp: resolve_proposal_def phrase_of_def)
  show ?thesis
  proof (cases "ap_action_type p \<in> {UPDATE_TASK, DELETE_TASK, CREATE_REMINDER}")
    case True
    then have t: "ap_action_type p \<in> task_resolved_actions" by (simp add: task_resolved_actions_def)
    have "resolve_natural_language E p phrase d = (let ys = map t_id (find_by_name E phrase d) in
        if length ys = 0 then unresolved ''No resource matches that reference.''
        else if length ys > 1 then unresolved ''That reference matches more than one resource.''
        else resolved p (Some (hd ys)))"
      using t by (simp add: resolve_natural_language_def Let_def)
    then show ?thesis unfolding nl Let_def by (simp only: one find_by_name_def single True if_True)
  next
    case False
    then have t: "ap_action_type p \<notin> task_resolved_actions" "ap_action_type p \<in> reminder_resolved_actions"
      using assms(2) by (auto simp: task_resolved_actions_def reminder_resolved_actions_def)
    have "resolve_natural_language E p phrase d = (let ys = map r_id (find_by_task_name E phrase d) in
        if length ys = 0 then unresolved ''No resource matches that reference.''
        else if length ys > 1 then unresolved ''That reference matches more than one resource.''
        else resolved p (Some (hd ys)))"
      using t by (simp add: resolve_natural_language_def Let_def)
    then show ?thesis unfolding nl Let_def by (simp only: one find_by_task_name_def single filt False if_False)
  qed
qed

lemma phrase_resolves_uniquely_witness:
  "map_option va_resource_id (rr_action (resolve_proposal pg_env
     (sample_proposal UPDATE_TASK (Some \<lparr>ref_id = None, ref_natural_language = Some ''epo''\<rparr>) [(''status'', PStr ''TODO'')]) sample_db))
   = Some (Some 1)"
proof -
  have "map t_id (filter (\<lambda>t. ilike pg_env (''%'' @ ''epo'' @ ''%'') (t_name t)) (tasks sample_db)) = [1]" by code_simp
  then show ?thesis
    using phrase_resolves_uniquely [of "sample_proposal UPDATE_TASK (Some \<lparr>ref_id = None, ref_natural_language = Some ''epo''\<rparr>)
      [(''status'', PStr ''TODO'')]" "''epo''" pg_env sample_db 1]
    by (simp add: sample_proposal_def)
qed

text \<open>C40: A rescheduling suggestion can never be asked for in a chat: the validator wants a proposal without a
  target, the resolver one with a target, so no proposal passes both.\<close>

theorem suggest_rescheduling_unreachable:
  assumes "ap_action_type p = SUGGEST_RESCHEDULING" and "validate_proposal T p = Inr v" and "vr_status v = VS_VALID"
  shows "resolve_proposal E p d = unresolved ''A target resource is required for this action.''"
proof -
  have "ap_resource p = None" using validate_proposal_validD(1) [OF assms(2,3)] assms(1) by (simp add: no_resource_actions_def)
  then show ?thesis using assms(1) by (simp add: resolve_proposal_def)
qed

lemma suggest_rescheduling_unreachable_witness:
  "resolve_proposal pg_env (sample_proposal SUGGEST_RESCHEDULING None [(''date_range_expression'', PStr ''THIS_WEEK'')]) sample_db =
   unresolved ''A target resource is required for this action.''"
  by (rule suggest_rescheduling_unreachable [where T = sample_texts and v = valid_result])
    (simp_all add: sample_proposal_def validate_proposal_def no_resource_actions_def update_actions_def Let_def validate_analyze_workload_def
      expression_of_value_def date_range_expression_of_def dict_get_def)

end
