(* ===== verification/TaskUseCases.thy ===== *)
theory TaskUseCases
  imports Samples
begin

text \<open>
  \<^verbatim>\<open>services/task_service.py\<close> and \<^verbatim>\<open>modules/task_module.py\<close>. The arguments are Python
  values, because the Agent passes the values of its parameters unchecked; \<open>None\<close> of an
  \<open>option\<close> is the sentinel \<^verbatim>\<open>_UNSET\<close> (or Python's \<^verbatim>\<open>None\<close> for a deadline), \<open>PNone\<close> is a
  Python \<^verbatim>\<open>None\<close>. \<open>clk k\<close> is the \<open>k\<close>-th reading of the clock during the operation (the
  check of the service, then the column defaults); the primary key comes from the ORM base
  class and is an argument.
\<close>

subsection \<open>TaskService\<close>

definition past_deadline_error :: "datetime \<Rightarrow> exn" where
  "past_deadline_error dl = InvalidTaskError (''deadline ('' @ isoformat '' '' dl @ '') must not be in the past'')"

definition create_task ::
  "db_env \<Rightarrow> (nat \<Rightarrow> int) \<Rightarrow> uuid \<Rightarrow> pyval \<Rightarrow> pyval \<Rightarrow> datetime \<Rightarrow> pyval \<Rightarrow> pyval \<Rightarrow> task act" where
  "create_task E clk i name desc dl prio dur d =
     (if instant dl < clk 0 then Inl (past_deadline_error dl)
      else then_do (if dur = PNone then Inr False else nonpositive dur) (\<lambda>bad.
        if bad then Inl (InvalidTaskError ''duration_minutes must be a positive integer'')
        else task_repo_create E i
               \<lparr>n_name = name, n_description = desc, n_deadline = dl, n_priority = prio,
                n_status = PStr (status_value TS_TODO), n_duration = dur\<rparr> (clk 1) (clk 2) d))"

definition get_task :: "uuid \<Rightarrow> db \<Rightarrow> exn + task" where
  "get_task i d = (case task_get i d of None \<Rightarrow> Inl (TaskNotFoundError i) | Some t \<Rightarrow> Inr t)"

definition list_tasks :: "db \<Rightarrow> task list" where
  "list_tasks d = tasks d"

definition unless_none :: "pyval \<Rightarrow> pyval option" where
  \<comment> \<open>if v is not None: attribute = v\<close>
  "unless_none v = (if v = PNone then None else Some v)"

definition update_task ::
  "db_env \<Rightarrow> (nat \<Rightarrow> int) \<Rightarrow> uuid \<Rightarrow> pyval \<Rightarrow> pyval option \<Rightarrow> datetime option \<Rightarrow> pyval \<Rightarrow> pyval
     \<Rightarrow> pyval option \<Rightarrow> task act" where
  "update_task E clk i name desc dl prio st dur d =
     then_do (get_task i d) (\<lambda>t.
     then_do (case dl of None \<Rightarrow> Inr ()
              | Some x \<Rightarrow> if instant x < clk 0 then Inl (past_deadline_error x) else Inr ()) (\<lambda>_.
     then_do (case dur of None \<Rightarrow> Inr False | Some v \<Rightarrow> if v = PNone then Inr False else nonpositive v) (\<lambda>bad.
       if bad then Inl (InvalidTaskError ''duration_minutes must be a positive integer or null'')
       else task_repo_update E t
              \<lparr>p_name = unless_none name, p_description = desc, p_deadline = dl,
               p_priority = unless_none prio, p_status = unless_none st, p_duration = dur\<rparr> (clk 1) d)))"

definition delete_task :: "uuid \<Rightarrow> unit act" where
  "delete_task i d =
     (case task_get i d of None \<Rightarrow> Inl (TaskNotFoundError i)
      | Some _ \<Rightarrow> then_do (task_repo_delete i d) (\<lambda>(_, d'). Inr ((), d')))"

subsection \<open>TaskModule\<close>

definition module_create_task where
  "module_create_task E clk i name desc dl prio dur s =
     transact E (create_task E clk i name desc dl prio dur) s"

definition module_get_task :: "uuid \<Rightarrow> session \<Rightarrow> exn + task" where
  "module_get_task i s = get_task i (working s)"

definition module_list_tasks :: "session \<Rightarrow> task list" where
  "module_list_tasks s = list_tasks (working s)"

definition module_update_task where
  "module_update_task E clk i name desc dl prio st dur s =
     transact E (update_task E clk i name desc dl prio st dur) s"

definition module_delete_task where
  "module_delete_task E i s = transact E (delete_task i) s"

definition find_tasks_by_deadline_range :: "datetime \<Rightarrow> datetime \<Rightarrow> session \<Rightarrow> task list" where
  "find_tasks_by_deadline_range start fin s = find_by_deadline_range start fin (working s)"

subsection \<open>What the operations do\<close>

lemma task_repo_create_Inr:
  "task_repo_create E i n c u d = Inr (t, d') \<longleftrightarrow>
     bind_new_task E i n c u = Inr t \<and> task_get i d = None \<and> d' = task_insert t d"
  by (auto simp: task_repo_create_def then_do_eq_Inr split: if_splits)

lemma bind_new_task_id: "bind_new_task E i n c u = Inr t \<Longrightarrow> t_id t = i"
  by (auto simp: bind_new_task_def then_do_eq_Inr)

lemma bind_patch_fixed:
  "bind_patch E t p = Inr t' \<Longrightarrow> t_id t' = t_id t \<and> t_created_at t' = t_created_at t \<and> t_updated_at t' = t_updated_at t"
  by (auto simp: bind_patch_def then_do_eq_Inr)

lemma create_task_Inr:
  "create_task E clk i name desc dl prio dur d = Inr (t, d') \<longleftrightarrow>
     clk 0 \<le> instant dl \<and> (dur = PNone \<or> nonpositive dur = Inr False) \<and>
     bind_new_task E i \<lparr>n_name = name, n_description = desc, n_deadline = dl, n_priority = prio,
        n_status = PStr (status_value TS_TODO), n_duration = dur\<rparr> (clk 1) (clk 2) = Inr t \<and>
     task_get i d = None \<and> d' = task_insert t d"
  by (auto simp: create_task_def then_do_eq_Inr task_repo_create_Inr split: if_splits)

lemma get_task_Inr: "get_task i d = Inr t \<longleftrightarrow> task_get i d = Some t"
  by (auto simp: get_task_def split: option.splits)

lemma task_repo_update_Inr:
  assumes "task_repo_update E t p u d = Inr (t', d')" and "task_get i d = Some t"
  shows "t_id t' = i \<and> task_get j d' = (if j = i then Some t' else task_get j d)
     \<and> reminders d' = reminders d \<and> confirmations d' = confirmations d"
proof -
  have ti: "t_id t = i" using assms(2) task_table.get_SomeD by blast
  obtain b where b: "bind_patch E t p = Inr b" using assms(1)
    by (auto simp: task_repo_update_def then_do_eq_Inr)
  have bi: "t_id b = i" using bind_patch_fixed [OF b] ti by simp
  show ?thesis
  proof (cases "b = t")
    case True
    then show ?thesis using assms b ti by (auto simp: task_repo_update_def)
  next
    case False
    have eq: "t' = b\<lparr>t_updated_at := from_db E u\<rparr>" "d' = task_replace t' d"
      using assms(1) b False by (auto simp: task_repo_update_def Let_def)
    have "t_id t' = i" using eq bi by simp
    with assms(2) eq(2) show ?thesis
      using task_table.get_upd [of t' d t j] by (simp add: task_replace_def)
  qed
qed

lemma update_task_InrD:
  assumes "update_task E clk i name desc dl prio st dur d = Inr (t', d')"
  shows "\<exists>t. task_get i d = Some t \<and>
    task_repo_update E t \<lparr>p_name = unless_none name, p_description = desc, p_deadline = dl,
       p_priority = unless_none prio, p_status = unless_none st, p_duration = dur\<rparr> (clk 1) d = Inr (t', d')"
  using assms by (auto simp: update_task_def then_do_eq_Inr get_task_Inr split: if_splits)

lemma delete_task_Inr:
  "delete_task i d = Inr (x, d') \<longleftrightarrow> task_get i d \<noteq> None \<and> d' = task_erase i d"
  by (auto simp: delete_task_def task_repo_delete_def split: option.splits)

lemma integrity_create_task:
  "db_integrity d \<Longrightarrow> create_task E clk i name desc dl prio dur d = Inr (t, d') \<Longrightarrow> db_integrity d'"
  using bind_new_task_id by (auto simp: create_task_Inr intro!: integrity_task_insert)

lemma integrity_update_task:
  "db_integrity d \<Longrightarrow> update_task E clk i name desc dl prio st dur d = Inr (t', d') \<Longrightarrow> db_integrity d'"
  by (drule update_task_InrD)
    (auto simp: task_repo_update_def then_do_eq_Inr Let_def integrity_task_replace split: if_splits)

lemma integrity_delete_task: "db_integrity d \<Longrightarrow> delete_task i d = Inr (x, d') \<Longrightarrow> db_integrity d'"
  by (auto simp: delete_task_Inr integrity_task_erase)

interpretation create_task_uc: invariant_use_case db_integrity "create_task E clk i name desc dl prio dur"
  for E clk i name desc dl prio dur
  by unfold_locales (rule integrity_create_task)

interpretation update_task_uc: invariant_use_case db_integrity "update_task E clk i name desc dl prio st dur"
  for E clk i name desc dl prio st dur
  by unfold_locales (rule integrity_update_task)

interpretation delete_task_uc: invariant_use_case db_integrity "delete_task i" for i
  by unfold_locales (rule integrity_delete_task)

subsection \<open>Properties\<close>

lemma opt_val_bind:
  assumes "binds_plain E"
  shows "(case v of None \<Rightarrow> True | Some x \<Rightarrow> plain_text x) \<Longrightarrow> bind_text E (opt_val PStr v) = Inr v"
    and "(case w of None \<Rightarrow> True | Some m \<Rightarrow> int4 m) \<Longrightarrow> bind_int E (opt_val PInt w) = Inr w"
  using binds_plainD [OF assms] by (auto simp: opt_val_def split: option.splits)

lemma plain_values: "plain_text (priority_value p)" "plain_text (status_value st)"
  by (cases p; simp add: plain_text_def) (cases st; simp add: plain_text_def)

text \<open>Creating a task with well-formed values: a past deadline and a duration that is not positive
  are refused, a failed commit leaves nothing, and otherwise exactly the requested row is stored, with
  status TODO.\<close>

lemma create_task_outcome:
  assumes "binds_plain E" and "plain_text name" and "pylen name \<le> 255"
    and "case desc of None \<Rightarrow> True | Some x \<Rightarrow> plain_text x" and "case dur of None \<Rightarrow> True | Some m \<Rightarrow> int4 m"
    and "task_get i (working s) = None"
  shows "module_create_task E clk i (PStr name) (opt_val PStr desc) dl (PStr (priority_value p)) (opt_val PInt dur) s =
    (if instant dl < clk 0 then (Inl (past_deadline_error dl), rollback s)
     else if (\<exists>m. dur = Some m \<and> m \<le> 0)
     then (Inl (InvalidTaskError ''duration_minutes must be a positive integer''), rollback s)
     else (let t = \<lparr>t_id = i, t_name = name, t_description = desc, t_deadline = from_db E (instant dl),
                    t_duration = dur, t_priority = priority_value p, t_status = ''TODO'',
                    t_created_at = from_db E (clk 1), t_updated_at = from_db E (clk 2)\<rparr>;
               d = (working s)\<lparr>tasks := tasks (working s) @ [t]\<rparr>
           in case commit_exn E d of None \<Rightarrow> (Inr t, \<lparr>committed = d, working = d\<rparr>) | Some e \<Rightarrow> (Inl e, rollback s)))"
proof -
  have b: "bind_name E (PStr name) = Inr name" "bind_text E (opt_val PStr desc) = Inr desc"
    "bind_int E (opt_val PInt dur) = Inr dur" "bind_str E (PStr (priority_value p)) = Inr (priority_value p)"
    "bind_str E (PStr ''TODO'') = Inr ''TODO''"
    using assms(2-5) binds_plainD [OF assms(1)] opt_val_bind [OF assms(1)] plain_values plain_values(2) [of TS_TODO] by auto
  have n: "opt_val PInt dur = PNone \<longleftrightarrow> dur = None" by (cases dur) (simp_all add: opt_val_def)
  show ?thesis
    using b assms(6) n
    by (cases dur)
      (auto simp: module_create_task_def transact_def create_task_def task_repo_create_def bind_new_task_def
        nonpositive_def opt_val_def Let_def commit_def task_insert_def split: option.splits)
qed

lemma create_task_outcome_witness:
  "module_create_task pg_env (\<lambda>_. 100) 7 (PStr ''Report'') (opt_val PStr None) (utc 900) (PStr (priority_value TP_HIGH))
     (opt_val PInt (Some 0)) sample_session
   = (Inl (InvalidTaskError ''duration_minutes must be a positive integer''), rollback sample_session)"
  using create_task_outcome [OF binds_plain_pg_env, of "''Report''" None "Some 0" 7 sample_session "\<lambda>_. 100" "utc 900" TP_HIGH]
  by (simp add: plain_text_def pylen_def int4_def sample_simps task_get_def)

lemma bind_patch_fields:
  assumes "binds_plain E" and "bind_patch E t \<lparr>p_name = unless_none name, p_description = desc, p_deadline = dl,
       p_priority = unless_none prio, p_status = unless_none st, p_duration = dur\<rparr> = Inr b"
  shows "t_created_at b = t_created_at t"
    and "t_updated_at b = t_updated_at t"
    and "name = PNone \<longrightarrow> t_name b = t_name t"
    and "desc = None \<longrightarrow> t_description b = t_description t"
    and "desc = Some PNone \<longrightarrow> t_description b = None"
    and "case dl of None \<Rightarrow> t_deadline b = t_deadline t | Some x \<Rightarrow> t_deadline b = from_db E (instant x)"
    and "prio = PNone \<longrightarrow> t_priority b = t_priority t"
    and "\<forall>p. prio = PStr (priority_value p) \<longrightarrow> t_priority b = priority_value p"
    and "st = PNone \<longrightarrow> t_status b = t_status t"
    and "\<forall>x. st = PStr (status_value x) \<longrightarrow> t_status b = status_value x"
    and "dur = None \<longrightarrow> t_duration b = t_duration t"
    and "dur = Some PNone \<longrightarrow> t_duration b = None"
    and "\<forall>m. dur = Some (PInt m) \<and> int4 m \<longrightarrow> t_duration b = Some m"
    and "\<forall>x. name = PStr x \<and> plain_text x \<and> pylen x \<le> 255 \<longrightarrow> t_name b = x"
    and "\<forall>x. desc = Some (PStr x) \<and> plain_text x \<longrightarrow> t_description b = Some x"
proof -
  obtain nm ds du pr sv where f: "set_field (bind_name E) (unless_none name) (t_name t) = Inr nm"
    "set_field (bind_text E) desc (t_description t) = Inr ds"
    "set_field (bind_int E) dur (t_duration t) = Inr du"
    "set_field (bind_str E) (unless_none prio) (t_priority t) = Inr pr"
    "set_field (bind_str E) (unless_none st) (t_status t) = Inr sv"
    and eq: "b = t\<lparr>t_name := nm, t_description := ds,
      t_deadline := (case dl of None \<Rightarrow> t_deadline t | Some x \<Rightarrow> from_db E (instant x)),
      t_duration := du, t_priority := pr, t_status := sv\<rparr>"
    using assms(2) unfolding bind_patch_def then_do_eq_Inr by auto
  have bp: "bind_text E PNone = Inr None" "bind_int E PNone = Inr None" "int4 m \<Longrightarrow> bind_int E (PInt m) = Inr (Some m)"
    "bind_str E (PStr (priority_value p)) = Inr (priority_value p)" "bind_str E (PStr (status_value x)) = Inr (status_value x)" for m p x
    using binds_plainD [OF assms(1)] plain_values by auto
  show "t_created_at b = t_created_at t" "t_updated_at b = t_updated_at t"
    "case dl of None \<Rightarrow> t_deadline b = t_deadline t | Some x \<Rightarrow> t_deadline b = from_db E (instant x)"
    by (simp_all add: eq split: option.splits)
  show "name = PNone \<longrightarrow> t_name b = t_name t" "desc = None \<longrightarrow> t_description b = t_description t"
    "desc = Some PNone \<longrightarrow> t_description b = None" "prio = PNone \<longrightarrow> t_priority b = t_priority t"
    "\<forall>p. prio = PStr (priority_value p) \<longrightarrow> t_priority b = priority_value p"
    "st = PNone \<longrightarrow> t_status b = t_status t" "\<forall>x. st = PStr (status_value x) \<longrightarrow> t_status b = status_value x"
    "dur = None \<longrightarrow> t_duration b = t_duration t" "dur = Some PNone \<longrightarrow> t_duration b = None"
    "\<forall>m. dur = Some (PInt m) \<and> int4 m \<longrightarrow> t_duration b = Some m"
    "\<forall>x. name = PStr x \<and> plain_text x \<and> pylen x \<le> 255 \<longrightarrow> t_name b = x"
    "\<forall>x. desc = Some (PStr x) \<and> plain_text x \<longrightarrow> t_description b = Some x"
    using f bp binds_plainD(1,2) [OF assms(1)] by (auto simp: eq set_field_def unless_none_def)
qed

text \<open>C23: A successful update is a patch: what was omitted keeps its value, what was given takes it (a name of at
  most 255 characters and a text without NUL as they are, null as none, a deadline as the same instant), a new
  deadline is not in the past, no other task and no reminder changes, and \<^verbatim>\<open>updated_at\<close> moves only if
  something changed.\<close>

theorem update_task_patch:
  assumes "binds_plain E" and "module_update_task E clk i name desc dl prio st dur s = (Inr t', s')"
  shows "\<exists>t. task_get i (working s) = Some t \<and> committed s' = working s' \<and>
    (\<forall>j. task_get j (committed s') = (if j = i then Some t' else task_get j (working s))) \<and>
    reminders (committed s') = reminders (working s) \<and> t_created_at t' = t_created_at t \<and>
    (name = PNone \<longrightarrow> t_name t' = t_name t) \<and>
    (\<forall>x. name = PStr x \<and> plain_text x \<and> pylen x \<le> 255 \<longrightarrow> t_name t' = x) \<and>
    (desc = None \<longrightarrow> t_description t' = t_description t) \<and> (desc = Some PNone \<longrightarrow> t_description t' = None) \<and>
    (\<forall>x. desc = Some (PStr x) \<and> plain_text x \<longrightarrow> t_description t' = Some x) \<and>
    (case dl of None \<Rightarrow> t_deadline t' = t_deadline t
     | Some x \<Rightarrow> instant (t_deadline t') = instant x \<and> clk 0 \<le> instant x) \<and>
    (prio = PNone \<longrightarrow> t_priority t' = t_priority t) \<and> (\<forall>p. prio = PStr (priority_value p) \<longrightarrow> t_priority t' = priority_value p) \<and>
    (st = PNone \<longrightarrow> t_status t' = t_status t) \<and> (\<forall>x. st = PStr (status_value x) \<longrightarrow> t_status t' = status_value x) \<and>
    (dur = None \<longrightarrow> t_duration t' = t_duration t) \<and> (dur = Some PNone \<longrightarrow> t_duration t' = None) \<and>
    (\<forall>m. dur = Some (PInt m) \<and> int4 m \<longrightarrow> t_duration t' = Some m \<and> 0 < m) \<and>
    (t' = t \<or> t_updated_at t' = from_db E (clk 1))"
proof -
  let ?p = "\<lparr>p_name = unless_none name, p_description = desc, p_deadline = dl,
       p_priority = unless_none prio, p_status = unless_none st, p_duration = dur\<rparr>"
  obtain d where d: "update_task E clk i name desc dl prio st dur (working s) = Inr (t', d)"
    and s': "s' = \<lparr>committed = d, working = d\<rparr>"
    using transact_Inr [OF assms(2) [unfolded module_update_task_def]] by blast
  obtain t where t: "task_get i (working s) = Some t" "task_repo_update E t ?p (clk 1) (working s) = Inr (t', d)"
    using update_task_InrD [OF d] by blast
  have dl: "case dl of None \<Rightarrow> True | Some x \<Rightarrow> clk 0 \<le> instant x"
    and dur: "\<forall>m. dur = Some (PInt m) \<longrightarrow> 0 < m"
    using d by (auto simp: update_task_def then_do_eq_Inr nonpositive_def split: if_splits option.splits)
  obtain b where b: "bind_patch E t ?p = Inr b" "t' = b \<and> b = t \<or> t' = b\<lparr>t_updated_at := from_db E (clk 1)\<rparr>"
    using t(2) by (auto simp: task_repo_update_def then_do_eq_Inr Let_def split: if_splits)
  note fields = bind_patch_fields [OF assms(1) b(1)]
  have frame: "\<forall>j. task_get j d = (if j = i then Some t' else task_get j (working s))"
    "reminders d = reminders (working s)"
    using task_repo_update_Inr [OF t(2) t(1)] by blast+
  have same: "t_created_at t' = t_created_at b" "t_name t' = t_name b" "t_description t' = t_description b"
    "t_deadline t' = t_deadline b" "t_priority t' = t_priority b" "t_status t' = t_status b" "t_duration t' = t_duration b"
    and up: "t' = t \<or> t_updated_at t' = from_db E (clk 1)"
    using b(2) by auto
  have dl': "case dl of None \<Rightarrow> t_deadline b = t_deadline t | Some x \<Rightarrow> instant (t_deadline b) = instant x \<and> clk 0 \<le> instant x"
    using fields(6) dl by (cases dl) simp_all
  have dur': "\<forall>m. dur = Some (PInt m) \<and> int4 m \<longrightarrow> t_duration b = Some m \<and> 0 < m"
    using fields(13) dur by blast
  have "committed s' = d" "working s' = d" using s' by simp_all
  note eqs = same this
  show ?thesis
    unfolding eqs by (intro exI [of _ t] conjI) (fact t(1) refl frame fields dl' dur' up)+
qed

lemma update_task_patch_witness:
  "\<exists>t' s'. module_update_task pg_env (\<lambda>_. 100) 1 (PStr ''Plan'') (Some (PStr ''new'')) (Some (utc 800)) PNone PNone (Some PNone)
       sample_session = (Inr t', s')
     \<and> t_name t' = ''Plan'' \<and> t_description t' = Some ''new'' \<and> t_duration t' = None \<and> instant (t_deadline t') = 800"
proof -
  let ?u = "module_update_task pg_env (\<lambda>_. 100) 1 (PStr ''Plan'') (Some (PStr ''new'')) (Some (utc 800)) PNone PNone (Some PNone) sample_session"
  have "\<exists>t' s'. ?u = (Inr t', s')"
    by (simp add: module_update_task_def transact_def update_task_def get_task_def task_get_def task_repo_update_def
        bind_patch_def set_field_def unless_none_def sample_simps commit_def plain_text_def pylen_def Let_def)
  then obtain t' s' where u: "?u = (Inr t', s')" by blast
  have "plain_text ''Plan''" "plain_text ''new''" "pylen ''Plan'' \<le> 255" by (simp_all add: plain_text_def pylen_def)
  then show ?thesis using update_task_patch [OF binds_plain_pg_env u] u by auto
qed

text \<open>C22: Deleting a task removes it and exactly its reminders, keeps everything else, and answers
  not-found, changing nothing, for an identifier that is not stored.\<close>

theorem delete_task_cascades:
  "module_delete_task E i s =
    (if i \<notin> t_id ` set (tasks (working s)) then (Inl (TaskNotFoundError i), rollback s)
     else (let d = (working s)\<lparr>tasks := filter (\<lambda>t. t_id t \<noteq> i) (tasks (working s)),
                              reminders := filter (\<lambda>r. r_task_id r \<noteq> i) (reminders (working s))\<rparr>
           in case commit_exn E d of None \<Rightarrow> (Inr (), \<lparr>committed = d, working = d\<rparr>) | Some e \<Rightarrow> (Inl e, rollback s)))"
proof -
  have e: "task_erase i (working s) = (working s)\<lparr>tasks := filter (\<lambda>t. t_id t \<noteq> i) (tasks (working s)),
      reminders := filter (\<lambda>r. r_task_id r \<noteq> i) (reminders (working s))\<rparr>"
    by (simp add: task_erase_def remove_row_def)
  show ?thesis
    using task_table.get_None_iff [of i "working s"] e
    by (auto simp: module_delete_task_def transact_def delete_task_def task_repo_delete_def commit_def Let_def
        split: option.splits)
qed

text \<open>Moving a deadline is checked against the clock but not against the task's reminders: any pending
  reminder between the new deadline and the old one stays, later than the deadline of its task.\<close>

lemma update_task_strands_reminders:
  assumes "task_get i d = Some t" and "r \<in> set (reminders d)" and "r_task_id r = i"
    and "clk 0 \<le> instant x" and "instant x < instant (r_remind_at r)"
  shows "\<exists>t' d'. update_task E clk i PNone None (Some x) PNone PNone None d = Inr (t', d') \<and>
    task_get i d' = Some t' \<and> r \<in> set (reminders d') \<and> instant (t_deadline t') < instant (r_remind_at r)"
proof -
  let ?b = "t\<lparr>t_deadline := from_db E (instant x)\<rparr>"
  let ?p = "\<lparr>p_name = None, p_description = None, p_deadline = Some x, p_priority = None, p_status = None, p_duration = None\<rparr>"
  have b: "bind_patch E t ?p = Inr ?b" by (simp add: bind_patch_def set_field_def)
  obtain t' d' where u: "task_repo_update E t ?p (clk 1) d = Inr (t', d')"
    "t_deadline t' = from_db E (instant x)"
  proof (cases "?b = t")
    case True
    have "t_deadline ?b = t_deadline t" by (rule arg_cong [OF True])
    then have "t_deadline t = from_db E (instant x)" by simp
    with True b that [of t d] show ?thesis by (simp add: task_repo_update_def)
  next
    case False
    with b that [of "?b\<lparr>t_updated_at := from_db E (clk 1)\<rparr>"] show ?thesis
      by (simp add: task_repo_update_def Let_def)
  qed
  have "update_task E clk i PNone None (Some x) PNone PNone None d = Inr (t', d')"
    using assms(1,4) u(1) by (simp add: update_task_def get_task_def unless_none_def)
  moreover have "task_get i d' = Some t'" "reminders d' = reminders d"
    using task_repo_update_Inr [OF u(1) assms(1)] by simp_all
  ultimately show ?thesis using assms(2,5) u(2) by auto
qed

lemma update_task_strands_reminders_witness:
  "\<exists>t' d'. update_task pg_env (\<lambda>_. 100) 1 PNone None (Some (utc 200)) PNone PNone None sample_db = Inr (t', d') \<and>
    task_get 1 d' = Some t' \<and> sample_reminder 2 1 500 RS_PENDING \<in> set (reminders d') \<and>
    instant (t_deadline t') < instant (r_remind_at (sample_reminder 2 1 500 RS_PENDING))"
  by (rule update_task_strands_reminders [where t = "sample_task 1 1000"])
    (simp_all add: sample_simps task_get_def)

end
