(* ===== verification/ReminderUseCases.thy ===== *)
theory ReminderUseCases
  imports Samples
begin

text \<open>
  \<^verbatim>\<open>services/reminder_service.py\<close> and \<^verbatim>\<open>modules/reminder_module.py\<close>. A status argument is
  a Python value: the Agent passes whatever its parameters hold. \<open>clk\<close> supplies the column
  defaults; the primary key is an argument.
\<close>

subsection \<open>ReminderService\<close>

definition assignable_statuses :: "string set" where
  "assignable_statuses = {rem_status_value RS_PENDING, rem_status_value RS_CANCELLED}"

definition late_reminder_error :: "datetime \<Rightarrow> datetime \<Rightarrow> exn" where
  "late_reminder_error at dl = InvalidReminderError
     (''remind_at ('' @ isoformat '' '' at @ '') must be before or at the task deadline ('' @ isoformat '' '' dl @ '')'')"

definition create_reminder ::
  "db_env \<Rightarrow> (nat \<Rightarrow> int) \<Rightarrow> uuid \<Rightarrow> uuid \<Rightarrow> datetime \<Rightarrow> reminder act" where
  "create_reminder E clk i tid at d =
     (case task_get tid d of None \<Rightarrow> Inl (TaskNotFoundError tid)
      | Some t \<Rightarrow>
          if instant at > instant (t_deadline t) then Inl (late_reminder_error at (t_deadline t))
          else reminder_repo_create
                 \<lparr>r_id = i, r_task_id = tid, r_remind_at = from_db E (instant at),
                  r_status = rem_status_value RS_PENDING,
                  r_created_at = from_db E (clk 0), r_updated_at = from_db E (clk 1)\<rparr> d)"

definition get_reminder :: "uuid \<Rightarrow> db \<Rightarrow> exn + reminder" where
  "get_reminder i d = (case reminder_get i d of None \<Rightarrow> Inl (ReminderNotFoundError i) | Some r \<Rightarrow> Inr r)"

definition list_reminders_by_task :: "uuid \<Rightarrow> db \<Rightarrow> exn + reminder list" where
  "list_reminders_by_task tid d =
     (case task_get tid d of None \<Rightarrow> Inl (TaskNotFoundError tid) | Some _ \<Rightarrow> Inr (list_by_task_id tid d))"

definition check_status :: "pyval \<Rightarrow> exn + string option" where
  \<comment> \<open>membership in a set of strings: other hashable values are not in it, unhashable ones raise\<close>
  "check_status v = (case v of
     PNone \<Rightarrow> Inr None
   | PStr s \<Rightarrow> if s \<in> assignable_statuses then Inr (Some s)
              else Inl (InvalidReminderError (''Status cannot be set to '' @ s))
   | PList _ \<Rightarrow> Inl (TypeError ''unhashable type'')
   | PDict _ \<Rightarrow> Inl (TypeError ''unhashable type'')
   | _ \<Rightarrow> Inl (InvalidReminderError ''Status cannot be set''))"

definition update_reminder ::
  "db_env \<Rightarrow> (nat \<Rightarrow> int) \<Rightarrow> uuid \<Rightarrow> datetime option \<Rightarrow> pyval \<Rightarrow> reminder act" where
  "update_reminder E clk i at st d =
     then_do (get_reminder i d) (\<lambda>r.
       if r_status r = rem_status_value RS_SENT
       then Inl (InvalidReminderError ''A SENT reminder cannot be updated'')
       else then_do
         (case at of None \<Rightarrow> Inr ()
          | Some x \<Rightarrow> (case task_get (r_task_id r) d of None \<Rightarrow> Inl (TaskNotFoundError (r_task_id r))
              | Some t \<Rightarrow> if instant x > instant (t_deadline t)
                         then Inl (late_reminder_error x (t_deadline t)) else Inr ())) (\<lambda>_.
         then_do (check_status st) (\<lambda>sv.
           reminder_repo_update E r
             (r\<lparr>r_remind_at := (case at of None \<Rightarrow> r_remind_at r | Some x \<Rightarrow> from_db E (instant x)),
                r_status := (case sv of None \<Rightarrow> r_status r | Some s \<Rightarrow> s)\<rparr>) (clk 0) d)))"

definition delete_reminder :: "uuid \<Rightarrow> unit act" where
  "delete_reminder i d =
     (case reminder_get i d of None \<Rightarrow> Inl (ReminderNotFoundError i)
      | Some _ \<Rightarrow> then_do (reminder_repo_delete i d) (\<lambda>(_, d'). Inr ((), d')))"

subsection \<open>ReminderModule\<close>

definition module_create_reminder where
  "module_create_reminder E clk i tid at s = transact E (create_reminder E clk i tid at) s"

definition module_get_reminder :: "uuid \<Rightarrow> session \<Rightarrow> exn + reminder" where
  "module_get_reminder i s = get_reminder i (working s)"

definition module_list_reminders_by_task :: "uuid \<Rightarrow> session \<Rightarrow> exn + reminder list" where
  "module_list_reminders_by_task tid s = list_reminders_by_task tid (working s)"

definition module_update_reminder where
  "module_update_reminder E clk i at st s = transact E (update_reminder E clk i at st) s"

definition module_delete_reminder where
  "module_delete_reminder E i s = transact E (delete_reminder i) s"

subsection \<open>What the operations do\<close>

lemma check_status_Inr: "check_status v = Inr (Some s) \<Longrightarrow> s \<in> assignable_statuses"
  by (auto simp: check_status_def split: pyval.splits if_splits)

lemma get_reminder_Inr: "get_reminder i d = Inr r \<longleftrightarrow> reminder_get i d = Some r"
  by (auto simp: get_reminder_def split: option.splits)

lemma create_reminder_Inr:
  "create_reminder E clk i tid at d = Inr (r, d') \<longleftrightarrow>
     (\<exists>t. task_get tid d = Some t \<and> instant at \<le> instant (t_deadline t)) \<and> reminder_get i d = None \<and>
     r = \<lparr>r_id = i, r_task_id = tid, r_remind_at = from_db E (instant at),
          r_status = rem_status_value RS_PENDING,
          r_created_at = from_db E (clk 0), r_updated_at = from_db E (clk 1)\<rparr> \<and>
     d' = reminder_insert r d"
  by (auto simp: create_reminder_def reminder_repo_create_def split: option.splits if_splits)

lemma update_reminder_InrD:
  assumes "update_reminder E clk i at st d = Inr (r', d')"
  shows "\<exists>r. reminder_get i d = Some r \<and> r_status r \<noteq> rem_status_value RS_SENT \<and>
     r_id r' = i \<and> r_task_id r' = r_task_id r \<and>
     (r_status r' = r_status r \<or> r_status r' \<in> assignable_statuses) \<and>
     (\<forall>x. at = Some x \<longrightarrow> instant (r_remind_at r') = instant x
        \<and> (\<exists>t. task_get (r_task_id r) d = Some t \<and> instant x \<le> instant (t_deadline t))) \<and>
     (at = None \<longrightarrow> r_remind_at r' = r_remind_at r) \<and>
     (d' = d \<and> r' = r \<or> d' = reminder_replace r' d)"
proof -
  obtain r sv where r: "reminder_get i d = Some r" "r_status r \<noteq> rem_status_value RS_SENT"
    and at: "\<forall>x. at = Some x \<longrightarrow> (\<exists>t. task_get (r_task_id r) d = Some t \<and> instant x \<le> instant (t_deadline t))"
    and sv: "check_status st = Inr sv"
    and up: "reminder_repo_update E r
             (r\<lparr>r_remind_at := (case at of None \<Rightarrow> r_remind_at r | Some x \<Rightarrow> from_db E (instant x)),
                r_status := (case sv of None \<Rightarrow> r_status r | Some s \<Rightarrow> s)\<rparr>) (clk 0) d = Inr (r', d')"
    using assms
    by (fastforce simp: update_reminder_def then_do_eq_Inr get_reminder_Inr split: if_splits option.splits)
  let ?n = "r\<lparr>r_remind_at := (case at of None \<Rightarrow> r_remind_at r | Some x \<Rightarrow> from_db E (instant x)),
                r_status := (case sv of None \<Rightarrow> r_status r | Some s \<Rightarrow> s)\<rparr>"
  have id: "r_id r = i" using r(1) reminder_table.get_SomeD by blast
  have st: "r_status ?n = r_status r \<or> r_status ?n \<in> assignable_statuses"
    using sv check_status_Inr by (cases sv) auto
  show ?thesis
  proof (cases "?n = r")
    case True
    then have "r' = r" "d' = d" using up by (auto simp: reminder_repo_update_def)
    moreover have "instant (r_remind_at r) = instant x" if "at = Some x" for x
    proof -
      have "r_remind_at r = r_remind_at ?n" by (rule arg_cong [OF True [symmetric]])
      also have "\<dots> = from_db E (instant x)" using that by simp
      finally show ?thesis by simp
    qed
    ultimately show ?thesis using r at id by auto
  next
    case False
    then have "r' = ?n\<lparr>r_updated_at := from_db E (clk 0)\<rparr>" "d' = reminder_replace r' d"
      using up by (auto simp: reminder_repo_update_def Let_def)
    then show ?thesis using r at id st by auto
  qed
qed

lemma delete_reminder_Inr:
  "delete_reminder i d = Inr (x, d') \<longleftrightarrow> reminder_get i d \<noteq> None \<and> d' = reminder_erase i d"
  by (auto simp: delete_reminder_def reminder_repo_delete_def split: option.splits)

lemma assignable_in_range: "s \<in> assignable_statuses \<Longrightarrow> s \<in> range rem_status_value"
  by (auto simp: assignable_statuses_def)

lemma integrity_create_reminder:
  "db_integrity d \<Longrightarrow> create_reminder E clk i tid at d = Inr (r, d') \<Longrightarrow> db_integrity d'"
  by (auto simp: create_reminder_Inr intro!: integrity_reminder_insert)

lemma integrity_update_reminder:
  assumes "db_integrity d" and "update_reminder E clk i at st d = Inr (r', d')"
  shows "db_integrity d'"
proof -
  obtain r where r: "reminder_get i d = Some r" "r_id r' = i" "r_task_id r' = r_task_id r"
    "r_status r' = r_status r \<or> r_status r' \<in> assignable_statuses"
    "d' = d \<and> r' = r \<or> d' = reminder_replace r' d"
    using update_reminder_InrD [OF assms(2)] by blast
  have "r_status r \<in> range rem_status_value"
    using assms(1) reminder_table.get_SomeD [OF r(1)] by (auto simp: db_integrity_def)
  then have "r_status r' \<in> range rem_status_value" using r(4) assignable_in_range by metis
  then show ?thesis using r assms(1) integrity_reminder_replace [of d r' r] by auto
qed

lemma integrity_delete_reminder: "db_integrity d \<Longrightarrow> delete_reminder i d = Inr (x, d') \<Longrightarrow> db_integrity d'"
  by (auto simp: delete_reminder_Inr integrity_reminder_erase)

interpretation create_reminder_uc: invariant_use_case db_integrity "create_reminder E clk i tid at"
  for E clk i tid at
  by unfold_locales (rule integrity_create_reminder)

interpretation update_reminder_uc: invariant_use_case db_integrity "update_reminder E clk i at st"
  for E clk i at st
  by unfold_locales (rule integrity_update_reminder)

interpretation delete_reminder_uc: invariant_use_case db_integrity "delete_reminder i" for i
  by unfold_locales (rule integrity_delete_reminder)

subsection \<open>Properties\<close>

text \<open>C25: A reminder that is created, or whose time is changed, is stored no later than the deadline its
  task has at that moment; a created one is PENDING; a change keeps the parent task and every other
  reminder.\<close>

theorem reminder_before_deadline:
  "(module_create_reminder E clk i tid at s = (Inr r, s') \<longrightarrow>
      (\<exists>t. task_get tid (working s) = Some t \<and> instant (r_remind_at r) = instant at \<and>
         instant at \<le> instant (t_deadline t)) \<and> r_id r = i \<and> r_task_id r = tid \<and> r_status r = ''PENDING'' \<and>
      reminders (committed s') = reminders (working s) @ [r] \<and> tasks (committed s') = tasks (working s)) \<and>
   (module_update_reminder E clk i (Some at) st s = (Inr r, s') \<longrightarrow>
      (\<exists>old t. reminder_get i (working s) = Some old \<and> task_get (r_task_id old) (working s) = Some t \<and>
         r_task_id r = r_task_id old \<and> instant (r_remind_at r) = instant at \<and> instant at \<le> instant (t_deadline t)) \<and>
      (\<forall>j. reminder_get j (committed s') = (if j = i then Some r else reminder_get j (working s))) \<and>
      tasks (committed s') = tasks (working s))"
proof (intro conjI impI)
  assume m: "module_create_reminder E clk i tid at s = (Inr r, s')"
  obtain d where d: "create_reminder E clk i tid at (working s) = Inr (r, d)" "s' = \<lparr>committed = d, working = d\<rparr>"
    using transact_Inr [OF m [unfolded module_create_reminder_def]] by blast
  note c = d(1) [unfolded create_reminder_Inr]
  have r: "r_remind_at r = from_db E (instant at)" "r_id r = i" "r_task_id r = tid" "r_status r = ''PENDING''"
    using c by (elim conjE, hypsubst_thin, simp)+
  have "instant (r_remind_at r) = instant at" unfolding r by simp
  with c show "\<exists>t. task_get tid (working s) = Some t \<and> instant (r_remind_at r) = instant at \<and>
         instant at \<le> instant (t_deadline t)" by metis
  show "r_id r = i" "r_task_id r = tid" "r_status r = ''PENDING''" by (fact r)+
  have "d = reminder_insert r (working s)" using c by (elim conjE)
  then have "committed s' = reminder_insert r (working s)" using d(2) by simp
  then show "reminders (committed s') = reminders (working s) @ [r]" "tasks (committed s') = tasks (working s)"
    by (simp_all add: reminder_insert_def)
next
  assume m: "module_update_reminder E clk i (Some at) st s = (Inr r, s')"
  obtain d where d: "update_reminder E clk i (Some at) st (working s) = Inr (r, d)" "s' = \<lparr>committed = d, working = d\<rparr>"
    using transact_Inr [OF m [unfolded module_update_reminder_def]] by blast
  obtain old where old: "reminder_get i (working s) = Some old" "r_id r = i" "r_task_id r = r_task_id old"
    "instant (r_remind_at r) = instant at"
    "\<exists>t. task_get (r_task_id old) (working s) = Some t \<and> instant at \<le> instant (t_deadline t)"
    "d = working s \<and> r = old \<or> d = reminder_replace r (working s)"
    using update_reminder_InrD [OF d(1)] by auto
  then show "\<exists>old t. reminder_get i (working s) = Some old \<and> task_get (r_task_id old) (working s) = Some t \<and>
         r_task_id r = r_task_id old \<and> instant (r_remind_at r) = instant at \<and> instant at \<le> instant (t_deadline t)"
    by blast
  show "\<forall>j. reminder_get j (committed s') = (if j = i then Some r else reminder_get j (working s))"
    "tasks (committed s') = tasks (working s)"
    using old d(2) reminder_table.get_upd [of r "working s" old] by (auto simp: reminder_replace_def)
qed

lemma reminder_before_deadline_witness:
  "\<exists>r s'. module_create_reminder pg_env (\<lambda>_. 100) 9 1 (utc 700) sample_session = (Inr r, s') \<and>
     r_status r = ''PENDING'' \<and> reminders (committed s') = reminders sample_db @ [r]"
proof -
  have "\<exists>r s'. module_create_reminder pg_env (\<lambda>_. 100) 9 1 (utc 700) sample_session = (Inr r, s')"
    by (simp add: module_create_reminder_def transact_def create_reminder_def task_get_def reminder_repo_create_def
        reminder_get_def commit_def sample_simps)
  then show ?thesis using reminder_before_deadline by (metis sample_session_def session.select_convs(2))
qed

text \<open>A reminder that was sent is never changed again: an update of it is refused whatever it asks for,
  and no update makes a reminder SENT.\<close>

lemma sent_reminder_frozen:
  assumes "reminder_get i (working s) = Some r"
  shows "(r_status r = ''SENT'' \<longrightarrow> module_update_reminder E clk i at st s =
      (Inl (InvalidReminderError ''A SENT reminder cannot be updated''), rollback s)) \<and>
    (\<forall>r' s'. module_update_reminder E clk i at st s = (Inr r', s') \<longrightarrow> r_status r' \<noteq> ''SENT'')"
proof (intro conjI impI allI)
  assume "r_status r = ''SENT''"
  then show "module_update_reminder E clk i at st s =
      (Inl (InvalidReminderError ''A SENT reminder cannot be updated''), rollback s)"
    using assms by (simp add: module_update_reminder_def transact_def update_reminder_def get_reminder_def)
next
  fix r' s' assume m: "module_update_reminder E clk i at st s = (Inr r', s')"
  obtain d where "update_reminder E clk i at st (working s) = Inr (r', d)"
    using transact_Inr [OF m [unfolded module_update_reminder_def]] by blast
  from update_reminder_InrD [OF this] show "r_status r' \<noteq> ''SENT''"
    by (auto simp: assignable_statuses_def)
qed

lemma sent_reminder_frozen_witness:
  "module_update_reminder pg_env (\<lambda>_. 100) 2 None PNone
     \<lparr>committed = sample_db, working = sample_db\<lparr>reminders := [sample_reminder 2 1 500 RS_SENT]\<rparr>\<rparr> =
   (Inl (InvalidReminderError ''A SENT reminder cannot be updated''), \<lparr>committed = sample_db, working = sample_db\<rparr>)"
  using sent_reminder_frozen [of 2 "\<lparr>committed = sample_db, working = sample_db\<lparr>reminders := [sample_reminder 2 1 500 RS_SENT]\<rparr>\<rparr>"
      "sample_reminder 2 1 500 RS_SENT" pg_env "\<lambda>_. 100" None PNone, THEN conjunct1, THEN mp]
  by (simp add: reminder_get_def sample_simps rollback_def)

end
