(* ===== verification/DateRange.thy ===== *)
theory DateRange
  imports AgentSchemas
begin

text \<open>
  \<^verbatim>\<open>services/date_range_resolver.py\<close>: from a keyword and a reference time to an inclusive range of
  UTC instants. All calendar arithmetic is on ordinals; what leaves the years 1 to 9999 raises.
\<close>

subsection \<open>DateRangeResolver\<close>

definition ensure_utc :: "pydatetime \<Rightarrow> exn + datetime" where
  "ensure_utc x = (case x of
     Naive _ \<Rightarrow> Inl (ValueError ''reference_time must be timezone-aware; naive datetimes are not accepted'')
   | Aware d \<Rightarrow> astimezone_utc d)"

definition day_start :: "datetime \<Rightarrow> datetime" where
  \<comment> \<open>d.replace(hour=0, minute=0, second=0, microsecond=0, tzinfo=utc)\<close>
  "day_start d = utc (wall d div DAY_US * DAY_US)"

definition day_end :: "datetime \<Rightarrow> datetime" where
  \<comment> \<open>d.replace(hour=23, minute=59, second=59, microsecond=999999, tzinfo=utc)\<close>
  "day_end d = utc (wall d div DAY_US * DAY_US + (((23 * 60 + 59) * 60 + 59) * 1000000 + 999999))"

definition same_day_range :: "datetime \<Rightarrow> datetime \<times> datetime" where
  "same_day_range d = (day_start d, day_end d)"

definition weekday :: "datetime \<Rightarrow> int" where
  \<comment> \<open>Monday is 0\<close>
  "weekday d = (date_of d + 6) mod 7"

definition week_range :: "datetime \<Rightarrow> int \<Rightarrow> exn + datetime \<times> datetime" where
  "week_range ref weeks_offset =
     then_do (shift ref (- weekday ref * DAY_US)) (\<lambda>d.
     then_do (shift d (weeks_offset * 7 * DAY_US)) (\<lambda>monday.
     then_do (shift monday (6 * DAY_US)) (\<lambda>sunday.
       Inr (day_start monday, day_end sunday))))"

definition month_range :: "datetime \<Rightarrow> int \<Rightarrow> exn + datetime \<times> datetime" where
  "month_range ref months_offset =
     (case ord2ymd (date_of ref) of (y, m, d) \<Rightarrow>
      (let total_months = m - 1 + months_offset;
           target_year = y + total_months div 12;
           target_month = total_months mod 12 + 1 in
       then_do (mk_wall target_year target_month 1 0 0 0 0) (\<lambda>start.
       (let last_day = days_in_month target_year target_month in
        then_do (mk_wall target_year target_month last_day 23 59 59 999999) (\<lambda>fin.
          Inr (utc start, utc fin))))))"

definition explicit_range :: "pydatetime option \<Rightarrow> pydatetime option \<Rightarrow> exn + datetime \<times> datetime" where
  "explicit_range start fin = (case (start, fin) of
     (Some a, Some b) \<Rightarrow>
        then_do (ensure_utc a) (\<lambda>a. then_do (ensure_utc b) (\<lambda>b.
          if instant a > instant b
          then Inl (ValueError (''explicit_start ('' @ isoformat '' '' a @ '') must be <= explicit_end ('' @ isoformat '' '' b @ '')''))
          else Inr (a, b)))
   | _ \<Rightarrow> Inl (ValueError ''EXPLICIT_RANGE requires both explicit_start and explicit_end''))"

definition resolve_range ::
  "date_range_expression \<Rightarrow> pydatetime option \<Rightarrow> pydatetime option \<Rightarrow> pydatetime \<Rightarrow> exn + datetime \<times> datetime" where
  "resolve_range expression explicit_start explicit_end reference_time =
     then_do (ensure_utc reference_time) (\<lambda>ref. case expression of
       TODAY \<Rightarrow> Inr (same_day_range ref)
     | TOMORROW \<Rightarrow> then_do (shift ref DAY_US) (\<lambda>tomorrow. Inr (same_day_range tomorrow))
     | THIS_WEEK \<Rightarrow> week_range ref 0
     | NEXT_WEEK \<Rightarrow> week_range ref 1
     | THIS_MONTH \<Rightarrow> month_range ref 0
     | NEXT_MONTH \<Rightarrow> month_range ref 1
     | EXPLICIT_RANGE \<Rightarrow> explicit_range explicit_start explicit_end)"

subsection \<open>The calendar: consecutive months, years in range\<close>

lemma div_step:
  fixes y k :: int
  assumes "0 < k"
  shows "y div k = (y - 1) div k + (if y mod k = 0 then 1 else 0)"
proof (cases "y mod k = 0")
  case True
  then have "(y - 1) div k = y div k - 1"
    using mult_div_mod_eq [of k y] assms
    by (intro int_div_pos_eq [where r = "k - 1"]) (auto simp: algebra_simps)
  with True show ?thesis by simp
next
  case False
  then have "0 < y mod k" using assms by (metis pos_mod_sign order_le_less)
  then have "(y - 1) div k = y div k"
    using mult_div_mod_eq [of k y] pos_mod_bound [OF assms, of y]
    by (intro int_div_pos_eq [where r = "y mod k - 1"]) auto
  with False show ?thesis by simp
qed

lemma days_before_year_Suc: "days_before_year (y + 1) = days_before_year y + (if is_leap y then 366 else 365)"
proof -
  define a b c where "a = (y - 1) div 4" and "b = (y - 1) div 100" and "c = (y - 1) div 400"
  define p q r where "p = (y mod 4 = 0)" and "q = (y mod 100 = 0)" and "r = (y mod 400 = 0)"
  have "r \<longrightarrow> q" "q \<longrightarrow> p" 
    unfolding p_def q_def r_def mod_eq_0_iff_dvd by (auto elim: dvd_trans [rotated])
  moreover have "days_before_year (y + 1) = y * 365 + y div 4 - y div 100 + y div 400"
    by (simp add: days_before_year_def)
  moreover have "days_before_year y = (y - 1) * 365 + a - b + c"
    by (simp add: days_before_year_def Let_def a_def b_def c_def)
  moreover have "y div 4 = a + (if p then 1 else 0)" "y div 100 = b + (if q then 1 else 0)"
    "y div 400 = c + (if r then 1 else 0)"
    unfolding a_def b_def c_def p_def q_def r_def by (rule div_step, simp)+
  moreover have "is_leap y \<longleftrightarrow> p \<and> (\<not> q \<or> r)" by (simp add: is_leap_def p_def q_def r_def)
  ultimately show ?thesis by (cases p; cases q; cases r) simp_all
qed

lemma before_month_table:
  "list_all (\<lambda>m. before_month True (m + 1) = before_month True m + month_length True m \<and>
                 before_month False (m + 1) = before_month False m + month_length False m) [1..11]"
  by code_simp

lemma ymd2ord_next_month:
  assumes "1 \<le> m" and "m < 12"
  shows "ymd2ord y m (days_in_month y m) + 1 = ymd2ord y (m + 1) 1"
proof -
  have "m \<in> set [1..11]" using assms by simp
  then have "before_month (is_leap y) (m + 1) = before_month (is_leap y) m + month_length (is_leap y) m"
    using before_month_table unfolding list_all_iff by (cases "is_leap y") (simp_all only:)
  then show ?thesis by (simp add: ymd2ord_def days_before_month_def days_in_month_def)
qed

lemma ymd2ord_next_year: "ymd2ord y 12 (days_in_month y 12) + 1 = ymd2ord (y + 1) 1 1"
  by (simp add: ymd2ord_def days_before_year_Suc days_before_month_def days_in_month_def
      before_month_def plain_before_month_def month_length_def month_lengths_def)

lemma ord2ymd_year:
  assumes "1 \<le> n" and "n \<le> MAX_ORD" and "ord2ymd n = (y, m, d)"
  shows "1 \<le> y \<and> y \<le> 9999"
proof -
  define a r1 where "a = (n - 1) div 146097" and "r1 = (n - 1) mod 146097"
  define b r2 where "b = r1 div 36524" and "r2 = r1 mod 36524"
  define c r3 where "c = r2 div 1461" and "r3 = r2 mod 1461"
  define k r where "k = r3 div 365" and "r = r3 mod 365"
  let ?y = "a * 400 + 1 + b * 100 + c * 4 + k"
  have split: "ord2ymd n = (if k = 4 \<or> b = 4 then (?y - 1, 12, 31)
      else (case month_day (k = 3 \<and> (c \<noteq> 24 \<or> b = 3)) r of (m, d) \<Rightarrow> (?y, m, d)))"
    by (simp add: ord2ymd_def Let_def a_def b_def c_def k_def r_def r1_def r2_def r3_def)
  have y: "y = (if k = 4 \<or> b = 4 then ?y - 1 else ?y)"
    using assms(3) unfolding split by (simp split: if_splits prod.splits)
  have eq: "n - 1 = 146097 * a + r1" "r1 = 36524 * b + r2" "r2 = 1461 * c + r3" "r3 = 365 * k + r"
    unfolding a_def r1_def b_def r2_def c_def r3_def k_def r_def by simp_all
  have rb: "0 \<le> r1" "r1 < 146097" "0 \<le> r2" "r2 < 36524" "0 \<le> r3" "r3 < 1461" "0 \<le> r" "r < 365"
    unfolding r1_def r2_def r3_def r_def by simp_all
  have n: "0 \<le> n - 1" "n - 1 \<le> 3652058" using assms by (auto simp: MAX_ORD_def)
  have lo: "0 \<le> a" "0 \<le> b" "0 \<le> c" "0 \<le> k" "b \<le> 4" "c \<le> 24" "k \<le> 4"
    using eq rb n by linarith+
  have "1 \<le> y" using y lo by (auto split: if_splits)
  moreover have "y \<le> 9999"
  proof (cases "a \<le> 23")
    case True
    then show ?thesis using y lo by (auto split: if_splits)
  next
    case False
    then have a: "a = 24" using eq rb n by linarith
    then have r1: "r1 \<le> 145730" using eq n by linarith
    then have "b \<le> 3" using eq rb by linarith
    then consider "b \<le> 2" | "b = 3" "c \<le> 23" | "b = 3" "c = 24" using lo by linarith
    then show ?thesis
    proof cases
      case 3
      then have "k \<le> 2" using eq rb r1 by linarith
      then show ?thesis using y a 3 by simp
    qed (use y a lo in \<open>auto split: if_splits\<close>)
  qed
  ultimately show ?thesis ..
qed

lemma date_of_range:
  assumes "wall_ok (wall d)"
  shows "1 \<le> date_of d \<and> date_of d \<le> MAX_ORD"
  using assms by (simp add: wall_ok_def date_of_def DAY_US_def MAX_ORD_def) linarith

subsection \<open>The ranges\<close>

lemma days_in_month_pos:
  assumes "1 \<le> m" and "m \<le> 12"
  shows "1 \<le> days_in_month y m"
proof -
  have "list_all (\<lambda>m. 1 \<le> month_length True m \<and> 1 \<le> month_length False m) [1..12]" by code_simp
  moreover have "m \<in> set [1..12]" using assms by simp
  ultimately show ?thesis
    unfolding list_all_iff days_in_month_def by (cases "is_leap y") auto
qed

lemma mk_wall_first:
  assumes "1 \<le> y" "y \<le> 9999" "1 \<le> m" "m \<le> 12"
  shows "mk_wall y m 1 0 0 0 0 = Inr ((ymd2ord y m 1 - 1) * DAY_US)"
    and "mk_wall y m (days_in_month y m) 23 59 59 999999 =
      Inr ((ymd2ord y m (days_in_month y m)) * DAY_US - 1)"
proof -
  have "1 \<le> days_in_month y m" by (rule days_in_month_pos [OF assms(3,4)])
  then show "mk_wall y m 1 0 0 0 0 = Inr ((ymd2ord y m 1 - 1) * DAY_US)"
    "mk_wall y m (days_in_month y m) 23 59 59 999999 = Inr ((ymd2ord y m (days_in_month y m)) * DAY_US - 1)"
    using assms by (simp_all add: mk_wall_def DAY_US_def algebra_simps)
qed

definition month_span :: "int \<Rightarrow> int \<Rightarrow> datetime \<times> datetime" where
  \<comment> \<open>first and last microsecond of a month\<close>
  "month_span y m = (utc ((ymd2ord y m 1 - 1) * DAY_US), utc (ymd2ord y m (days_in_month y m) * DAY_US - 1))"

lemma month_range_eq:
  assumes "ord2ymd (date_of ref) = (y, m, d)"
    and "1 \<le> y + (m - 1 + k) div 12" "y + (m - 1 + k) div 12 \<le> 9999"
  shows "month_range ref k = Inr (month_span (y + (m - 1 + k) div 12) ((m - 1 + k) mod 12 + 1))"
proof -
  have "1 \<le> (m - 1 + k) mod 12 + 1" "(m - 1 + k) mod 12 + 1 \<le> 12"
    using pos_mod_sign [of 12 "m - 1 + k"] pos_mod_bound [of 12 "m - 1 + k"] by linarith+
  then show ?thesis
    using assms mk_wall_first [of "y + (m - 1 + k) div 12" "(m - 1 + k) mod 12 + 1"]
    by (simp add: month_range_def month_span_def Let_def)
qed

lemma day_bounds: "instant (day_start d) \<le> wall d \<and> wall d \<le> instant (day_end d)
    \<and> instant (day_end d) = instant (day_start d) + DAY_US - 1"
proof -
  have "wall d = wall d div DAY_US * DAY_US + wall d mod DAY_US" by simp
  moreover have "0 \<le> wall d mod DAY_US" "wall d mod DAY_US < DAY_US"
    by (simp_all add: DAY_US_def)
  ultimately have "wall d div DAY_US * DAY_US \<le> wall d" "wall d \<le> wall d div DAY_US * DAY_US + (DAY_US - 1)"
    by linarith+
  then show ?thesis by (simp add: day_start_def day_end_def DAY_US_def)
qed

lemma in_month_span:
  assumes "ord2ymd (date_of ref) = (y, m, d)"
  shows "instant (fst (month_span y m)) \<le> wall ref \<and> wall ref \<le> instant (snd (month_span y m))"
proof -
  have o: "ymd2ord y m d = date_of ref" "1 \<le> d" "d \<le> days_in_month y m"
    using ord2ymd_spec [OF assms] by auto
  have w: "(date_of ref - 1) * DAY_US \<le> wall ref" "wall ref < date_of ref * DAY_US"
    using date_of_bounds [of ref "date_of ref"] by simp_all
  have "ymd2ord y m 1 \<le> date_of ref" "date_of ref \<le> ymd2ord y m (days_in_month y m)"
    using o by (simp_all add: ymd2ord_def)
  then have "(ymd2ord y m 1 - 1) * DAY_US \<le> (date_of ref - 1) * DAY_US"
    "date_of ref * DAY_US \<le> ymd2ord y m (days_in_month y m) * DAY_US"
    by (simp_all add: DAY_US_def)
  with w show ?thesis by (simp add: month_span_def)
qed

subsection \<open>Properties\<close>

lemma resolve_range_aware:
  assumes "wall_ok (instant r)"
  shows "resolve_range e xs xe (Aware r) = (case e of
       TODAY \<Rightarrow> Inr (same_day_range (utc (instant r)))
     | TOMORROW \<Rightarrow> then_do (shift (utc (instant r)) DAY_US) (\<lambda>tomorrow. Inr (same_day_range tomorrow))
     | THIS_WEEK \<Rightarrow> week_range (utc (instant r)) 0
     | NEXT_WEEK \<Rightarrow> week_range (utc (instant r)) 1
     | THIS_MONTH \<Rightarrow> month_range (utc (instant r)) 0
     | NEXT_MONTH \<Rightarrow> month_range (utc (instant r)) 1
     | EXPLICIT_RANGE \<Rightarrow> explicit_range xs xe)"
  using assms by (simp add: resolve_range_def ensure_utc_def astimezone_utc_def)

lemma resolve_range_InrD: "resolve_range e xs xe (Aware r) = Inr ab \<Longrightarrow> wall_ok (instant r)"
  by (auto simp: resolve_range_def ensure_utc_def astimezone_utc_def split: if_splits)

definition monday_of :: "int \<Rightarrow> int" where
  \<comment> \<open>the midnight that starts the week of an instant\<close>
  "monday_of t = t div DAY_US * DAY_US - (t div DAY_US) mod 7 * DAY_US"

lemma day_floor_add: "(t + k * DAY_US) div DAY_US = t div DAY_US + k"
  by (simp add: DAY_US_def)

lemma shift_utc: "shift (utc t) us = (if wall_ok (t + us) then Inr (utc (t + us)) else Inl OverflowError)"
  by (simp add: shift_def utc_def)

lemma week_range_utc:
  fixes t k :: int
  defines "w \<equiv> (t div DAY_US) mod 7"
  shows "week_range (utc t) k =
     (if wall_ok (t + (0 - w) * DAY_US) \<and> wall_ok (t + (7 * k - w) * DAY_US) \<and> wall_ok (t + (7 * k + 6 - w) * DAY_US)
      then Inr (utc (monday_of t + 7 * k * DAY_US), utc (monday_of t + (7 * k + 7) * DAY_US - 1))
      else Inl OverflowError)"
proof -
  have wd: "weekday (utc t) = w" by (simp add: weekday_def date_of_def w_def)
  have e: "- w * DAY_US = (0 - w) * DAY_US"
    "t + (0 - w) * DAY_US + k * 7 * DAY_US = t + (7 * k - w) * DAY_US"
    "t + (7 * k - w) * DAY_US + 6 * DAY_US = t + (7 * k + 6 - w) * DAY_US"
    by (simp_all add: algebra_simps)
  have s: "day_start (utc (t + j * DAY_US)) = utc (t div DAY_US * DAY_US + j * DAY_US)"
    "day_end (utc (t + j * DAY_US)) = utc (t div DAY_US * DAY_US + j * DAY_US + (DAY_US - 1))" for j
    unfolding day_start_def day_end_def wall_utc day_floor_add by (simp_all add: DAY_US_def)
  have m: "monday_of t + 7 * k * DAY_US = t div DAY_US * DAY_US + (7 * k - w) * DAY_US"
    "monday_of t + (7 * k + 7) * DAY_US - 1 = t div DAY_US * DAY_US + (7 * k + 6 - w) * DAY_US + (DAY_US - 1)"
    by (simp_all add: monday_of_def w_def algebra_simps)
  show ?thesis
    unfolding week_range_def wd shift_utc e(1) m
    by (cases "wall_ok (t + (0 - w) * DAY_US)"; cases "wall_ok (t + (7 * k - w) * DAY_US)";
        cases "wall_ok (t + (7 * k + 6 - w) * DAY_US)")
      (simp_all only: shift_utc e err_simps s if_True if_False simp_thms)
qed

lemma monday_of_bounds: "monday_of t \<le> t \<and> t < monday_of t + 7 * DAY_US \<and> monday_of t mod (7 * DAY_US) = 0"
proof -
  define q r where "q = t div DAY_US" and "r = t mod DAY_US"
  define u v where "u = q div 7" and "v = q mod 7"
  have "t = q * DAY_US + r" "0 \<le> r" "r < DAY_US" unfolding q_def r_def by (simp_all add: DAY_US_def)
  moreover have "q = 7 * u + v" "0 \<le> v" "v \<le> 6" unfolding u_def v_def by simp_all
  moreover have "monday_of t = (q - v) * DAY_US"
    by (simp add: monday_of_def q_def [symmetric] v_def algebra_simps)
  ultimately have "monday_of t = u * (7 * DAY_US)" "monday_of t \<le> t" "t < monday_of t + 7 * DAY_US"
    by (simp_all add: DAY_US_def)
  then show ?thesis by simp
qed


text \<open>C35: A range that is meant to hold the present does: TODAY, THIS_WEEK and THIS_MONTH of a reference
  time in any offset start at or before it and end at or after it; a day and a week have their exact
  length, a week starts on a Monday midnight, and a month runs from its first to its last microsecond.\<close>

theorem current_range_holds_now:
  assumes "resolve_range e xs xe (Aware r) = Inr (a, b)"
  shows "(e \<in> {TODAY, THIS_WEEK, THIS_MONTH} \<longrightarrow> instant a \<le> instant r \<and> instant r \<le> instant b) \<and>
    (e \<in> {TODAY, TOMORROW} \<longrightarrow> instant a mod DAY_US = 0 \<and> instant b = instant a + DAY_US - 1) \<and>
    (e \<in> {THIS_WEEK, NEXT_WEEK} \<longrightarrow> weekday a = 0 \<and> instant a mod DAY_US = 0 \<and> instant b = instant a + 7 * DAY_US - 1) \<and>
    (e \<in> {THIS_MONTH, NEXT_MONTH} \<longrightarrow> (\<exists>y m. 1 \<le> m \<and> m \<le> 12 \<and> (a, b) = month_span y m))"
proof -
  let ?u = "utc (instant r)"
  have w: "wall_ok (instant r)" by (rule resolve_range_InrD [OF assms])
  obtain y m d where ymd: "ord2ymd (date_of ?u) = (y, m, d)" by (metis prod_cases3)
  have day: "instant (day_start x) mod DAY_US = 0" for x by (simp add: day_start_def)
  have mon: "weekday (utc (monday_of t + 7 * k * DAY_US)) = 0" "(monday_of t + 7 * k * DAY_US) mod DAY_US = 0" for t k
  proof -
    obtain n where n: "monday_of t = 7 * DAY_US * n" using monday_of_bounds [of t] by (auto simp: mod_0_imp_dvd elim: dvdE)
    then have eq: "monday_of t + 7 * k * DAY_US = (7 * (n + k)) * DAY_US" by (simp add: algebra_simps)
    show "(monday_of t + 7 * k * DAY_US) mod DAY_US = 0" unfolding eq by simp
    show "weekday (utc (monday_of t + 7 * k * DAY_US)) = 0" unfolding eq by (simp add: weekday_def date_of_def DAY_US_def)
  qed
  have month: "\<exists>y m. 1 \<le> m \<and> m \<le> 12 \<and> (a, b) = month_span y m" if "month_range ?u k = Inr (a, b)" for k
  proof -
    let ?y = "y + (m - 1 + k) div 12" and ?m = "(m - 1 + k) mod 12 + 1"
    have "1 \<le> ?y \<and> ?y \<le> 9999"
      using that ymd by (auto simp: month_range_def then_do_eq_Inr mk_wall_def Let_def split: if_splits)
    then have "(a, b) = month_span ?y ?m" using month_range_eq [OF ymd, of k] that by simp
    then show ?thesis using pos_mod_sign [of 12 "m - 1 + k"] pos_mod_bound [of 12 "m - 1 + k"]
      by (intro exI [of _ ?y] exI [of _ ?m]) simp
  qed
  have this_month: "month_range ?u 0 = Inr (month_span y m)"
    using month_range_eq [OF ymd, of 0] ord2ymd_year [OF _ _ ymd] ord2ymd_spec [OF ymd] date_of_range [of ?u] w by simp
  show ?thesis
  proof (cases e)
    case THIS_MONTH
    with assms w this_month in_month_span [OF ymd] month [of 0] show ?thesis by (auto simp: resolve_range_aware)
  next
    case NEXT_MONTH
    with assms w month [of 1] show ?thesis by (auto simp: resolve_range_aware)
  next
    case TODAY
    with assms w day [of ?u] day_bounds [of ?u] show ?thesis by (auto simp: resolve_range_aware same_day_range_def)
  next
    case TOMORROW
    with assms w day day_bounds show ?thesis
      by (auto simp: resolve_range_aware same_day_range_def shift_utc split: if_splits)
  next
    case THIS_WEEK
    then have "a = utc (monday_of (instant r))" "b = utc (monday_of (instant r) + 7 * DAY_US - 1)"
      using assms w by (auto simp: resolve_range_aware week_range_utc split: if_splits)
    with THIS_WEEK mon [of _ 0] monday_of_bounds [of "instant r"] show ?thesis by simp
  next
    case NEXT_WEEK
    then have "a = utc (monday_of (instant r) + 7 * 1 * DAY_US)" "b = utc (monday_of (instant r) + 14 * DAY_US - 1)"
      using assms w by (auto simp: resolve_range_aware week_range_utc split: if_splits)
    with NEXT_WEEK mon [of _ 1] show ?thesis by simp
  next
    case EXPLICIT_RANGE
    then show ?thesis by simp
  qed
qed

lemma current_range_holds_now_witness:
  "\<exists>a b. resolve_range THIS_MONTH None None (Aware (utc 800000000000)) = Inr (a, b) \<and> instant a \<le> 800000000000 \<and> 800000000000 \<le> instant b"
proof -
  have "resolve_range THIS_MONTH None None (Aware (utc 800000000000)) = Inr (utc 0, utc 2678399999999)" by code_simp
  from current_range_holds_now [OF this] this show ?thesis by simp
qed

fun following :: "date_range_expression \<Rightarrow> date_range_expression option" where
  \<comment> \<open>the keyword for the period after\<close>
  "following TODAY = Some TOMORROW"
| "following THIS_WEEK = Some NEXT_WEEK"
| "following THIS_MONTH = Some NEXT_MONTH"
| "following _ = None"

lemma month_spans_adjacent:
  assumes "1 \<le> m" and "m \<le> 12"
  shows "instant (fst (month_span (y + m div 12) (m mod 12 + 1))) = instant (snd (month_span y m)) + 1"
proof (cases "m = 12")
  case True
  then show ?thesis using ymd2ord_next_year [of y] by (simp add: month_span_def)
next
  case False
  then have "m < 12" using assms by simp
  moreover from this have "m div 12 = 0" "m mod 12 = m" using assms by simp_all
  ultimately show ?thesis using ymd2ord_next_month [OF assms(1), of y] by (simp add: month_span_def)
qed

text \<open>C36: The ranges tile the time line: TOMORROW, NEXT_WEEK and NEXT_MONTH start one microsecond after
  TODAY, THIS_WEEK and THIS_MONTH end, across month ends, leap days and years, so no deadline falls
  between the two and none is in both.\<close>

theorem next_range_follows:
  assumes "following e = Some e'" and "resolve_range e xs xe (Aware r) = Inr (a, b)"
    and "resolve_range e' ys ye (Aware r) = Inr (c, d)"
  shows "instant c = instant b + 1"
proof -
  let ?u = "utc (instant r)"
  have w: "wall_ok (instant r)" by (rule resolve_range_InrD [OF assms(2)])
  consider "e = TODAY" "e' = TOMORROW" | "e = THIS_WEEK" "e' = NEXT_WEEK" | "e = THIS_MONTH" "e' = NEXT_MONTH"
    using assms(1) by (cases e) auto
  then show ?thesis
  proof cases
    case 1
    with assms w have "b = day_end ?u" "c = day_start (utc (instant r + 1 * DAY_US))"
      by (auto simp: resolve_range_aware same_day_range_def shift_utc split: if_splits)
    then show ?thesis unfolding day_start_def day_end_def wall_utc day_floor_add by (simp add: DAY_US_def)
  next
    case 2
    with assms w show ?thesis by (auto simp: resolve_range_aware week_range_utc split: if_splits)
  next
    case 3
    obtain y m day where ymd: "ord2ymd (date_of ?u) = (y, m, day)" by (metis prod_cases3)
    then have m: "1 \<le> m" "m \<le> 12" using ord2ymd_spec [OF ymd] by simp_all
    have "1 \<le> y \<and> y \<le> 9999" using ord2ymd_year [OF _ _ ymd] date_of_range [of ?u] w by simp
    then have b: "(a, b) = month_span y m"
      using assms(2) 3 w month_range_eq [OF ymd, of 0] m by (simp add: resolve_range_aware)
    have n: "month_range ?u 1 = Inr (c, d)" using assms(3) 3 w by (simp add: resolve_range_aware)
    then have "1 \<le> y + m div 12 \<and> y + m div 12 \<le> 9999"
      using ymd by (auto simp: month_range_def then_do_eq_Inr mk_wall_def Let_def split: if_splits)
    then have "(c, d) = month_span (y + m div 12) (m mod 12 + 1)"
      using month_range_eq [OF ymd, of 1] n by simp
    with b show ?thesis using month_spans_adjacent [OF m, of y] by (metis fst_conv snd_conv)
  qed
qed

lemma next_range_follows_witness:
  "\<exists>a b c d. resolve_range THIS_MONTH None None (Aware (utc 5000000000000)) = Inr (a, b) \<and>
     resolve_range NEXT_MONTH None None (Aware (utc 5000000000000)) = Inr (c, d) \<and> instant c = instant b + 1"
proof -
  have a: "resolve_range THIS_MONTH None None (Aware (utc 5000000000000)) = Inr (utc 2678400000000, utc 5097599999999)" by code_simp
  have b: "resolve_range NEXT_MONTH None None (Aware (utc 5000000000000)) = Inr (utc 5097600000000, utc 7775999999999)" by code_simp
  from next_range_follows [OF _ a b] a b show ?thesis by simp
qed

lemma month_span_nonempty:
  assumes "1 \<le> m" and "m \<le> 12"
  shows "instant (fst (month_span y m)) < instant (snd (month_span y m))"
  using days_in_month_pos [OF assms, of y] by (simp add: month_span_def ymd2ord_def DAY_US_def)

lemma december_9999: "ymd2ord 9999 12 1 = MAX_ORD - 30" "ymd2ord 9999 12 31 = MAX_ORD"
  by code_simp+

lemma keyword_range_total:
  assumes "0 \<le> instant r" and "instant r < (MAX_ORD - 31) * DAY_US" and "e \<noteq> EXPLICIT_RANGE"
  shows "\<exists>a b. resolve_range e xs xe (Aware r) = Inr (a, b) \<and> instant a < instant b"
proof -
  let ?u = "utc (instant r)"
  have w: "wall_ok (instant r)" using assms by (simp add: wall_ok_def DAY_US_def MAX_ORD_def)
  define q where "q = instant r div DAY_US"
  have q: "0 \<le> q" "q * DAY_US \<le> instant r" "instant r < (q + 1) * DAY_US" "q < MAX_ORD - 31"
    using assms by (auto simp: q_def DAY_US_def MAX_ORD_def)
  have ok: "wall_ok (instant r + k * DAY_US)" if "- q \<le> k" "k \<le> 31" for k
  proof -
    have "0 \<le> (q + k) * DAY_US" "(q + 1 + k) * DAY_US \<le> MAX_ORD * DAY_US"
      using that q(4) by (simp_all add: DAY_US_def)
    then show ?thesis using q(2,3) by (simp add: wall_ok_def algebra_simps)
  qed
  have week: "\<exists>a b. week_range ?u k = Inr (a, b) \<and> instant a < instant b" if k: "0 \<le> k" "k \<le> 1" for k
  proof -
    have v: "0 \<le> q mod 7" "q mod 7 \<le> 6" "q mod 7 \<le> q" using q(1) by (simp_all add: zmod_le_nonneg_dividend)
    have "wall_ok (instant r + (0 - q mod 7) * DAY_US)" "wall_ok (instant r + (7 * k - q mod 7) * DAY_US)"
      "wall_ok (instant r + (7 * k + 6 - q mod 7) * DAY_US)"
      by (intro ok; use v k in linarith)+
    then show ?thesis by (simp add: week_range_utc q_def [symmetric]) (simp add: DAY_US_def)
  qed
  obtain y m d where ymd: "ord2ymd (date_of ?u) = (y, m, d)" by (metis prod_cases3)
  have m: "1 \<le> m" "m \<le> 12" "1 \<le> d" "ymd2ord y m d = q + 1" using ord2ymd_spec [OF ymd] by (simp_all add: date_of_def q_def)
  have y: "1 \<le> y" "y \<le> 9999" using ord2ymd_year [OF _ _ ymd] date_of_range [of ?u] w by simp_all
  have "\<not> (y = 9999 \<and> m = 12)"
  proof
    assume "y = 9999 \<and> m = 12"
    then have "ymd2ord 9999 12 1 \<le> q + 1" using m(3,4) by (auto simp: ymd2ord_def)
    then show False using q(4) december_9999 by simp
  qed
  then have next_year: "y + m div 12 \<le> 9999" using y m by (cases "m = 12") auto
  have month: "\<exists>a b. month_range ?u k = Inr (a, b) \<and> instant a < instant b" if "k = 0 \<or> k = 1" for k
  proof -
    let ?y = "y + (m - 1 + k) div 12" and ?m = "(m - 1 + k) mod 12 + 1"
    have "1 \<le> ?y" "?y \<le> 9999" using that y m next_year by auto
    moreover have "1 \<le> ?m" "?m \<le> 12" using pos_mod_sign [of 12 "m - 1 + k"] pos_mod_bound [of 12 "m - 1 + k"] by linarith+
    ultimately show ?thesis using month_range_eq [OF ymd, of k] month_span_nonempty [of ?m ?y] by (cases "month_span ?y ?m") auto
  qed
  have day: "instant (day_start x) < instant (day_end x)" for x using day_bounds [of x] by (simp add: DAY_US_def)
  show ?thesis
    using assms(3) w week [of 0] week [of 1] month [of 0] month [of 1] day ok [of 1] q(1)
    by (cases e) (auto simp: resolve_range_aware same_day_range_def shift_utc)
qed

text \<open>No keyword fails before December of the year 9999: for every aware reference time until then each of
  the six keywords gives a range, and it is never empty.\<close>

lemma keyword_ranges_defined:
  assumes "0 \<le> instant r" and "instant r < (MAX_ORD - 31) * DAY_US" and "e \<noteq> EXPLICIT_RANGE"
  shows "\<exists>a b. resolve_range e xs xe (Aware r) = Inr (a, b) \<and> instant a < instant b"
  using assms by (rule keyword_range_total)

lemma keyword_ranges_defined_witness:
  "\<exists>a b. resolve_range NEXT_WEEK None None (Aware (utc 5000000000000)) = Inr (a, b) \<and> instant a < instant b"
  by (rule keyword_ranges_defined) (simp_all add: MAX_ORD_def DAY_US_def)

end
