(* ===== verification/Workload.thy ===== *)
theory Workload
  imports Samples
begin

text \<open>
  \<^verbatim>\<open>services/workload_analysis_service.py\<close> with the schemas of \<^verbatim>\<open>schemas/workload.py\<close> it
  fills: collisions, busy days, recommended order, feasibility windows, daily pressure, overload
  and scheduling pressure, and the explanation. A day is the ordinal of a \<^verbatim>\<open>date\<close>. A dictionary
  keyed by a datetime compares instants and keeps the first key.
\<close>

subsection \<open>schemas/workload.py\<close>

record task_summary =
  s_id :: uuid
  s_task_name :: string
  s_priority :: task_priority
  s_status :: task_status
  s_deadline :: "datetime option"
  s_duration :: "int option"

datatype work_item = OrmTask task | Summary task_summary

record deadline_collision =
  dc_deadline :: datetime
  dc_tasks :: "task_summary list"

record busy_day_warning =
  bd_date :: int
  bd_task_count :: nat
  bd_tasks :: "task_summary list"

record feasibility_window =
  fw_task_id :: uuid
  fw_task_name :: string
  fw_deadline :: datetime
  fw_duration :: int
  fw_latest_start :: datetime

record daily_pressure =
  dp_date :: int
  dp_planned :: int
  dp_budget :: int
  dp_utilization_pct :: f64
  dp_tasks :: "task_summary list"

record overload_warning =
  ow_date :: int
  ow_planned :: int
  ow_budget :: int
  ow_excess :: int
  ow_tasks :: "task_summary list"

record scheduling_pressure =
  sp_task_a_id :: uuid
  sp_task_a_name :: string
  sp_task_b_id :: uuid
  sp_task_b_name :: string
  sp_overlap_start :: datetime
  sp_overlap_end :: datetime

record workload_result =
  w_total_tasks :: nat
  w_deadline_collisions :: "deadline_collision list"
  w_busy_days :: "busy_day_warning list"
  w_recommended_order :: "task_summary list"
  w_explanation :: string
  w_total_planned :: int
  w_feasibility_windows :: "feasibility_window list"
  w_daily_pressure :: "daily_pressure list"
  w_overload_warnings :: "overload_warning list"
  w_scheduling_pressure :: "scheduling_pressure list"

subsection \<open>Selecting and converting tasks\<close>

definition default_budget_minutes :: int where
  "default_budget_minutes = 480"

definition budget_service :: "int \<Rightarrow> exn + int" where
  \<comment> \<open>the constructors: a budget between 1 and 1440, kept as the default of the instance\<close>
  "budget_service budget_minutes =
     (if \<not> (0 < budget_minutes \<and> budget_minutes \<le> 1440)
      then Inl (ValueError (''budget_minutes must be between 1 and 1440, got '' @ str_int budget_minutes))
      else Inr budget_minutes)"

fun item_status :: "work_item \<Rightarrow> string" where
  "item_status (OrmTask t) = t_status t"
| "item_status (Summary s) = status_value (s_status s)"

definition active_statuses :: "string set" where
  "active_statuses = {status_value TS_TODO, status_value TS_IN_PROGRESS}"

definition filter_active_tasks :: "work_item list \<Rightarrow> work_item list" where
  "filter_active_tasks ts = filter (\<lambda>t. item_status t \<in> active_statuses) ts"

fun to_summary :: "work_item \<Rightarrow> exn + task_summary" where
  "to_summary (Summary s) = Inr s"
| "to_summary (OrmTask t) =
     then_do (task_priority_of (t_priority t)) (\<lambda>p.
     then_do (task_status_of (t_status t)) (\<lambda>st.
       Inr \<lparr>s_id = t_id t, s_task_name = t_name t, s_priority = p, s_status = st,
            s_deadline = Some (t_deadline t), s_duration = t_duration t\<rparr>))"

fun priority_order :: "task_priority \<Rightarrow> int" where
  "priority_order TP_HIGH = 0"
| "priority_order TP_MEDIUM = 1"
| "priority_order TP_LOW = 2"

definition sort_tasks_key :: "task_summary \<Rightarrow> bool \<times> int \<times> int \<times> string" where
  \<comment> \<open>deadline (none last), then priority from HIGH to LOW, then name\<close>
  "sort_tasks_key s =
     (s_deadline s = None, (case s_deadline s of None \<Rightarrow> 0 | Some d \<Rightarrow> instant d),
      priority_order (s_priority s), s_task_name s)"

definition sort_tasks :: "task_summary list \<Rightarrow> task_summary list" where
  "sort_tasks ts = sort_key sort_tasks_key ts"

definition recommend_order :: "task_summary list \<Rightarrow> task_summary list" where
  "recommend_order summaries = sort_tasks summaries"

subsection \<open>Collisions and busy days\<close>

definition deadline_of :: "task_summary \<Rightarrow> datetime" where
  "deadline_of s = the (s_deadline s)"

definition with_deadline :: "task_summary list \<Rightarrow> task_summary list" where
  "with_deadline ts = filter (\<lambda>s. s_deadline s \<noteq> None) ts"

definition detect_deadline_collisions :: "task_summary list \<Rightarrow> deadline_collision list" where
  "detect_deadline_collisions summaries =
     (let high = filter (\<lambda>s. s_priority s = TP_HIGH \<and> s_deadline s \<noteq> None) summaries;
          groups = group_by (\<lambda>s. instant (deadline_of s)) high
      in sort_key (\<lambda>c. instant (dc_deadline c))
           (map (\<lambda>(key, ts). \<lparr>dc_deadline = deadline_of (hd ts), dc_tasks = sort_tasks ts\<rparr>)
             (filter (\<lambda>(key, ts). length ts \<ge> 2) groups)))"

definition detect_busy_days :: "task_summary list \<Rightarrow> busy_day_warning list" where
  "detect_busy_days summaries =
     (let groups = group_by (\<lambda>s. date_of (deadline_of s)) (with_deadline summaries)
      in sort_key bd_date
           (map (\<lambda>(day, ts). \<lparr>bd_date = day, bd_task_count = length ts, bd_tasks = sort_tasks ts\<rparr>)
             (filter (\<lambda>(day, ts). length ts > 5) groups)))"

subsection \<open>Durations\<close>

definition duration_of :: "task_summary \<Rightarrow> int" where
  "duration_of s = (case s_duration s of None \<Rightarrow> 0 | Some m \<Rightarrow> m)"

definition planned_tasks :: "task_summary list \<Rightarrow> task_summary list" where
  \<comment> \<open>those with both a deadline and a duration\<close>
  "planned_tasks ts = filter (\<lambda>s. s_deadline s \<noteq> None \<and> s_duration s \<noteq> None) ts"

definition window_of :: "task_summary \<Rightarrow> exn + feasibility_window" where
  "window_of s =
     then_do (shift (deadline_of s) (- duration_of s * MINUTE_US)) (\<lambda>latest_start.
       Inr \<lparr>fw_task_id = s_id s, fw_task_name = s_task_name s, fw_deadline = deadline_of s,
            fw_duration = duration_of s, fw_latest_start = latest_start\<rparr>)"

definition feasibility_windows :: "task_summary list \<Rightarrow> exn + feasibility_window list" where
  "feasibility_windows summaries =
     then_do (map_res window_of (planned_tasks summaries)) (\<lambda>windows.
       Inr (sort_key (\<lambda>w. (instant (fw_deadline w), fw_task_name w)) windows))"

definition total_planned_minutes :: "task_summary list \<Rightarrow> int" where
  "total_planned_minutes summaries = sum_list (map duration_of (filter (\<lambda>s. s_duration s \<noteq> None) summaries))"

definition utilization_pct :: "int \<Rightarrow> int \<Rightarrow> f64" where
  "utilization_pct planned budget = (if budget > 0 then f64_mul_int (f64_div planned budget) 100 else (0, 0))"

definition pressure_of :: "int \<Rightarrow> int \<Rightarrow> task_summary list \<Rightarrow> daily_pressure" where
  "pressure_of budget day ts =
     (let planned = sum_list (map duration_of ts) in
      \<lparr>dp_date = day, dp_planned = planned, dp_budget = budget,
       dp_utilization_pct = utilization_pct planned budget, dp_tasks = sort_tasks ts\<rparr>)"

definition daily_pressures :: "task_summary list \<Rightarrow> int \<Rightarrow> daily_pressure list" where
  "daily_pressures summaries budget =
     sort_key dp_date (map (\<lambda>(day, ts). pressure_of budget day ts)
       (group_by (\<lambda>s. date_of (deadline_of s)) (planned_tasks summaries)))"

definition overload_of :: "daily_pressure \<Rightarrow> overload_warning" where
  "overload_of p = \<lparr>ow_date = dp_date p, ow_planned = dp_planned p, ow_budget = dp_budget p,
     ow_excess = dp_planned p - dp_budget p, ow_tasks = dp_tasks p\<rparr>"

definition overload_warnings :: "daily_pressure list \<Rightarrow> overload_warning list" where
  "overload_warnings pressures = map overload_of (filter (\<lambda>p. dp_planned p > dp_budget p) pressures)"

subsection \<open>Scheduling pressure\<close>

fun pairs :: "'a list \<Rightarrow> ('a \<times> 'a) list" where
  \<comment> \<open>for i in range(n): for j in range(i + 1, n)\<close>
  "pairs [] = []"
| "pairs (x # xs) = map (Pair x) xs @ pairs xs"

definition overlap_start :: "feasibility_window \<Rightarrow> feasibility_window \<Rightarrow> datetime" where
  "overlap_start a b = dt_max (fw_latest_start a) (fw_latest_start b)"

definition overlap_end :: "feasibility_window \<Rightarrow> feasibility_window \<Rightarrow> datetime" where
  "overlap_end a b = dt_min (fw_deadline a) (fw_deadline b)"

definition windows_overlap :: "feasibility_window \<Rightarrow> feasibility_window \<Rightarrow> bool" where
  "windows_overlap a b \<longleftrightarrow> instant (overlap_start a b) < instant (overlap_end a b)"

definition name_order :: "feasibility_window \<times> feasibility_window \<Rightarrow> feasibility_window \<times> feasibility_window" where
  "name_order = (\<lambda>(a, b). if fw_task_name a < fw_task_name b then (a, b) else (b, a))"

definition detect_scheduling_pressure ::
  "feasibility_window list \<Rightarrow> (feasibility_window \<times> feasibility_window) list" where
  "detect_scheduling_pressure windows =
     sort_key (\<lambda>(a, b). (fw_task_name a, fw_task_name b))
       (map name_order (filter (\<lambda>(a, b). windows_overlap a b) (pairs windows)))"

definition convert_scheduling_pressure ::
  "(feasibility_window \<times> feasibility_window) list \<Rightarrow> scheduling_pressure list" where
  "convert_scheduling_pressure ps = map (\<lambda>(a, b).
     \<lparr>sp_task_a_id = fw_task_id a, sp_task_a_name = fw_task_name a,
      sp_task_b_id = fw_task_id b, sp_task_b_name = fw_task_name b,
      sp_overlap_start = overlap_start a b, sp_overlap_end = overlap_end a b\<rparr>) ps"

subsection \<open>The explanation\<close>

definition newline :: string where "newline = [CHR 0x0A]"

definition em_dash :: string where "em_dash = [CHR 0xE2, CHR 0x80, CHR 0x94]"

definition heading :: "bool \<Rightarrow> string \<Rightarrow> string list \<Rightarrow> string list" where
  "heading shown title ls = (if shown then [[], title] @ ls else [])"

definition order_line :: "nat \<Rightarrow> task_summary \<Rightarrow> string" where
  "order_line i s = str_int (int i) @ ''. '' @ s_task_name s @ '' '' @ em_dash @ '' ''
     @ priority_value (s_priority s) @ '' '' @ em_dash @ '' ''
     @ (case s_deadline s of None \<Rightarrow> ''no deadline'' | Some d \<Rightarrow> strftime_minutes d)"

definition order_lines :: "task_summary list \<Rightarrow> string list" where
  "order_lines order = map (\<lambda>(i, s). order_line i s) (enumerate 1 (take 10 order))
     @ (if length order > 10 then [''... and '' @ str_int (int (length order) - 10) @ '' more tasks''] else [])"

definition pressure_note :: string where
  "pressure_note = ''Note: Duration-based metrics show workload pressure but do not represent an actual schedule. This analysis does not include dependencies, calendar availability, or task placement.''"

definition plain_note :: string where
  "plain_note = ''Note: This analysis is based on task count and deadline data only. It does not include task duration, dependencies, calendar availability, or workload capacity.''"

definition generate_explanation ::
  "nat \<Rightarrow> deadline_collision list \<Rightarrow> busy_day_warning list \<Rightarrow> task_summary list \<Rightarrow> int
     \<Rightarrow> overload_warning list \<Rightarrow> (feasibility_window \<times> feasibility_window) list \<Rightarrow> string" where
  "generate_explanation count_tasks collisions busy order planned overloads pressure =
     (if count_tasks = 0 then ''You have no active tasks in the selected date range.''
      else join newline
       ([''You have '' @ str_int (int count_tasks) @ '' active task'' @ (if count_tasks \<noteq> 1 then ''s'' else []) @ ''.'']
        @ (if planned > 0 then [''Total planned duration: '' @ str_int planned @ '' minutes (''
             @ fmt_1f (f64_div planned 60) @ '' hours).''] else [])
        @ heading (collisions \<noteq> []) ''Deadline Collisions:''
            (map (\<lambda>c. ''- '' @ strftime_minutes (dc_deadline c) @ '': ''
                   @ join '', '' (map s_task_name (dc_tasks c))) collisions)
        @ heading (busy \<noteq> []) ''Busy Days:''
            (map (\<lambda>w. ''- '' @ strftime_date (bd_date w) @ '': '' @ str_int (int (bd_task_count w)) @ '' tasks'') busy)
        @ heading (overloads \<noteq> []) ''Overload Warnings:''
            (map (\<lambda>w. ''- '' @ strftime_date (ow_date w) @ '': '' @ str_int (ow_planned w) @ '' min planned vs ''
                   @ str_int (ow_budget w) @ '' min budget (overload by '' @ str_int (ow_excess w) @ '' min)'') overloads)
        @ heading (pressure \<noteq> []) ''Scheduling Pressure:''
            (map (\<lambda>(a, b). ''- '' @ fw_task_name a @ '' and '' @ fw_task_name b
                   @ '': feasibility-window overlap indicates scheduling pressure'') pressure)
        @ heading (order \<noteq> []) ''Recommended Order:'' (order_lines order)
        @ [[], if planned > 0 \<or> overloads \<noteq> [] \<or> pressure \<noteq> [] then pressure_note else plain_note]))"

subsection \<open>analyze\<close>

definition analyze_summaries :: "task_summary list \<Rightarrow> int \<Rightarrow> exn + workload_result" where
  "analyze_summaries summaries budget =
     then_do (feasibility_windows summaries) (\<lambda>windows.
     (let collisions = detect_deadline_collisions summaries;
          busy = detect_busy_days summaries;
          order = recommend_order summaries;
          planned = total_planned_minutes summaries;
          pressure = daily_pressures summaries budget;
          overloads = overload_warnings pressure;
          overlaps = detect_scheduling_pressure windows;
          explanation = generate_explanation (length summaries) collisions busy order planned overloads overlaps
      in if planned < 0 then Inl (ValidationError ''Input should be greater than or equal to 0'')
         else Inr \<lparr>w_total_tasks = length summaries, w_deadline_collisions = collisions, w_busy_days = busy,
           w_recommended_order = order, w_explanation = explanation, w_total_planned = planned,
           w_feasibility_windows = windows, w_daily_pressure = pressure, w_overload_warnings = overloads,
           w_scheduling_pressure = convert_scheduling_pressure overlaps\<rparr>))"

definition analyze :: "int \<Rightarrow> work_item list \<Rightarrow> int option \<Rightarrow> exn + workload_result" where
  "analyze default_budget ts budget_minutes =
     (let budget = (case budget_minutes of None \<Rightarrow> default_budget | Some b \<Rightarrow> b) in
      then_do (map_res to_summary (filter_active_tasks ts)) (\<lambda>summaries. analyze_summaries summaries budget))"

subsection \<open>Reports made of groups\<close>

text \<open>Collisions, busy days and daily pressure have one shape: group by a key, keep some groups, report each.\<close>

definition group_report ::
  "('a \<Rightarrow> 'k) \<Rightarrow> ('a list \<Rightarrow> bool) \<Rightarrow> ('k \<Rightarrow> 'a list \<Rightarrow> 'r) \<Rightarrow> 'a list \<Rightarrow> 'r list" where
  "group_report key P h xs = map (\<lambda>(k, ts). h k ts) (filter (\<lambda>(k, ts). P ts) (group_by key xs))"

lemma set_group_report:
  "set (group_report key P h xs) =
     {h k (filter (\<lambda>x. key x = k) xs) | k. k \<in> key ` set xs \<and> P (filter (\<lambda>x. key x = k) xs)}"
  by (auto simp: group_report_def group_by_member image_iff)
    (metis (mono_tags, lifting))

lemma set_group_report_nonempty:
  assumes "\<not> P []"
  shows "set (group_report key P h xs) = {h k (filter (\<lambda>x. key x = k) xs) | k. P (filter (\<lambda>x. key x = k) xs)}"
proof -
  have "k \<in> key ` set xs" if "P (filter (\<lambda>x. key x = k) xs)" for k
  proof -
    have "filter (\<lambda>x. key x = k) xs \<noteq> []" using that assms by metis
    then show ?thesis by (auto simp: filter_empty_conv)
  qed
  then show ?thesis unfolding set_group_report by blast
qed

lemma group_report_keys:
  assumes "\<And>k ts. (k, ts) \<in> set (group_by key xs) \<Longrightarrow> g (h k ts) = k"
  shows "distinct (map g (group_report key P h xs))"
proof -
  have "map g (group_report key P h xs) = map fst (filter (\<lambda>(k, ts). P ts) (group_by key xs))"
    using assms by (auto simp: group_report_def intro!: map_cong)
  then show ?thesis using distinct_group_by [of key xs] by (simp add: distinct_map_filter)
qed

lemma strictly_sorted_sort_key:
  "distinct (map g xs) \<Longrightarrow> sorted_wrt (<) (map g (sort_key g xs))"
  by (simp add: strict_sorted_iff distinct_map)

definition high_at :: "int \<Rightarrow> task_summary list \<Rightarrow> task_summary list" where
  "high_at t S = filter (\<lambda>s. s_priority s = TP_HIGH \<and> s_deadline s \<noteq> None \<and> instant (deadline_of s) = t) S"

definition due_on :: "int \<Rightarrow> task_summary list \<Rightarrow> task_summary list" where
  "due_on day S = filter (\<lambda>s. s_deadline s \<noteq> None \<and> date_of (deadline_of s) = day) S"

definition planned_on :: "int \<Rightarrow> task_summary list \<Rightarrow> task_summary list" where
  "planned_on day S = filter (\<lambda>s. s_deadline s \<noteq> None \<and> s_duration s \<noteq> None \<and> date_of (deadline_of s) = day) S"

lemma collisions_report:
  "detect_deadline_collisions S = sort_key (\<lambda>c. instant (dc_deadline c))
     (group_report (\<lambda>s. instant (deadline_of s)) (\<lambda>ts. length ts \<ge> 2)
        (\<lambda>key ts. \<lparr>dc_deadline = deadline_of (hd ts), dc_tasks = sort_tasks ts\<rparr>)
        (filter (\<lambda>s. s_priority s = TP_HIGH \<and> s_deadline s \<noteq> None) S))"
  by (simp add: detect_deadline_collisions_def group_report_def Let_def)

lemma busy_days_report:
  "detect_busy_days S = sort_key bd_date
     (group_report (\<lambda>s. date_of (deadline_of s)) (\<lambda>ts. length ts > 5)
        (\<lambda>day ts. \<lparr>bd_date = day, bd_task_count = length ts, bd_tasks = sort_tasks ts\<rparr>) (with_deadline S))"
  by (simp add: detect_busy_days_def group_report_def Let_def)

lemma pressures_report:
  "daily_pressures S b = sort_key dp_date
     (group_report (\<lambda>s. date_of (deadline_of s)) (\<lambda>ts. True) (pressure_of b) (planned_tasks S))"
  by (simp add: daily_pressures_def group_report_def)

lemma high_at_filter:
  "filter (\<lambda>s. instant (deadline_of s) = t) (filter (\<lambda>s. s_priority s = TP_HIGH \<and> s_deadline s \<noteq> None) S) = high_at t S"
  by (simp add: high_at_def filter_filter conj_ac)

lemma due_on_filter: "filter (\<lambda>s. date_of (deadline_of s) = day) (with_deadline S) = due_on day S"
  by (simp add: due_on_def with_deadline_def conj_ac)

lemma planned_on_filter: "filter (\<lambda>s. date_of (deadline_of s) = day) (planned_tasks S) = planned_on day S"
  by (simp add: planned_on_def planned_tasks_def conj_ac)

lemma in_image_filter: "filter (\<lambda>x. key x = k) xs \<noteq> [] \<longleftrightarrow> k \<in> key ` set xs"
  by (auto simp: filter_empty_conv image_iff)

lemma set_collisions:
  "set (detect_deadline_collisions S) =
     {\<lparr>dc_deadline = deadline_of (hd (high_at t S)), dc_tasks = sort_tasks (high_at t S)\<rparr> | t. 2 \<le> length (high_at t S)}"
  unfolding collisions_report set_sort by (subst set_group_report_nonempty) (simp_all only: high_at_filter, simp)

lemma set_busy_days:
  "set (detect_busy_days S) =
     {\<lparr>bd_date = day, bd_task_count = length (due_on day S), bd_tasks = sort_tasks (due_on day S)\<rparr> | day.
        5 < length (due_on day S)}"
  unfolding busy_days_report set_sort by (subst set_group_report_nonempty) (simp_all only: due_on_filter, simp)

lemma set_daily_pressures:
  "set (daily_pressures S b) = {pressure_of b day (planned_on day S) | day. planned_on day S \<noteq> []}"
proof -
  have "day \<in> (\<lambda>s. date_of (deadline_of s)) ` set (planned_tasks S) \<longleftrightarrow> planned_on day S \<noteq> []" for day
    using planned_on_filter [of day S] in_image_filter by metis
  then show ?thesis
    unfolding pressures_report set_sort set_group_report planned_on_filter by auto
qed

lemma collisions_sorted: "sorted_wrt (<) (map (\<lambda>c. instant (dc_deadline c)) (detect_deadline_collisions S))"
  unfolding collisions_report
proof (rule strictly_sorted_sort_key, rule group_report_keys)
  let ?H = "filter (\<lambda>s. s_priority s = TP_HIGH \<and> s_deadline s \<noteq> None) S"
  fix k ts assume m: "(k, ts) \<in> set (group_by (\<lambda>s. instant (deadline_of s)) ?H)"
  then have k: "k \<in> (\<lambda>s. instant (deadline_of s)) ` set ?H"
    and ts: "ts = filter (\<lambda>s. instant (deadline_of s) = k) ?H"
    unfolding group_by_member by blast+
  have "ts \<noteq> []" unfolding ts by (rule iffD2 [OF in_image_filter k])
  then have "hd ts \<in> set ts" by simp
  then show "instant (dc_deadline \<lparr>dc_deadline = deadline_of (hd ts), dc_tasks = sort_tasks ts\<rparr>) = k"
    unfolding ts by simp
qed

lemma busy_days_sorted: "sorted_wrt (<) (map bd_date (detect_busy_days S))"
  unfolding busy_days_report by (rule strictly_sorted_sort_key, rule group_report_keys) simp

lemma daily_pressures_sorted: "sorted_wrt (<) (map dp_date (daily_pressures S b))"
  unfolding pressures_report
  by (rule strictly_sorted_sort_key, rule group_report_keys) (simp add: pressure_of_def Let_def)

subsection \<open>Orders, windows, sums\<close>

lemma sort_tasks_facts: "mset (sort_tasks ts) = mset ts" "set (sort_tasks ts) = set ts"
  "length (sort_tasks ts) = length ts" "sorted (map sort_tasks_key (sort_tasks ts))"
  by (simp_all add: sort_tasks_def)

lemma set_pairs: "set (pairs xs) = {(xs ! i, xs ! j) | i j. i < j \<and> j < length xs}"
proof (induction xs)
  case (Cons x xs)
  have "{((x # xs) ! i, (x # xs) ! j) | i j. i < j \<and> j < length (x # xs)} =
      {(x, xs ! j) | j. j < length xs} \<union> {(xs ! i, xs ! j) | i j. i < j \<and> j < length xs}" (is "?L = ?A \<union> ?B")
  proof (intro set_eqI iffI)
    fix p assume "p \<in> ?L"
    then obtain i j where p: "p = ((x # xs) ! i, (x # xs) ! j)" "i < j" "j < Suc (length xs)" by auto
    then obtain j' where j: "j = Suc j'" by (cases j) auto
    show "p \<in> ?A \<union> ?B"
    proof (cases i)
      case 0
      with p j have "p = (x, xs ! j')" "j' < length xs" by auto
      then show ?thesis by blast
    next
      case (Suc i')
      with p j have "p = (xs ! i', xs ! j')" "i' < j'" "j' < length xs" by auto
      then show ?thesis by blast
    qed
  next
    fix p assume "p \<in> ?A \<union> ?B"
    then consider j where "p = (x, xs ! j)" "j < length xs"
      | i j where "p = (xs ! i, xs ! j)" "i < j" "j < length xs" by auto
    then show "p \<in> ?L"
    proof cases
      case 1
      then have "p = ((x # xs) ! 0, (x # xs) ! Suc j)" "0 < Suc j" "Suc j < length (x # xs)" by auto
      then show ?thesis by blast
    next
      case 2
      then have "p = ((x # xs) ! Suc i, (x # xs) ! Suc j)" "Suc i < Suc j" "Suc j < length (x # xs)" by auto
      then show ?thesis by blast
    qed
  qed
  moreover have "set (map (Pair x) xs) = {(x, xs ! j) | j. j < length xs}"
    by (force simp: in_set_conv_nth)
  ultimately show ?case using Cons by simp
qed simp

lemma window_of_Inr:
  "window_of s = Inr w \<longleftrightarrow> wall_ok (wall (deadline_of s) - duration_of s * MINUTE_US) \<and>
     w = \<lparr>fw_task_id = s_id s, fw_task_name = s_task_name s, fw_deadline = deadline_of s,
          fw_duration = duration_of s,
          fw_latest_start = (deadline_of s)\<lparr>wall := wall (deadline_of s) - duration_of s * MINUTE_US\<rparr>\<rparr>"
  by (auto simp: window_of_def then_do_eq_Inr shift_Inr_iff)

lemma window_instants:
  "window_of s = Inr w \<Longrightarrow> instant (fw_deadline w) = instant (deadline_of s) \<and>
     instant (fw_latest_start w) = instant (deadline_of s) - duration_of s * MINUTE_US"
  by (auto simp: window_of_Inr instant_def)

lemma feasibility_windows_Inr:
  assumes "feasibility_windows S = Inr W"
  shows "mset W = mset (map (\<lambda>s. projr (window_of s)) (planned_tasks S))"
    and "sorted (map (\<lambda>w. (instant (fw_deadline w), fw_task_name w)) W)"
    and "\<And>s. s \<in> set (planned_tasks S) \<Longrightarrow> \<exists>w. window_of s = Inr w"
proof -
  obtain ws where ws: "map_res window_of (planned_tasks S) = Inr ws"
    "W = sort_key (\<lambda>w. (instant (fw_deadline w), fw_task_name w)) ws"
    using assms by (auto simp: feasibility_windows_def then_do_eq_Inr)
  have all: "list_all2 (\<lambda>s w. window_of s = Inr w) (planned_tasks S) ws"
    using ws(1) by (simp add: map_res_Inr_iff)
  then have "ws = map (\<lambda>s. projr (window_of s)) (planned_tasks S)"
    by (auto simp: list_all2_conv_all_nth intro!: nth_equalityI)
  then show "mset W = mset (map (\<lambda>s. projr (window_of s)) (planned_tasks S))"
    using ws(2) by simp
  show "sorted (map (\<lambda>w. (instant (fw_deadline w), fw_task_name w)) W)" using ws(2) by simp
  show "\<exists>w. window_of s = Inr w" if "s \<in> set (planned_tasks S)" for s
    using all that by (auto simp: list_all2_conv_all_nth in_set_conv_nth)
qed

lemma feasibility_windows_fails:
  "(\<exists>e. feasibility_windows S = Inl e) \<longleftrightarrow> (\<exists>s \<in> set (planned_tasks S). window_of s = Inl OverflowError)"
proof -
  have *: "(\<exists>e. window_of s = Inl e) \<longleftrightarrow> window_of s = Inl OverflowError" for s
    by (auto simp: window_of_def shift_def Let_def then_do_eq_Inl)
  have "(\<exists>e. feasibility_windows S = Inl e) \<longleftrightarrow> (\<exists>e. map_res window_of (planned_tasks S) = Inl e)"
    by (auto simp: feasibility_windows_def then_do_eq_Inl)
  then show ?thesis by (simp add: map_res_Inl_iff *)
qed

lemma sum_add_group:
  "sum_list (map (\<lambda>(k, ts). sum_list (map f ts)) (add_group key x gs)) =
     sum_list (map (\<lambda>(k, ts). sum_list (map f ts)) gs) + (f x :: int)"
  by (induction key x gs rule: add_group.induct) auto

lemma sum_group_by:
  "sum_list (map (\<lambda>(k, ts). sum_list (map f ts)) (group_by key xs)) = (sum_list (map f xs) :: int)"
  by (induction xs rule: rev_induct) (auto simp: group_by_snoc sum_add_group)

lemma sum_list_sort_key: "sum_list (map f (sort_key g xs)) = (sum_list (map f xs) :: int)"
  by (metis mset_map mset_sort sum_mset_sum_list)

lemma sum_daily_pressures: "sum_list (map dp_planned (daily_pressures S b)) = sum_list (map duration_of (planned_tasks S))"
proof -
  have "sum_list (map dp_planned (daily_pressures S b)) =
      sum_list (map (\<lambda>(k, ts). sum_list (map duration_of ts)) (group_by (\<lambda>s. date_of (deadline_of s)) (planned_tasks S)))"
    by (simp add: daily_pressures_def sum_list_sort_key comp_def case_prod_unfold pressure_of_def Let_def)
  then show ?thesis by (simp add: sum_group_by)
qed

subsection \<open>When the analysis fails, and what it returns\<close>

lemma to_summary_fails:
  "(\<exists>e. to_summary (OrmTask t) = Inl e) \<longleftrightarrow>
     t_priority t \<notin> range priority_value \<or> t_status t \<notin> range status_value"
proof -
  have "(\<exists>e. to_summary (OrmTask t) = Inl e) \<longleftrightarrow>
      (\<forall>p. task_priority_of (t_priority t) \<noteq> Inr p) \<or> (\<forall>p. task_status_of (t_status t) \<noteq> Inr p)"
    by (cases "task_priority_of (t_priority t)"; cases "task_status_of (t_status t)") auto
  then show ?thesis by (auto simp: task_priority_of_Inr task_status_of_Inr)
qed

lemma active_status_valid: "st \<in> active_statuses \<Longrightarrow> st \<in> range status_value"
  by (auto simp: active_statuses_def simp del: status_value.simps)

lemma analyze_Inr:
  "analyze b ts o' = Inr r \<longleftrightarrow> (\<exists>S W. map_res to_summary (filter_active_tasks ts) = Inr S \<and>
     feasibility_windows S = Inr W \<and> 0 \<le> total_planned_minutes S \<and>
     r = \<lparr>w_total_tasks = length S, w_deadline_collisions = detect_deadline_collisions S,
          w_busy_days = detect_busy_days S, w_recommended_order = sort_tasks S,
          w_explanation = generate_explanation (length S) (detect_deadline_collisions S) (detect_busy_days S)
            (sort_tasks S) (total_planned_minutes S)
            (overload_warnings (daily_pressures S (case o' of None \<Rightarrow> b | Some c \<Rightarrow> c)))
            (detect_scheduling_pressure W),
          w_total_planned = total_planned_minutes S, w_feasibility_windows = W,
          w_daily_pressure = daily_pressures S (case o' of None \<Rightarrow> b | Some c \<Rightarrow> c),
          w_overload_warnings = overload_warnings (daily_pressures S (case o' of None \<Rightarrow> b | Some c \<Rightarrow> c)),
          w_scheduling_pressure = convert_scheduling_pressure (detect_scheduling_pressure W)\<rparr>)"
  by (auto simp: analyze_def analyze_summaries_def then_do_eq_Inr Let_def recommend_order_def)

lemma summary_of_item:
  "to_summary w = Inr s \<Longrightarrow> (case w of OrmTask t \<Rightarrow>
     s_id s = t_id t \<and> s_task_name s = t_name t \<and> priority_value (s_priority s) = t_priority t \<and>
     status_value (s_status s) = t_status t \<and> s_deadline s = Some (t_deadline t) \<and> s_duration s = t_duration t
   | Summary s' \<Rightarrow> s = s')"
  by (cases w) (auto simp: then_do_eq_Inr task_priority_of_Inr task_status_of_Inr)

subsection \<open>Properties\<close>

lemma sort_tasks_idem: "sort_tasks (sort_tasks ts) = sort_tasks ts"
  by (simp add: sort_tasks_def sort_key_id_if_sorted)

lemma set_overload_warnings:
  "set (overload_warnings (daily_pressures S b)) =
     (\<lambda>day. overload_of (pressure_of b day (planned_on day S)))
       ` {day. planned_on day S \<noteq> [] \<and> b < sum_list (map duration_of (planned_on day S))}"
proof -
  have "{x \<in> f ` A. P x} = f ` {a \<in> A. P (f a)}" for f :: "int \<Rightarrow> daily_pressure" and A P by blast
  then show ?thesis
    unfolding overload_warnings_def set_map set_filter set_daily_pressures setcompr_eq_image
    by (simp add: image_image pressure_of_def Let_def)
qed

text \<open>C30: Deadline collisions are exact: one report, in time order, for every instant at which at least two
  HIGH tasks are due, none for any other instant, and it lists exactly those tasks, each as often as it
  was given, in the recommended order.\<close>

theorem collisions_exact:
  "sorted_wrt (<) (map (\<lambda>c. instant (dc_deadline c)) (detect_deadline_collisions S)) \<and>
   (\<lambda>c. (instant (dc_deadline c), mset (dc_tasks c), dc_tasks c = sort_tasks (dc_tasks c))) ` set (detect_deadline_collisions S) =
     {(t, mset (filter (\<lambda>s. s_priority s = TP_HIGH \<and> s_deadline s \<noteq> None \<and> instant (deadline_of s) = t) S), True) | t.
        2 \<le> length (filter (\<lambda>s. s_priority s = TP_HIGH \<and> s_deadline s \<noteq> None \<and> instant (deadline_of s) = t) S)}"
proof -
  have "instant (deadline_of (hd (high_at t S))) = t" if "2 \<le> length (high_at t S)" for t
  proof -
    have "hd (high_at t S) \<in> set (high_at t S)" using that by (cases "high_at t S") auto
    then show ?thesis by (auto simp: high_at_def)
  qed
  then show ?thesis
    unfolding high_at_def [symmetric] set_collisions setcompr_eq_image image_image
    by (intro conjI collisions_sorted image_cong refl) (simp add: sort_tasks_facts sort_tasks_idem)
qed

text \<open>Busy days are exact: in calendar order, one warning for every day on which more than five active
  tasks are due and for no other, with the number of the tasks and the tasks.\<close>

lemma busy_days_exact:
  "sorted_wrt (<) (map bd_date (detect_busy_days S)) \<and>
   (\<lambda>w. (bd_date w, bd_task_count w, mset (bd_tasks w))) ` set (detect_busy_days S) =
     (\<lambda>day. let due = filter (\<lambda>s. s_deadline s \<noteq> None \<and> date_of (deadline_of s) = day) S in (day, length due, mset due))
       ` {day. 5 < length (filter (\<lambda>s. s_deadline s \<noteq> None \<and> date_of (deadline_of s) = day) S)}"
  unfolding due_on_def [symmetric] set_busy_days setcompr_eq_image image_image
  by (intro conjI busy_days_sorted image_cong refl) (simp add: sort_tasks_facts Let_def)

text \<open>C31: Daily pressure conserves the planned work: every minute of a task with a deadline and a duration is
  counted on exactly one day, the day of its deadline; and a day is reported as overloaded exactly when
  its minutes exceed the budget, with the excess.\<close>

theorem pressure_conserves_minutes:
  "sum_list (map dp_planned (daily_pressures S b)) =
     sum_list (map duration_of (filter (\<lambda>s. s_deadline s \<noteq> None \<and> s_duration s \<noteq> None) S)) \<and>
   sorted_wrt (<) (map dp_date (daily_pressures S b)) \<and>
   (\<lambda>p. (dp_date p, dp_planned p)) ` set (daily_pressures S b) =
     (\<lambda>day. (day, sum_list (map duration_of (planned_on day S)))) ` {day. planned_on day S \<noteq> []} \<and>
   (\<lambda>w. (ow_date w, ow_planned w, ow_excess w)) ` set (overload_warnings (daily_pressures S b)) =
     (\<lambda>day. let planned = sum_list (map duration_of (planned_on day S)) in (day, planned, planned - b))
       ` {day. planned_on day S \<noteq> [] \<and> b < sum_list (map duration_of (planned_on day S))}"
proof (intro conjI)
  show "sum_list (map dp_planned (daily_pressures S b)) =
     sum_list (map duration_of (filter (\<lambda>s. s_deadline s \<noteq> None \<and> s_duration s \<noteq> None) S))"
    using sum_daily_pressures [of S b] by (simp add: planned_tasks_def)
  show "sorted_wrt (<) (map dp_date (daily_pressures S b))" by (rule daily_pressures_sorted)
  have p: "dp_date (pressure_of b day ts) = day" "dp_planned (pressure_of b day ts) = sum_list (map duration_of ts)"
    "dp_budget (pressure_of b day ts) = b" for day ts
    by (simp_all add: pressure_of_def Let_def)
  show "(\<lambda>p. (dp_date p, dp_planned p)) ` set (daily_pressures S b) =
     (\<lambda>day. (day, sum_list (map duration_of (planned_on day S)))) ` {day. planned_on day S \<noteq> []}"
    unfolding set_daily_pressures setcompr_eq_image image_image by (simp add: p)
  show "(\<lambda>w. (ow_date w, ow_planned w, ow_excess w)) ` set (overload_warnings (daily_pressures S b)) =
     (\<lambda>day. let planned = sum_list (map duration_of (planned_on day S)) in (day, planned, planned - b))
       ` {day. planned_on day S \<noteq> [] \<and> b < sum_list (map duration_of (planned_on day S))}"
    unfolding set_overload_warnings image_image by (simp add: p overload_of_def Let_def)
qed

text \<open>Scheduling pressure is exact: two tasks are reported exactly when the interiors of their feasibility
  windows (latest start to deadline) meet, each pair of positions once and named alphabetically, with
  the common part of the two windows, which is never empty.\<close>

lemma scheduling_pressure_exact:
  "mset (map (\<lambda>p. {sp_task_a_name p, sp_task_b_name p}) (convert_scheduling_pressure (detect_scheduling_pressure W))) =
     mset (map (\<lambda>(a, b). {fw_task_name a, fw_task_name b})
       (filter (\<lambda>(a, b). max (instant (fw_latest_start a)) (instant (fw_latest_start b))
          < min (instant (fw_deadline a)) (instant (fw_deadline b))) (pairs W))) \<and>
   set (pairs W) = {(W ! i, W ! j) | i j. i < j \<and> j < length W} \<and>
   list_all (\<lambda>p. sp_task_a_name p \<le> sp_task_b_name p \<and> instant (sp_overlap_start p) < instant (sp_overlap_end p) \<and>
       (\<exists>a b. {a, b} \<subseteq> set W \<and> fw_task_id a = sp_task_a_id p \<and> fw_task_id b = sp_task_b_id p \<and>
          instant (sp_overlap_start p) = max (instant (fw_latest_start a)) (instant (fw_latest_start b)) \<and>
          instant (sp_overlap_end p) = min (instant (fw_deadline a)) (instant (fw_deadline b))))
     (convert_scheduling_pressure (detect_scheduling_pressure W))"
proof -
  have s: "instant (overlap_start a b) = max (instant (fw_latest_start a)) (instant (fw_latest_start b))"
    "instant (overlap_end a b) = min (instant (fw_deadline a)) (instant (fw_deadline b))" for a b
    by (simp_all add: overlap_start_def overlap_end_def dt_max_def dt_min_def max_def min_def)
  have sym: "windows_overlap a b \<longleftrightarrow> windows_overlap b a" for a b
    by (simp add: windows_overlap_def s max.commute min.commute)
  let ?D = "detect_scheduling_pressure W"
  let ?F = "filter (\<lambda>(a, b). windows_overlap a b) (pairs W)"
  have F: "?F = filter (\<lambda>(a, b). max (instant (fw_latest_start a)) (instant (fw_latest_start b))
          < min (instant (fw_deadline a)) (instant (fw_deadline b))) (pairs W)"
    by (simp add: windows_overlap_def s)
  have "mset ?D = image_mset name_order (mset ?F)" by (simp add: detect_scheduling_pressure_def)
  then have "image_mset (\<lambda>(a, b). {fw_task_name a, fw_task_name b}) (mset ?D) =
      image_mset ((\<lambda>(a, b). {fw_task_name a, fw_task_name b}) \<circ> name_order) (mset ?F)"
    by (simp add: image_mset.compositionality)
  moreover have "(\<lambda>(a, b). {fw_task_name a, fw_task_name b}) \<circ> name_order = (\<lambda>(a, b). {fw_task_name a, fw_task_name b})"
    by (auto simp: name_order_def fun_eq_iff)
  moreover have "image_mset (\<lambda>p. {sp_task_a_name p, sp_task_b_name p}) (mset (convert_scheduling_pressure ?D)) =
      image_mset (\<lambda>(a, b). {fw_task_name a, fw_task_name b}) (mset ?D)"
    by (simp add: convert_scheduling_pressure_def image_mset.compositionality comp_def case_prod_unfold)
  ultimately have 1: "mset (map (\<lambda>p. {sp_task_a_name p, sp_task_b_name p}) (convert_scheduling_pressure ?D)) =
      mset (map (\<lambda>(a, b). {fw_task_name a, fw_task_name b}) ?F)" by (simp only: mset_map)
  have 3: "fw_task_name a \<le> fw_task_name b \<and> windows_overlap a b \<and> {a, b} \<subseteq> set W" if m: "(a, b) \<in> set ?D" for a b
  proof -
    obtain x y where xy: "(x, y) \<in> set (pairs W)" "windows_overlap x y" "(a, b) = name_order (x, y)"
      using m by (auto simp: detect_scheduling_pressure_def)
    then have "{x, y} \<subseteq> set W" by (auto simp: set_pairs)
    with xy sym show ?thesis by (auto simp: name_order_def split: if_splits)
  qed
  have "list_all (\<lambda>p. sp_task_a_name p \<le> sp_task_b_name p \<and> instant (sp_overlap_start p) < instant (sp_overlap_end p) \<and>
       (\<exists>a b. {a, b} \<subseteq> set W \<and> fw_task_id a = sp_task_a_id p \<and> fw_task_id b = sp_task_b_id p \<and>
          instant (sp_overlap_start p) = max (instant (fw_latest_start a)) (instant (fw_latest_start b)) \<and>
          instant (sp_overlap_end p) = min (instant (fw_deadline a)) (instant (fw_deadline b))))
     (convert_scheduling_pressure ?D)"
    unfolding list_all_iff convert_scheduling_pressure_def
    using 3 s by (fastforce simp: windows_overlap_def)
  then show ?thesis unfolding 1 F using set_pairs by blast
qed

definition active_tasks :: "task list \<Rightarrow> task list" where
  "active_tasks ts = filter (\<lambda>t. t_status t = ''TODO'' \<or> t_status t = ''IN_PROGRESS'') ts"

lemma filter_active_orm: "filter_active_tasks (map OrmTask ts) = map OrmTask (active_tasks ts)"
  by (simp add: filter_active_tasks_def active_tasks_def filter_map comp_def active_statuses_def)

lemma summaries_fields:
  assumes "map_res to_summary (map OrmTask ts) = Inr S"
  shows "map s_id S = map t_id ts" and "map s_deadline S = map (\<lambda>t. Some (t_deadline t)) ts"
    and "map s_duration S = map t_duration ts" and "length S = length ts"
proof -
  have all: "list_all2 (\<lambda>t s. to_summary (OrmTask t) = Inr s) ts S"
    using assms by (simp add: map_res_Inr_iff list_all2_map1)
  have each: "s_id (S ! i) = t_id (ts ! i) \<and> s_deadline (S ! i) = Some (t_deadline (ts ! i)) \<and> s_duration (S ! i) = t_duration (ts ! i)"
    if "i < length S" for i
    using summary_of_item [OF list_all2_nthD2 [OF all that]] by simp
  show len: "length S = length ts" using all by (simp add: list_all2_lengthD)
  show "map s_id S = map t_id ts" "map s_deadline S = map (\<lambda>t. Some (t_deadline t)) ts" "map s_duration S = map t_duration ts"
    using len each by (simp_all add: list_eq_iff_nth_eq)
qed

lemma active_summaries_fail:
  "(\<exists>e. map_res to_summary (map OrmTask (active_tasks ts)) = Inl e) \<longleftrightarrow>
     \<not> list_all (\<lambda>t. t_priority t \<in> range priority_value) (active_tasks ts)"
proof -
  have st: "t_status t \<in> range status_value" if "t \<in> set (active_tasks ts)" for t
    using that rangeI [of status_value TS_TODO] rangeI [of status_value TS_IN_PROGRESS] by (auto simp: active_tasks_def)
  have "(\<exists>e. map_res to_summary (map OrmTask (active_tasks ts)) = Inl e) \<longleftrightarrow>
      (\<exists>t \<in> set (active_tasks ts). \<exists>e. to_summary (OrmTask t) = Inl e)"
    by (simp add: map_res_Inl_iff)
  then show ?thesis unfolding to_summary_fails using st by (auto simp: list_all_iff)
qed

lemma windows_of_tasks_fail:
  assumes "map_res to_summary (map OrmTask ts) = Inr S"
  shows "(\<exists>e. feasibility_windows S = Inl e) \<longleftrightarrow> \<not> list_all (\<lambda>t.
    case t_duration t of None \<Rightarrow> True | Some m \<Rightarrow> wall_ok (wall (t_deadline t) - m * MINUTE_US)) ts"
proof -
  have w: "window_of s = Inl OverflowError \<longleftrightarrow> \<not> wall_ok (wall (deadline_of s) - duration_of s * MINUTE_US)" for s
    by (auto simp: window_of_def shift_def Let_def)
  note f = summaries_fields [OF assms]
  have each: "s_deadline (S ! i) = Some (t_deadline (ts ! i))" "s_duration (S ! i) = t_duration (ts ! i)" if "i < length ts" for i
    using f that by (metis nth_map)+
  have "(\<exists>e. feasibility_windows S = Inl e) \<longleftrightarrow> (\<exists>s \<in> set S. s \<in> set (planned_tasks S) \<and> window_of s = Inl OverflowError)"
    unfolding feasibility_windows_fails by (auto simp: planned_tasks_def)
  also have "\<dots> \<longleftrightarrow> (\<exists>i < length ts. s_duration (S ! i) \<noteq> None \<and> window_of (S ! i) = Inl OverflowError)"
    using each f(4) by (fastforce simp: planned_tasks_def in_set_conv_nth)
  also have "\<dots> \<longleftrightarrow> (\<exists>i < length ts. \<not> (case t_duration (ts ! i) of None \<Rightarrow> True
       | Some m \<Rightarrow> wall_ok (wall (t_deadline (ts ! i)) - m * MINUTE_US)))"
    unfolding w using each by (intro ex_cong1 conj_cong refl) (simp add: deadline_of_def duration_of_def split: option.split)
  finally show ?thesis by (simp only: list_all_length) blast
qed

lemma total_of_tasks:
  assumes "map_res to_summary (map OrmTask ts) = Inr S"
  shows "total_planned_minutes S = sum_list (map (\<lambda>t. case t_duration t of None \<Rightarrow> 0 | Some m \<Rightarrow> m) ts)"
proof -
  have "map duration_of S = map (\<lambda>d. case d of None \<Rightarrow> 0 | Some m \<Rightarrow> m) (map s_duration S)" by (simp add: duration_of_def)
  then have "map duration_of S = map (\<lambda>t. case t_duration t of None \<Rightarrow> 0 | Some m \<Rightarrow> m) ts"
    unfolding summaries_fields [OF assms] by (simp add: comp_def)
  moreover have "sum_list (map duration_of (filter (\<lambda>s. s_duration s \<noteq> None) L)) = sum_list (map duration_of L)" for L
    by (induction L) (auto simp: duration_of_def)
  ultimately show ?thesis by (simp add: total_planned_minutes_def)
qed

text \<open>C32: The recommended order loses and invents nothing: it lists exactly the active tasks, each once, by
  deadline, then by priority from HIGH to LOW, then by name, and the number of tasks reported is theirs.\<close>

theorem recommended_order_complete:
  assumes "analyze b (map OrmTask ts) bo = Inr r"
  shows "mset (map s_id (w_recommended_order r)) = mset (map t_id (active_tasks ts)) \<and>
    w_total_tasks r = length (active_tasks ts) \<and>
    sorted (map (\<lambda>s. (instant (deadline_of s), priority_order (s_priority s), s_task_name s)) (w_recommended_order r))"
proof -
  obtain S where S: "map_res to_summary (map OrmTask (active_tasks ts)) = Inr S"
    and r: "w_recommended_order r = sort_tasks S" "w_total_tasks r = length S"
    using assms unfolding analyze_Inr filter_active_orm by auto
  note f = summaries_fields [OF S]
  have "None \<notin> s_deadline ` set S" using f(2) by (metis (no_types, lifting) image_iff option.distinct(1) set_map)
  then have dl: "\<exists>x. s_deadline s = Some x" if "s \<in> set S" for s using that by (metis image_eqI not_Some_eq)
  have eq: "map sort_tasks_key (sort_tasks S) = map (\<lambda>s. (False, instant (deadline_of s), priority_order (s_priority s), s_task_name s)) (sort_tasks S)"
    using dl by (fastforce simp: sort_tasks_facts sort_tasks_key_def deadline_of_def)
  have "sorted (map (\<lambda>s. (False, instant (deadline_of s), priority_order (s_priority s), s_task_name s)) (sort_tasks S))"
    unfolding eq [symmetric] by (rule sort_tasks_facts(4))
  then have "sorted (map (\<lambda>s. (instant (deadline_of s), priority_order (s_priority s), s_task_name s)) (sort_tasks S))"
    by (simp add: sorted_map less_eq_prod_def)
  moreover have "mset (map s_id (sort_tasks S)) = mset (map t_id (active_tasks ts))"
    unfolding f(1) [symmetric] by (simp add: sort_tasks_facts)
  ultimately show ?thesis using r f(4) by simp
qed

lemma recommended_order_complete_witness:
  "\<exists>r. analyze 480 (map OrmTask [sample_task 1 5000000000, (sample_task 2 500)\<lparr>t_status := ''COMPLETED''\<rparr>]) None = Inr r \<and>
     w_total_tasks r = 1 \<and> map s_id (w_recommended_order r) = [1]"
proof -
  let ?ts = "[sample_task 1 5000000000, (sample_task 2 500)\<lparr>t_status := ''COMPLETED''\<rparr>]"
  obtain r where r: "analyze 480 (map OrmTask ?ts) None = Inr r"
    by (auto simp: analyze_Inr filter_active_tasks_def active_statuses_def sample_simps task_priority_of_def task_status_of_def
        feasibility_windows_def planned_tasks_def total_planned_minutes_def window_of_def deadline_of_def duration_of_def
        shift_def wall_ok_def MAX_ORD_def DAY_US_def MINUTE_US_def)
  from recommended_order_complete [OF r] have "mset (map s_id (w_recommended_order r)) = mset [1]" "w_total_tasks r = 1"
    by (simp_all add: sample_simps active_tasks_def)
  then show ?thesis using r by (metis mset_single_iff_right mset.simps)
qed

text \<open>C29: When the analysis works: exactly if every active task has a priority of the enum, subtracting its
  duration from its deadline stays in the calendar, and the durations do not sum to less than nothing.
  One active task with another priority text, or with a duration that reaches before year 1, makes the
  whole analysis fail.\<close>

theorem analysis_succeeds_iff:
  "(\<exists>r. analyze b (map OrmTask ts) bo = Inr r) \<longleftrightarrow>
     list_all (\<lambda>t. t_priority t \<in> range priority_value) (active_tasks ts) \<and>
     list_all (\<lambda>t. case t_duration t of None \<Rightarrow> True | Some m \<Rightarrow> wall_ok (wall (t_deadline t) - m * MINUTE_US)) (active_tasks ts) \<and>
     0 \<le> sum_list (map (\<lambda>t. case t_duration t of None \<Rightarrow> 0 | Some m \<Rightarrow> m) (active_tasks ts))"
proof (cases "map_res to_summary (map OrmTask (active_tasks ts))")
  case (Inl e)
  then show ?thesis using active_summaries_fail [of ts] by (auto simp: analyze_Inr filter_active_orm)
next
  case (Inr S)
  have "(\<exists>r. analyze b (map OrmTask ts) bo = Inr r) \<longleftrightarrow> (\<nexists>e. feasibility_windows S = Inl e) \<and> 0 \<le> total_planned_minutes S"
    unfolding analyze_Inr filter_active_orm Inr by (cases "feasibility_windows S") auto
  then show ?thesis
    using active_summaries_fail [of ts] Inr windows_of_tasks_fail [OF Inr] total_of_tasks [OF Inr] by auto
qed

end
