(* ===== verification/Rescheduling.thy ===== *)
theory Rescheduling
  imports Workload PyUuid
begin

text \<open>
  \<^verbatim>\<open>services/rescheduling_constraint_service.py\<close>, \<^verbatim>\<open>rescheduling_candidate_service.py\<close> and
  \<^verbatim>\<open>rescheduling_suggestion_service.py\<close>. A task is a work item: the services are written for
  \<open>TaskSummary\<close> and read only attributes that the ORM's \<open>Task\<close> also has, and the executor passes
  them \<open>Task\<close>s; but a result that lists a \<open>Task\<close> where its schema wants a \<open>TaskSummary\<close> is a
  \<open>ValidationError\<close>.
\<close>

record candidate_slot =
  cs_start :: datetime
  cs_end :: datetime
  cs_available :: int

record rescheduling_suggestion =
  rs_task_id :: uuid
  rs_task_name :: string
  rs_duration :: int
  rs_current_deadline :: datetime
  rs_slot :: candidate_slot
  rs_reason :: string

record rescheduling_result =
  rr_suggestions :: "rescheduling_suggestion list"
  rr_overloaded_days :: "int list"
  rr_unscheduled :: "task_summary list"

subsection \<open>The attributes the services read\<close>

fun item_id :: "work_item \<Rightarrow> uuid" where
  "item_id (OrmTask t) = t_id t" | "item_id (Summary s) = s_id s"

fun item_name :: "work_item \<Rightarrow> string" where
  "item_name (OrmTask t) = t_name t" | "item_name (Summary s) = s_task_name s"

fun item_deadline :: "work_item \<Rightarrow> datetime option" where
  "item_deadline (OrmTask t) = Some (t_deadline t)" | "item_deadline (Summary s) = s_deadline s"

fun item_duration :: "work_item \<Rightarrow> int option" where
  "item_duration (OrmTask t) = t_duration t" | "item_duration (Summary s) = s_duration s"

fun item_priority :: "work_item \<Rightarrow> string" where
  "item_priority (OrmTask t) = t_priority t" | "item_priority (Summary s) = priority_value (s_priority s)"

subsection \<open>ReschedulingConstraintService\<close>

definition mk_slot :: "datetime \<Rightarrow> datetime \<Rightarrow> int \<Rightarrow> exn + candidate_slot" where
  \<comment> \<open>CandidateSlot(...) with its field constraint and \<^verbatim>\<open>model_post_init\<close>\<close>
  "mk_slot start fin available =
     (if available \<le> 0 then Inl (ValidationError ''Input should be greater than 0'')
      else if instant fin \<le> instant start then Inl (ValidationError ''CandidateSlot end must be after start'')
      else Inr \<lparr>cs_start = start, cs_end = fin, cs_available = available\<rparr>)"

definition minutes_between :: "datetime \<Rightarrow> datetime \<Rightarrow> int" where
  \<comment> \<open>\<^verbatim>\<open>int((b - a).total_seconds() / 60)\<close>: two quotients of doubles, then towards zero\<close>
  "minutes_between a b = f64_trunc (f64_div_int (f64_div (instant b - instant a) 1000000) 60)"

definition counts_on :: "work_item \<Rightarrow> int \<Rightarrow> work_item \<Rightarrow> bool" where
  \<comment> \<open>another active task with a duration, due on that day\<close>
  "counts_on task day other \<longleftrightarrow> item_id other \<noteq> item_id task \<and>
     (case item_deadline other of None \<Rightarrow> False | Some dl \<Rightarrow> date_of dl = day) \<and>
     item_duration other \<noteq> None \<and> item_status other \<in> active_statuses"

definition minutes_of :: "work_item \<Rightarrow> int" where
  "minutes_of w = (case item_duration w of None \<Rightarrow> 0 | Some m \<Rightarrow> m)"

definition has_remaining_capacity :: "work_item \<Rightarrow> int \<Rightarrow> work_item list \<Rightarrow> int \<Rightarrow> bool" where
  "has_remaining_capacity task day all_tasks budget \<longleftrightarrow>
     sum_list (map minutes_of (filter (counts_on task day) all_tasks)) + minutes_of task \<le> budget"

definition find_candidate_slots :: "work_item \<Rightarrow> work_item list \<Rightarrow> int \<Rightarrow> exn + candidate_slot list" where
  "find_candidate_slots task all_tasks budget =
     (case (item_duration task, item_deadline task) of
        (Some duration, Some deadline) \<Rightarrow>
          if duration \<le> 0 then Inr []
          else then_do (shift deadline (- duration * MINUTE_US)) (\<lambda>candidate_start.
            if minutes_between candidate_start deadline < duration then Inr []
            else if all_tasks \<noteq> [] \<and> \<not> has_remaining_capacity task (date_of candidate_start) all_tasks budget
            then Inr []
            else then_do (mk_slot candidate_start deadline duration) (\<lambda>slot. Inr [slot]))
      | _ \<Rightarrow> Inr [])"

definition validate_candidate :: "work_item \<Rightarrow> candidate_slot \<Rightarrow> work_item list \<Rightarrow> int \<Rightarrow> exn + bool" where
  "validate_candidate task slot all_tasks budget =
     (case (item_duration task, item_deadline task) of
        (Some duration, Some deadline) \<Rightarrow>
          if duration \<le> 0 then Inr False
          else if minutes_between (cs_start slot) (cs_end slot) < duration then Inr False
          else if instant (cs_end slot) > instant deadline then Inr False
          else then_do (shift deadline (- duration * MINUTE_US)) (\<lambda>latest_start.
            Inr (\<not> instant (cs_start slot) < instant latest_start \<and>
                 \<not> instant (cs_end slot) \<le> instant (cs_start slot) \<and>
                 \<not> cs_available slot < duration \<and>
                 (all_tasks = [] \<or> has_remaining_capacity task (date_of (cs_start slot)) all_tasks budget)))
      | _ \<Rightarrow> Inr False)"

subsection \<open>ReschedulingCandidateService\<close>

definition reschedule_reason :: string where
  "reschedule_reason = ''Fits within the task feasibility window and remaining daily capacity.''"

definition priority_key :: "string \<Rightarrow> int" where
  "priority_key p = (if p = ''HIGH'' then 0 else if p = ''MEDIUM'' then 1 else if p = ''LOW'' then 2 else 99)"

definition task_sort_key :: "work_item \<Rightarrow> bool \<times> int \<times> int \<times> string \<times> string" where
  "task_sort_key w =
     (item_deadline w = None, (case item_deadline w of None \<Rightarrow> 0 | Some dl \<Rightarrow> instant dl),
      priority_key (item_priority w), item_name w, uuid_str (item_id w))"

datatype placement = Skipped | Unscheduled | Suggested rescheduling_suggestion

definition place_task :: "work_item list \<Rightarrow> int \<Rightarrow> work_item \<Rightarrow> exn + placement" where
  \<comment> \<open>the body of the loop over the tasks\<close>
  "place_task unique budget task =
     (if item_status task \<notin> active_statuses then Inr Skipped
      else (case (item_duration task, item_deadline task) of
        (Some duration, Some deadline) \<Rightarrow>
          if duration \<le> 0 then Inr Unscheduled
          else then_do (find_candidate_slots task unique budget) (\<lambda>slots.
            if slots = [] then Inr Unscheduled
            else Inr (Suggested \<lparr>rs_task_id = item_id task, rs_task_name = item_name task, rs_duration = duration,
                   rs_current_deadline = deadline,
                   rs_slot = hd (sort_key (\<lambda>s. (instant (cs_start s), instant (cs_end s))) slots),
                   rs_reason = reschedule_reason\<rparr>))
      | _ \<Rightarrow> Inr Unscheduled))"

definition suggestion_sort_key :: "work_item list \<Rightarrow> rescheduling_suggestion \<Rightarrow> int \<times> int \<times> string \<times> string" where
  "suggestion_sort_key unique s =
     (instant (rs_current_deadline s),
      priority_key (case find (\<lambda>t. item_id t = rs_task_id s) unique of
         None \<Rightarrow> priority_value TP_LOW | Some t \<Rightarrow> item_priority t),
      rs_task_name s, uuid_str (rs_task_id s))"

fun as_summary :: "work_item \<Rightarrow> exn + task_summary" where
  \<comment> \<open>what a \<^verbatim>\<open>list[TaskSummary]\<close> field accepts\<close>
  "as_summary (Summary s) = Inr s"
| "as_summary (OrmTask t) = Inl (ValidationError ''Input should be a valid dictionary or instance of TaskSummary'')"

definition empty_result :: rescheduling_result where
  "empty_result = \<lparr>rr_suggestions = [], rr_overloaded_days = [], rr_unscheduled = []\<rparr>"

fun suggested :: "placement \<Rightarrow> rescheduling_suggestion list" where
  "suggested (Suggested s) = [s]" | "suggested _ = []"

definition generate_candidates :: "int \<Rightarrow> work_item list \<Rightarrow> int option \<Rightarrow> exn + rescheduling_result" where
  "generate_candidates default_budget ts budget_minutes =
     (let budget = (case budget_minutes of None \<Rightarrow> default_budget | Some b \<Rightarrow> b) in
      then_do (if budget = default_budget then Inr budget else budget_service budget) (\<lambda>_.
      if ts = [] then Inr empty_result
      else
        (let unique = dedup item_id [] ts;
             valid = filter (\<lambda>t. case item_duration t of None \<Rightarrow> True | Some m \<Rightarrow> m > 0) unique in
         then_do (analyze default_budget valid (Some budget)) (\<lambda>workload.
         then_do (map_res (place_task unique budget) unique) (\<lambda>places.
         (let suggestions = sort_key (suggestion_sort_key unique) (concat (map suggested places));
              unscheduled = sort_key task_sort_key
                (map fst (filter (\<lambda>(t, p). p = Unscheduled) (zip unique places))) in
          then_do (map_res as_summary unscheduled) (\<lambda>rest.
            Inr \<lparr>rr_suggestions = suggestions, rr_overloaded_days = sort (map ow_date (w_overload_warnings workload)),
                 rr_unscheduled = rest\<rparr>)))))))"

subsection \<open>ReschedulingSuggestionService\<close>

definition suggest_rescheduling :: "int \<Rightarrow> work_item list \<Rightarrow> int option \<Rightarrow> exn + rescheduling_result" where
  "suggest_rescheduling default_budget ts budget_minutes =
     generate_candidates default_budget ts
       (Some (case budget_minutes of None \<Rightarrow> default_budget | Some b \<Rightarrow> b))"

subsection \<open>Slots\<close>

lemma minutes_between_exact:
  assumes "0 < k" and "k < 2 ^ 47" and "instant b = instant a + k * MINUTE_US"
  shows "minutes_between a b = k"
  using f64_trunc_exact [of k 60 1000000] assms by (simp add: minutes_between_def MINUTE_US_def mult.commute)

text \<open>The one slot there can be, and when it is found.\<close>

definition slot_of :: "work_item \<Rightarrow> int \<Rightarrow> datetime \<Rightarrow> candidate_slot" where
  "slot_of w duration deadline =
     \<lparr>cs_start = deadline\<lparr>wall := wall deadline - duration * MINUTE_US\<rparr>, cs_end = deadline, cs_available = duration\<rparr>"

lemma shift_duration_bound:
  assumes "wall_ok (wall d)" and "wall_ok (wall d - k * MINUTE_US)" and "0 < k"
  shows "k < 2 ^ 47"
  using assms by (simp add: wall_ok_def MAX_ORD_def DAY_US_def MINUTE_US_def)

lemma find_candidate_slots_Inr:
  assumes "item_duration w = Some m" and "item_deadline w = Some dl" and "0 < m" and "wall_ok (wall dl)"
  shows "find_candidate_slots w all_tasks budget =
    (if \<not> wall_ok (wall dl - m * MINUTE_US) then Inl OverflowError
     else if all_tasks \<noteq> [] \<and> \<not> has_remaining_capacity w (date_of (cs_start (slot_of w m dl))) all_tasks budget
     then Inr [] else Inr [slot_of w m dl])"
proof (cases "wall_ok (wall dl - m * MINUTE_US)")
  case True
  let ?start = "dl\<lparr>wall := wall dl - m * MINUTE_US\<rparr>"
  have sh: "shift dl (- m * MINUTE_US) = Inr ?start" using True by (simp add: shift_def Let_def)
  have "instant dl = instant ?start + m * MINUTE_US" by (simp add: instant_def)
  then have mb: "minutes_between ?start dl = m"
    using minutes_between_exact [OF assms(3) shift_duration_bound [OF assms(4) True assms(3)]] by blast
  have "instant ?start < instant dl" using assms(3) by (simp add: instant_def MINUTE_US_def)
  then have slot: "mk_slot ?start dl m = Inr (slot_of w m dl)"
    using assms(3) by (simp add: mk_slot_def slot_of_def)
  show ?thesis
    using assms True sh mb slot by (simp add: find_candidate_slots_def slot_of_def)
next
  case False
  then show ?thesis using assms by (simp add: find_candidate_slots_def shift_def Let_def)
qed

lemma found_slot_is_valid:
  assumes "find_candidate_slots w all_tasks budget = Inr slots" and "slot \<in> set slots"
    and "\<And>dl. item_deadline w = Some dl \<Longrightarrow> wall_ok (wall dl)"
  shows "slots = [slot] \<and> validate_candidate w slot all_tasks budget = Inr True \<and>
    (\<exists>m dl. item_duration w = Some m \<and> item_deadline w = Some dl \<and> 0 < m \<and> slot = slot_of w m dl)"
proof -
  obtain m dl where w: "item_duration w = Some m" "item_deadline w = Some dl" "0 < m"
    using assms(1,2) by (auto simp: find_candidate_slots_def split: option.splits if_splits)
  have ok: "wall_ok (wall dl)" using assms(3) w(2) .
  from assms(1) find_candidate_slots_Inr [OF w ok, of all_tasks budget] assms(2)
  have s: "wall_ok (wall dl - m * MINUTE_US)" "slots = [slot]" "slot = slot_of w m dl"
    "all_tasks \<noteq> [] \<Longrightarrow> has_remaining_capacity w (date_of (cs_start slot)) all_tasks budget"
    by (auto split: if_splits)
  let ?start = "dl\<lparr>wall := wall dl - m * MINUTE_US\<rparr>"
  have i: "instant ?start = instant dl - m * MINUTE_US" by (simp add: instant_def)
  have lt: "instant dl - m * MINUTE_US < instant dl" using w(3) by (simp add: MINUTE_US_def)
  have mb: "minutes_between ?start dl = m"
    using minutes_between_exact [OF w(3) shift_duration_bound [OF ok s(1) w(3)], of dl ?start] i by simp
  have sh: "shift dl (- m * MINUTE_US) = Inr ?start" using s(1) by (simp add: shift_def Let_def)
  have slot: "cs_start slot = ?start" "cs_end slot = dl" "cs_available slot = m"
    using s(3) by (simp_all add: slot_of_def)
  have "validate_candidate w slot all_tasks budget =
      Inr (all_tasks = [] \<or> has_remaining_capacity w (date_of (cs_start slot)) all_tasks budget)"
    using w mb sh i lt slot by (simp add: validate_candidate_def)
  with s w show ?thesis by auto
qed

subsection \<open>The whole workload\<close>

definition placed :: "work_item list \<Rightarrow> int \<Rightarrow> work_item \<Rightarrow> placement" where
  "placed U budget w = projr (place_task U budget w)"

lemma place_task_cases:
  assumes "place_task U budget w = Inr p"
  shows "(p = Skipped \<longleftrightarrow> item_status w \<notin> active_statuses)"
    and "p = Suggested s \<Longrightarrow> \<exists>slots. find_candidate_slots w U budget = Inr slots \<and> slots \<noteq> [] \<and>
      rs_task_id s = item_id w \<and> rs_task_name s = item_name w \<and> item_duration w = Some (rs_duration s) \<and>
      item_deadline w = Some (rs_current_deadline s) \<and> rs_reason s = reschedule_reason \<and>
      rs_slot s = hd (sort_key (\<lambda>s. (instant (cs_start s), instant (cs_end s))) slots)"
  using assms by (auto simp: place_task_def then_do_eq_Inr split: if_splits option.splits)

lemma as_summary_Inr: "as_summary w = Inr s \<longleftrightarrow> w = Summary s"
  by (cases w) auto

lemma generate_candidates_Inr:
  assumes "generate_candidates b ts bo = Inr r" and "ts \<noteq> []"
  shows "let U = dedup item_id [] ts; budget = (case bo of None \<Rightarrow> b | Some x \<Rightarrow> x) in
    (\<forall>w \<in> set U. place_task U budget w = Inr (placed U budget w)) \<and>
    rr_suggestions r = sort_key (suggestion_sort_key U) (concat (map (\<lambda>w. suggested (placed U budget w)) U)) \<and>
    map Summary (rr_unscheduled r) = sort_key task_sort_key (filter (\<lambda>w. placed U budget w = Unscheduled) U)"
proof -
  define U budget where "U = dedup item_id [] ts" and "budget = (case bo of None \<Rightarrow> b | Some x \<Rightarrow> x)"
  obtain wl :: workload_result and places rest where p: "map_res (place_task U budget) U = Inr places"
    and rest: "map_res as_summary (sort_key task_sort_key
        (map fst (filter (\<lambda>(t, p). p = Unscheduled) (zip U places)))) = Inr rest"
    and r: "\<lparr>rr_suggestions = sort_key (suggestion_sort_key U) (concat (map suggested places)),
      rr_overloaded_days = sort (map ow_date (w_overload_warnings wl)), rr_unscheduled = rest\<rparr> = r"
    using assms
    by (simp add: generate_candidates_def Let_def then_do_eq_Inr U_def [symmetric] budget_def [symmetric]) blast
  have all: "list_all2 (\<lambda>w p. place_task U budget w = Inr p) U places" using p by (simp add: map_res_Inr_iff)
  then have each: "\<forall>w \<in> set U. place_task U budget w = Inr (placed U budget w)"
    by (auto simp: list_all2_conv_all_nth in_set_conv_nth placed_def)
  have places: "places = map (placed U budget) U"
    using all by (auto simp: list_all2_conv_all_nth placed_def intro!: nth_equalityI)
  have "map fst (filter (\<lambda>(t, p). p = Unscheduled) (zip xs (map f xs))) = filter (\<lambda>w. f w = Unscheduled) xs" for f and xs :: "work_item list"
    by (induction xs) auto
  then have "map_res as_summary (sort_key task_sort_key (filter (\<lambda>w. placed U budget w = Unscheduled) U)) = Inr rest"
    using rest places by simp
  then have "list_all2 (\<lambda>w s. w = Summary s) (sort_key task_sort_key (filter (\<lambda>w. placed U budget w = Unscheduled) U)) rest"
    by (simp add: map_res_Inr_iff as_summary_Inr)
  then have "map Summary rest = sort_key task_sort_key (filter (\<lambda>w. placed U budget w = Unscheduled) U)"
    by (auto simp: list_all2_conv_all_nth intro!: nth_equalityI)
  moreover have "rr_suggestions r = sort_key (suggestion_sort_key U) (concat (map (\<lambda>w. suggested (placed U budget w)) U))"
    "rr_unscheduled r = rest"
    unfolding r [symmetric] places by (simp_all add: comp_def)
  ultimately show ?thesis using each by (simp add: Let_def U_def [symmetric] budget_def [symmetric])
qed

text \<open>Every active task gets exactly one verdict, every other task none.\<close>

lemma verdicts_partition:
  assumes "\<And>w. w \<in> set ws \<Longrightarrow> place_task U b w = Inr (placed U b w)"
  shows "mset (map rs_task_id (concat (map (\<lambda>w. suggested (placed U b w)) ws)))
       + mset (map item_id (filter (\<lambda>w. placed U b w = Unscheduled) ws))
       = mset (map item_id (filter (\<lambda>w. item_status w \<in> active_statuses) ws))"
  using assms
proof (induction ws)
  case (Cons w ws)
  have pw: "place_task U b w = Inr (placed U b w)" using Cons.prems by simp
  show ?case using Cons.IH Cons.prems place_task_cases [OF pw]
    by (cases "placed U b w") auto
qed simp

lemma unscheduled_orm_fails:
  assumes "generate_candidates b ts bo = Inr r" and "ts \<noteq> []" and "OrmTask t \<in> set (dedup item_id [] ts)"
    and "t_status t \<in> active_statuses"
  shows "\<exists>s \<in> set (rr_suggestions r). rs_task_id s = t_id t"
proof -
  let ?U = "dedup item_id [] ts" and ?b = "case bo of None \<Rightarrow> b | Some x \<Rightarrow> x"
  note g = generate_candidates_Inr [OF assms(1,2), unfolded Let_def]
  have p: "place_task ?U ?b (OrmTask t) = Inr (placed ?U ?b (OrmTask t))" using g assms(3) by blast
  have "OrmTask t \<notin> set (map Summary (rr_unscheduled r))" by auto
  then have "placed ?U ?b (OrmTask t) \<noteq> Unscheduled" using g assms(3) by auto
  moreover have "placed ?U ?b (OrmTask t) \<noteq> Skipped" using place_task_cases(1) [OF p] assms(4) by simp
  ultimately obtain s where s: "placed ?U ?b (OrmTask t) = Suggested s" by (cases "placed ?U ?b (OrmTask t)") auto
  then have "s \<in> set (rr_suggestions r)" using g assms(3) by force
  moreover have "rs_task_id s = t_id t" using place_task_cases(2) [OF p s] by auto
  ultimately show ?thesis by blast
qed

subsection \<open>Properties\<close>

text \<open>C34: Every active task, duplicates apart, gets exactly one verdict: one suggestion or one entry among the
  unscheduled; a task that is completed or cancelled gets none.\<close>

theorem one_verdict_per_task:
  assumes "generate_candidates b ts bo = Inr r"
  shows "mset (map rs_task_id (rr_suggestions r)) + mset (map s_id (rr_unscheduled r)) =
    mset_set (item_id ` {w. w \<in> set (dedup item_id [] ts) \<and> item_status w \<in> {''TODO'', ''IN_PROGRESS''}})"
proof -
  let ?U = "dedup item_id [] ts"
  let ?act = "filter (\<lambda>w. item_status w \<in> active_statuses) ?U"
  have d: "mset (map item_id ?act) = mset_set (item_id ` {w. w \<in> set ?U \<and> item_status w \<in> {''TODO'', ''IN_PROGRESS''}})"
  proof -
    have "distinct (map item_id ?act)" by (rule distinct_map_filter [OF distinct_dedup])
    then have "mset (map item_id ?act) = mset_set (set (map item_id ?act))" by (metis mset_set_set)
    then show ?thesis by (simp add: active_statuses_def)
  qed
  show ?thesis
  proof (cases "ts = []")
    case True
    then show ?thesis using assms by (auto simp: generate_candidates_def Let_def then_do_eq_Inr empty_result_def)
  next
    case False
    note g = generate_candidates_Inr [OF assms False, unfolded Let_def]
    let ?p = "placed ?U (case bo of None \<Rightarrow> b | Some x \<Rightarrow> x)"
    have "map s_id (rr_unscheduled r) = map item_id (map Summary (rr_unscheduled r))" by simp
    then have "mset (map s_id (rr_unscheduled r)) = mset (map item_id (filter (\<lambda>w. ?p w = Unscheduled) ?U))"
      using g by simp
    moreover have "mset (map rs_task_id (rr_suggestions r)) = mset (map rs_task_id (concat (map (\<lambda>w. suggested (?p w)) ?U)))"
      using g by simp
    ultimately show ?thesis using verdicts_partition [of ?U ?U "case bo of None \<Rightarrow> b | Some x \<Rightarrow> x"] g d by simp
  qed
qed

definition sample_summary :: "uuid \<Rightarrow> int option \<Rightarrow> task_summary" where
  "sample_summary i du = \<lparr>s_id = i, s_task_name = ''Draft'', s_priority = TP_LOW, s_status = TS_TODO,
     s_deadline = Some (utc 86400000000), s_duration = du\<rparr>"

lemma one_verdict_per_task_witness:
  "\<exists>r. generate_candidates 480 [Summary (sample_summary 1 (Some 60)), Summary (sample_summary 2 None)] None = Inr r \<and>
     mset (map rs_task_id (rr_suggestions r)) + mset (map s_id (rr_unscheduled r)) = {#1, 2#}"
proof -
  let ?ts = "[Summary (sample_summary 1 (Some 60)), Summary (sample_summary 2 None)]"
  have w: "wall_ok 86400000000" "wall_ok (86400000000 - 60 * MINUTE_US)"
    by (simp_all add: wall_ok_def MAX_ORD_def DAY_US_def MINUTE_US_def)
  then obtain wl :: workload_result where wl: "analyze 480 ?ts (Some 480) = Inr wl"
    by (auto simp: analyze_Inr filter_active_tasks_def active_statuses_def sample_summary_def feasibility_windows_def
        planned_tasks_def window_of_def deadline_of_def duration_of_def shift_def total_planned_minutes_def)
  have "find_candidate_slots (Summary (sample_summary 1 (Some 60))) ?ts 480 = Inr [slot_of (Summary (sample_summary 1 (Some 60))) 60 (utc 86400000000)]"
    using find_candidate_slots_Inr [of "Summary (sample_summary 1 (Some 60))" 60 "utc 86400000000" ?ts 480] w
    by (simp add: sample_summary_def has_remaining_capacity_def counts_on_def minutes_of_def)
  then obtain r where r: "generate_candidates 480 ?ts None = Inr r"
    using wl by (auto simp: generate_candidates_def Let_def place_task_def sample_summary_def active_statuses_def)
  have "{w. w \<in> set (dedup item_id [] ?ts) \<and> item_status w \<in> {''TODO'', ''IN_PROGRESS''}} = set ?ts"
    by (auto simp: sample_summary_def)
  then show ?thesis using r one_verdict_per_task [OF r] by (simp add: sample_summary_def)
qed

text \<open>C33: Every suggestion keeps the constraints: it is for an active task that was given, with its duration and
  deadline; its window is exactly the last stretch of that length before the deadline; the validator
  accepts it; and on the day it starts the other active tasks due that day and this one fit the budget.\<close>

theorem suggestions_keep_constraints:
  assumes "generate_candidates b ts bo = Inr r" and "s \<in> set (rr_suggestions r)"
    and "list_all (\<lambda>w. case item_deadline w of None \<Rightarrow> True | Some dl \<Rightarrow> wall_ok (wall dl)) ts"
  shows "\<exists>w \<in> set ts. item_id w = rs_task_id s \<and> item_status w \<in> {''TODO'', ''IN_PROGRESS''} \<and>
    item_duration w = Some (rs_duration s) \<and> 0 < rs_duration s \<and> item_deadline w = Some (rs_current_deadline s) \<and>
    cs_end (rs_slot s) = rs_current_deadline s \<and>
    instant (cs_start (rs_slot s)) = instant (rs_current_deadline s) - rs_duration s * MINUTE_US \<and>
    validate_candidate w (rs_slot s) (dedup item_id [] ts) (case bo of None \<Rightarrow> b | Some x \<Rightarrow> x) = Inr True \<and>
    sum_list (map minutes_of (filter (counts_on w (date_of (cs_start (rs_slot s)))) (dedup item_id [] ts))) + rs_duration s
      \<le> (case bo of None \<Rightarrow> b | Some x \<Rightarrow> x)"
proof -
  let ?U = "dedup item_id [] ts" and ?b = "case bo of None \<Rightarrow> b | Some x \<Rightarrow> x"
  have "ts \<noteq> []"
    using assms(1,2) by (auto simp: generate_candidates_def Let_def then_do_eq_Inr empty_result_def)
  note g = generate_candidates_Inr [OF assms(1) this, unfolded Let_def]
  obtain w where w: "w \<in> set ?U" "placed ?U ?b w = Suggested s"
  proof -
    have "s \<in> set (concat (map (\<lambda>w. suggested (placed ?U ?b w)) ?U))" using g assms(2) by simp
    then obtain w where "w \<in> set ?U" "s \<in> set (suggested (placed ?U ?b w))" by auto
    then show ?thesis using that by (cases "placed ?U ?b w") auto
  qed
  have wts: "w \<in> set ts" using w(1) set_dedup_subset by fastforce
  have p: "place_task ?U ?b w = Inr (Suggested s)" using g w by simp
  have act: "item_status w \<in> active_statuses" using place_task_cases(1) [OF p] by simp
  obtain slots where f: "find_candidate_slots w ?U ?b = Inr slots" "slots \<noteq> []"
    "rs_task_id s = item_id w" "item_duration w = Some (rs_duration s)" "item_deadline w = Some (rs_current_deadline s)"
    "rs_slot s = hd (sort_key (\<lambda>s. (instant (cs_start s), instant (cs_end s))) slots)"
    using place_task_cases(2) [OF p refl] by blast
  have "set (sort_key (\<lambda>s. (instant (cs_start s), instant (cs_end s))) slots) = set slots" by simp
  then have "rs_slot s \<in> set slots" using f(2,6) by (metis hd_in_set set_empty)
  moreover have "wall_ok (wall dl)" if "item_deadline w = Some dl" for dl
    using assms(3) wts that by (auto simp: list_all_iff)
  ultimately have "slots = [rs_slot s] \<and> validate_candidate w (rs_slot s) ?U ?b = Inr True \<and>
    (\<exists>m dl. item_duration w = Some m \<and> item_deadline w = Some dl \<and> 0 < m \<and> rs_slot s = slot_of w m dl)"
    by (rule found_slot_is_valid [OF f(1)])
  then
  have v: "validate_candidate w (rs_slot s) ?U ?b = Inr True" "0 < rs_duration s"
    "rs_slot s = slot_of w (rs_duration s) (rs_current_deadline s)"
    using f(4,5) by auto
  have "instant (cs_start (rs_slot s)) = instant (rs_current_deadline s) - rs_duration s * MINUTE_US"
    "cs_end (rs_slot s) = rs_current_deadline s"
    unfolding v(3) by (simp_all add: slot_of_def instant_def)
  moreover have "?U = [] \<or> has_remaining_capacity w (date_of (cs_start (rs_slot s))) ?U ?b"
    using v(1) f(4,5) by (auto simp: validate_candidate_def then_do_eq_Inr split: if_splits)
  then have "has_remaining_capacity w (date_of (cs_start (rs_slot s))) ?U ?b" using w(1) by auto
  ultimately show ?thesis
    using wts f v act by (intro bexI [of _ w]) (simp_all add: active_statuses_def has_remaining_capacity_def minutes_of_def)
qed

lemma suggestions_keep_constraints_witness:
  "\<exists>r. generate_candidates 480 [Summary (sample_summary 1 (Some 60))] None = Inr r \<and>
     (\<exists>s. rr_suggestions r = [s] \<and> instant (cs_start (rs_slot s)) = 86400000000 - 60 * MINUTE_US)"
proof -
  let ?w = "Summary (sample_summary 1 (Some 60))"
  let ?s = "\<lparr>rs_task_id = 1, rs_task_name = ''Draft'', rs_duration = 60, rs_current_deadline = utc 86400000000,
     rs_slot = slot_of ?w 60 (utc 86400000000), rs_reason = reschedule_reason\<rparr>"
  have w: "wall_ok 86400000000" "wall_ok (86400000000 - 60 * MINUTE_US)"
    by (simp_all add: wall_ok_def MAX_ORD_def DAY_US_def MINUTE_US_def)
  then obtain wl :: workload_result where wl: "analyze 480 [?w] (Some 480) = Inr wl"
    by (auto simp: analyze_Inr filter_active_tasks_def active_statuses_def sample_summary_def feasibility_windows_def
        planned_tasks_def window_of_def deadline_of_def duration_of_def shift_def total_planned_minutes_def)
  have "find_candidate_slots ?w [?w] 480 = Inr [slot_of ?w 60 (utc 86400000000)]"
    using find_candidate_slots_Inr [of ?w 60 "utc 86400000000" "[?w]" 480] w
    by (simp add: sample_summary_def has_remaining_capacity_def counts_on_def minutes_of_def)
  then obtain r where r: "generate_candidates 480 [?w] None = Inr r" "rr_suggestions r = [?s]"
    using wl by (auto simp: generate_candidates_def Let_def place_task_def sample_summary_def active_statuses_def)
  have dl: "list_all (\<lambda>w. case item_deadline w of None \<Rightarrow> True | Some dl \<Rightarrow> wall_ok (wall dl)) [?w]"
    using w by (simp add: sample_summary_def)
  have "?s \<in> set (rr_suggestions r)" unfolding r(2) by (simp only: list.set_intros)
  from suggestions_keep_constraints [OF r(1) this dl]
  have "instant (cs_start (rs_slot ?s)) = instant (rs_current_deadline ?s) - rs_duration ?s * MINUTE_US" by blast
  then show ?thesis using r by auto
qed

text \<open>The suggestion service fails on the rows of the database as soon as one active task has no duration:
  such a task is left unscheduled, and the result cannot hold the row, so the whole request fails
  instead of listing it.\<close>

lemma unscheduled_row_fails_request:
  assumes "distinct (map t_id ts)" and "t \<in> set ts" and "t_status t \<in> {''TODO'', ''IN_PROGRESS''}" and "t_duration t = None"
  shows "\<exists>e. suggest_rescheduling b (map OrmTask ts) bo = Inl e"
proof (rule ccontr)
  assume "\<not> ?thesis"
  then obtain r where r: "generate_candidates b (map OrmTask ts) (Some (case bo of None \<Rightarrow> b | Some x \<Rightarrow> x)) = Inr r"
    by (cases "suggest_rescheduling b (map OrmTask ts) bo") (auto simp: suggest_rescheduling_def)
  let ?U = "dedup item_id [] (map OrmTask ts)" and ?b = "case bo of None \<Rightarrow> b | Some x \<Rightarrow> x"
  have ne: "map OrmTask ts \<noteq> []" using assms(2) by auto
  have U: "?U = map OrmTask ts" using assms(1) by (intro dedup_id) (simp_all add: comp_def)
  note g = generate_candidates_Inr [OF r ne, unfolded Let_def U option.case]
  have in_ts: "OrmTask t \<in> set (map OrmTask ts)" using assms(2) by simp
  have "place_task (map OrmTask ts) ?b (OrmTask t) = Inr Unscheduled"
    using assms(3,4) by (auto simp: place_task_def active_statuses_def)
  then have "placed (map OrmTask ts) ?b (OrmTask t) = Unscheduled" by (simp add: placed_def)
  then have "OrmTask t \<in> set (map Summary (rr_unscheduled r))" using g in_ts by auto
  then show False by auto
qed

lemma unscheduled_row_fails_request_witness:
  "\<exists>e. suggest_rescheduling 480 (map OrmTask [sample_task 1 1000, (sample_task 2 1000)\<lparr>t_duration := None\<rparr>]) None = Inl e"
  by (rule unscheduled_row_fails_request [where t = "(sample_task 2 1000)\<lparr>t_duration := None\<rparr>"]) (simp_all add: sample_simps)

end
