(* ===== verification/Executor.thy ===== *)
theory Executor
  imports Guardrails TaskUseCases ReminderUseCases DateRange Rescheduling
begin

text \<open>
  \<^verbatim>\<open>services/action_executor.py\<close> and \<^verbatim>\<open>services/execution_result.py\<close>: an authorized command
  becomes one call of a module or of an analysis service, and whatever happens becomes an
  \<open>execution_result\<close>. The payload of an analysis is kept structured; \<^verbatim>\<open>model_dump\<close> writes it
  as a dictionary.
\<close>

subsection \<open>services/execution_result.py\<close>

datatype execution_status = EX_EXECUTED | EX_NOT_EXECUTABLE | EX_FAILED

datatype execution_error_code = EC_NOT_FOUND | EC_INVALID_INPUT | EC_INFRASTRUCTURE

datatype result_payload = WorkloadPayload workload_result | ReschedulingPayload rescheduling_result

record execution_result =
  er_status :: execution_status
  er_action_type :: action_type
  er_resource_id :: "uuid option"
  er_message :: string
  er_error_code :: "execution_error_code option"
  er_result_id :: "uuid option"
  er_result_name :: "string option"
  er_payload :: "result_payload option"

datatype entity = NoEntity | TaskEntity task | ReminderEntity reminder
  | WorkloadEntity workload_result | ReschedulingEntity rescheduling_result

record executor_env =
  \<comment> \<open>the injected services: the workload budget of the settings, the budget of the suggestion
      service, the database and clock, and the next primary key\<close>
  x_db :: db_env
  x_clock :: "nat \<Rightarrow> int"
  x_new_id :: uuid
  x_workload_budget :: int
  x_reschedule_budget :: int

subsection \<open>Coercions and error categories\<close>

definition to_datetime :: "pyval \<Rightarrow> exn + datetime" where
  "to_datetime v = (case v of
     PDatetime x \<Rightarrow> require_aware_utc x
   | PStr s \<Rightarrow> parse_iso_datetime s
   | _ \<Rightarrow> Inl (TypeError ''Expected datetime or ISO-8601 string''))"

definition opt_datetime :: "pyval \<Rightarrow> exn + datetime option" where
  "opt_datetime v = (if v = PNone then Inr None else then_do (to_datetime v) (\<lambda>d. Inr (Some d)))"

fun error_code_for :: "exn \<Rightarrow> execution_error_code" where
  "error_code_for (TaskNotFoundError _) = EC_NOT_FOUND"
| "error_code_for (ReminderNotFoundError _) = EC_NOT_FOUND"
| "error_code_for (InvalidTaskError _) = EC_INVALID_INPUT"
| "error_code_for (InvalidReminderError _) = EC_INVALID_INPUT"
| "error_code_for e = (if is_value_error e then EC_INVALID_INPUT else EC_INFRASTRUCTURE)"

definition entity_payload :: "entity \<Rightarrow> uuid option \<times> string option" where
  "entity_payload x = (case x of
     TaskEntity t \<Rightarrow> (Some (t_id t), Some (t_name t))
   | ReminderEntity r \<Rightarrow> (Some (r_id r), None)
   | _ \<Rightarrow> (None, None))"

subsection \<open>ActionExecutor\<close>

type_synonym outcome = "(exn + entity) \<times> session"

definition raises :: "exn \<Rightarrow> session \<Rightarrow> outcome" where
  "raises e s = (Inl e, s)"

definition as_entity :: "('a \<Rightarrow> entity) \<Rightarrow> (exn + 'a) \<times> session \<Rightarrow> outcome" where
  "as_entity f = (\<lambda>(r, s). (case r of Inl e \<Rightarrow> Inl e | Inr x \<Rightarrow> Inr (f x), s))"

definition with_value :: "exn + 'a \<Rightarrow> session \<Rightarrow> ('a \<Rightarrow> outcome) \<Rightarrow> outcome" where
  \<comment> \<open>an argument that may raise before anything is called\<close>
  "with_value r s f = (case r of Inl e \<Rightarrow> raises e s | Inr x \<Rightarrow> f x)"

definition with_target :: "uuid option \<Rightarrow> exn \<Rightarrow> session \<Rightarrow> (uuid \<Rightarrow> outcome) \<Rightarrow> outcome" where
  \<comment> \<open>an absent identifier finds no row\<close>
  "with_target i e s f = (case i of None \<Rightarrow> raises e s | Some x \<Rightarrow> f x)"

definition resolve_expression :: "params \<Rightarrow> int \<Rightarrow> exn + datetime \<times> datetime" where
  \<comment> \<open>a value that is neither text nor a member reaches \<^verbatim>\<open>resolve\<close>, which rejects it\<close>
  "resolve_expression ps now =
     then_do (dict_item ps ''date_range_expression'') (\<lambda>raw.
     then_do (case raw of PStr s \<Rightarrow> then_do (date_range_expression_of s) (\<lambda>x. Inr (Some x)) | _ \<Rightarrow> Inr None) (\<lambda>expression.
     then_do (opt_datetime (dict_get ps ''explicit_start'')) (\<lambda>explicit_start.
     then_do (opt_datetime (dict_get ps ''explicit_end'')) (\<lambda>explicit_end.
       case expression of
         None \<Rightarrow> Inl (ValueError ''Unsupported expression'')
       | Some x \<Rightarrow> resolve_range x (map_option Aware explicit_start) (map_option Aware explicit_end) (Aware (utc now))))))"

definition tasks_in_range :: "params \<Rightarrow> int \<Rightarrow> session \<Rightarrow> exn + work_item list" where
  "tasks_in_range ps now s =
     then_do (resolve_expression ps now) (\<lambda>(start, fin).
       Inr (map OrmTask (find_tasks_by_deadline_range start fin s)))"

definition dispatch :: "executor_env \<Rightarrow> execution_command \<Rightarrow> session \<Rightarrow> outcome" where
  "dispatch X command s =
     (let ps = cmd_parameters command; i = cmd_resource_id command; E = x_db X; clk = x_clock X in
      case cmd_action_type command of
        CREATE_TASK \<Rightarrow>
          with_value (dict_item ps ''taskName'') s (\<lambda>name.
          with_value (then_do (dict_item ps ''deadline'') to_datetime) s (\<lambda>deadline.
            as_entity TaskEntity (module_create_task E clk (x_new_id X) name (dict_get ps ''description'') deadline
              (case map_of ps ''priority'' of None \<Rightarrow> PStr (priority_value TP_MEDIUM) | Some p \<Rightarrow> p)
              (dict_get ps ''durationMinutes'') s)))
      | UPDATE_TASK \<Rightarrow>
          with_value (opt_datetime (dict_get ps ''deadline'')) s (\<lambda>deadline.
          with_target i (TaskNotFoundError 0) s (\<lambda>i.
            as_entity TaskEntity (module_update_task E clk i (dict_get ps ''taskName'')
              (Some (dict_get ps ''description'')) deadline (dict_get ps ''priority'') (dict_get ps ''status'')
              (map_of ps ''durationMinutes'') s)))
      | DELETE_TASK \<Rightarrow>
          with_target i (TaskNotFoundError 0) s (\<lambda>i. as_entity (\<lambda>_. NoEntity) (module_delete_task E i s))
      | CREATE_REMINDER \<Rightarrow>
          with_value (then_do (dict_item ps ''remindAt'') to_datetime) s (\<lambda>remind_at.
          with_target i (TaskNotFoundError 0) s (\<lambda>i.
            as_entity ReminderEntity (module_create_reminder E clk (x_new_id X) i remind_at s)))
      | UPDATE_REMINDER \<Rightarrow>
          with_value (opt_datetime (dict_get ps ''remindAt'')) s (\<lambda>remind_at.
          with_target i (ReminderNotFoundError 0) s (\<lambda>i.
            as_entity ReminderEntity (module_update_reminder E clk i remind_at (dict_get ps ''status'') s)))
      | DELETE_REMINDER \<Rightarrow>
          with_target i (ReminderNotFoundError 0) s (\<lambda>i. as_entity (\<lambda>_. NoEntity) (module_delete_reminder E i s))
      | ANALYZE_WORKLOAD \<Rightarrow>
          with_value (tasks_in_range ps (clk 0) s) s (\<lambda>ts.
          with_value (analyze (x_workload_budget X) ts None) s (\<lambda>r. (Inr (WorkloadEntity r), s)))
      | SUGGEST_RESCHEDULING \<Rightarrow>
          with_value (tasks_in_range ps (clk 0) s) s (\<lambda>ts.
          with_value (suggest_rescheduling (x_reschedule_budget X) ts None) s (\<lambda>r. (Inr (ReschedulingEntity r), s))))"

definition bare_result :: "execution_status \<Rightarrow> execution_command \<Rightarrow> string \<Rightarrow> execution_result" where
  "bare_result st command msg = \<lparr>er_status = st, er_action_type = cmd_action_type command,
     er_resource_id = cmd_resource_id command, er_message = msg, er_error_code = None,
     er_result_id = None, er_result_name = None, er_payload = None\<rparr>"

definition executed :: "execution_command \<Rightarrow> entity \<Rightarrow> execution_result" where
  "executed command x = (case x of
     WorkloadEntity r \<Rightarrow> (bare_result EX_EXECUTED command ''Workload analysis completed successfully.'')
        \<lparr>er_payload := Some (WorkloadPayload r)\<rparr>
   | ReschedulingEntity r \<Rightarrow> (bare_result EX_EXECUTED command ''Rescheduling suggestions generated successfully.'')
        \<lparr>er_payload := Some (ReschedulingPayload r)\<rparr>
   | _ \<Rightarrow> (bare_result EX_EXECUTED command ''Action executed successfully.'')
        \<lparr>er_result_id := fst (entity_payload x), er_result_name := snd (entity_payload x)\<rparr>)"

definition execute ::
  "executor_env \<Rightarrow> decision_result \<Rightarrow> execution_command \<Rightarrow> session \<Rightarrow> execution_result \<times> session" where
  "execute X decision command s =
     (if dr_status decision \<noteq> DS_AUTHORIZED
      then (bare_result EX_NOT_EXECUTABLE command
             (''Execution requires an AUTHORIZED decision; got '' @ decision_value (dr_status decision) @ ''.''), s)
      else if cmd_action_type command \<noteq> va_action_type (dr_action decision)
      then (bare_result EX_NOT_EXECUTABLE command
             ''Execution command does not match the authorized action type.'', s)
      else (case dispatch X command s of
              (Inl e, s') \<Rightarrow> ((bare_result EX_FAILED command ''The application operation failed.'')
                  \<lparr>er_error_code := Some (error_code_for e)\<rparr>, s')
            | (Inr x, s') \<Rightarrow> (executed command x, s')))"

definition production_env :: "db_env \<Rightarrow> (nat \<Rightarrow> int) \<Rightarrow> uuid \<Rightarrow> int \<Rightarrow> executor_env" where
  \<comment> \<open>\<^verbatim>\<open>get_action_executor\<close>: the workload service gets \<^verbatim>\<open>settings.daily_working_minutes\<close>, the
      suggestion service its own default\<close>
  "production_env E clk i daily_working_minutes =
     \<lparr>x_db = E, x_clock = clk, x_new_id = i, x_workload_budget = daily_working_minutes,
      x_reschedule_budget = default_budget_minutes\<rparr>"

subsection \<open>What a dispatch can do to the rows\<close>

lemma snd_as_entity [simp]: "snd (as_entity f p) = snd p"
  by (cases p) (simp add: as_entity_def)

lemma fst_as_entity: "fst (as_entity f p) = (case fst p of Inl e \<Rightarrow> Inl e | Inr x \<Rightarrow> Inr (f x))"
  by (cases p) (simp add: as_entity_def)

lemma execute_session: "snd (execute X decision command s) = s \<or>
    (dr_status decision = DS_AUTHORIZED \<and> cmd_action_type command = va_action_type (dr_action decision) \<and>
     snd (execute X decision command s) = snd (dispatch X command s))"
  by (auto simp: execute_def split: prod.splits sum.splits)

definition analysis_actions :: "action_type set" where
  "analysis_actions = {ANALYZE_WORKLOAD, SUGGEST_RESCHEDULING}"

lemma dispatch_analysis: "cmd_action_type command \<in> analysis_actions \<Longrightarrow> snd (dispatch X command s) = s"
  by (auto simp: analysis_actions_def dispatch_def with_value_def raises_def Let_def split: sum.splits)

text \<open>The session after any command: untouched, or one transaction of one use case on the target.\<close>

lemma dispatch_session:
  assumes "P s"
    and "\<And>n ds dl p du. cmd_action_type c = CREATE_TASK \<Longrightarrow>
      P (snd (transact (x_db X) (create_task (x_db X) (x_clock X) (x_new_id X) n ds dl p du) s))"
    and "\<And>i n ds dl p st du. cmd_action_type c = UPDATE_TASK \<Longrightarrow> cmd_resource_id c = Some i \<Longrightarrow>
      P (snd (transact (x_db X) (update_task (x_db X) (x_clock X) i n ds dl p st du) s))"
    and "\<And>i. cmd_action_type c = DELETE_TASK \<Longrightarrow> cmd_resource_id c = Some i \<Longrightarrow>
      P (snd (transact (x_db X) (delete_task i) s))"
    and "\<And>i at. cmd_action_type c = CREATE_REMINDER \<Longrightarrow> cmd_resource_id c = Some i \<Longrightarrow>
      P (snd (transact (x_db X) (create_reminder (x_db X) (x_clock X) (x_new_id X) i at) s))"
    and "\<And>i at st. cmd_action_type c = UPDATE_REMINDER \<Longrightarrow> cmd_resource_id c = Some i \<Longrightarrow>
      P (snd (transact (x_db X) (update_reminder (x_db X) (x_clock X) i at st) s))"
    and "\<And>i. cmd_action_type c = DELETE_REMINDER \<Longrightarrow> cmd_resource_id c = Some i \<Longrightarrow>
      P (snd (transact (x_db X) (delete_reminder i) s))"
  shows "P (snd (dispatch X c s))"
proof (cases "cmd_action_type c")
  case CREATE_TASK
  with assms(1) assms(2) [OF CREATE_TASK] show ?thesis
    by (simp add: dispatch_def with_value_def raises_def Let_def module_create_task_def split: sum.splits)
next
  case UPDATE_TASK
  with assms(1) assms(3) [OF UPDATE_TASK] show ?thesis
    by (simp add: dispatch_def with_value_def with_target_def raises_def Let_def module_update_task_def
        split: sum.splits option.splits)
next
  case DELETE_TASK
  with assms(1) assms(4) [OF DELETE_TASK] show ?thesis
    by (simp add: dispatch_def with_target_def raises_def Let_def module_delete_task_def split: option.splits)
next
  case CREATE_REMINDER
  with assms(1) assms(5) [OF CREATE_REMINDER] show ?thesis
    by (simp add: dispatch_def with_value_def with_target_def raises_def Let_def module_create_reminder_def
        split: sum.splits option.splits)
next
  case UPDATE_REMINDER
  with assms(1) assms(6) [OF UPDATE_REMINDER] show ?thesis
    by (simp add: dispatch_def with_value_def with_target_def raises_def Let_def module_update_reminder_def
        split: sum.splits option.splits)
next
  case DELETE_REMINDER
  with assms(1) assms(7) [OF DELETE_REMINDER] show ?thesis
    by (simp add: dispatch_def with_target_def raises_def Let_def module_delete_reminder_def split: option.splits)
next
  case ANALYZE_WORKLOAD
  then have "snd (dispatch X c s) = s" by (intro dispatch_analysis) (simp add: analysis_actions_def)
  with assms(1) show ?thesis by simp
next
  case SUGGEST_RESCHEDULING
  then have "snd (dispatch X c s) = s" by (intro dispatch_analysis) (simp add: analysis_actions_def)
  with assms(1) show ?thesis by simp
qed

lemma dispatch_clean: "clean s \<Longrightarrow> clean (snd (dispatch X c s))"
  by (rule dispatch_session [of clean]) (simp_all add: transact_clean)

lemma dispatch_integrity:
  assumes "db_integrity (committed s)" and "clean s"
  shows "db_integrity (committed (snd (dispatch X c s)))"
  by (rule dispatch_session [of "\<lambda>s'. db_integrity (committed s')"])
    (simp_all add: assms create_task_uc.transact_keeps update_task_uc.transact_keeps delete_task_uc.transact_keeps
      create_reminder_uc.transact_keeps update_reminder_uc.transact_keeps delete_reminder_uc.transact_keeps)

text \<open>No command touches a confirmation.\<close>

lemma transact_confirmations:
  assumes "clean s" and "\<And>d x d'. f d = Inr (x, d') \<Longrightarrow> confirmations d' = confirmations d"
  shows "confirmations (committed (snd (transact E f s))) = confirmations (committed s)"
  using assms(1) by (cases rule: transact_cases [of f s E])
    (auto simp: clean_def rollback_def dest!: assms(2))

lemma use_cases_confirmations:
  "create_task E clk i n ds dl p du d = Inr (t, d') \<Longrightarrow> confirmations d' = confirmations d"
  "update_task E clk i n ds' dl' p st du' d = Inr (t, d') \<Longrightarrow> confirmations d' = confirmations d"
  "delete_task i d = Inr (u, d') \<Longrightarrow> confirmations d' = confirmations d"
  "create_reminder E clk i tid at d = Inr (r, d') \<Longrightarrow> confirmations d' = confirmations d"
  "update_reminder E clk i at' rst d = Inr (r, d') \<Longrightarrow> confirmations d' = confirmations d"
  "delete_reminder i d = Inr (u, d') \<Longrightarrow> confirmations d' = confirmations d"
proof -
  show "create_task E clk i n ds dl p du d = Inr (t, d') \<Longrightarrow> confirmations d' = confirmations d"
    by (auto simp: create_task_Inr task_insert_def)
  show "update_task E clk i n ds' dl' p st du' d = Inr (t, d') \<Longrightarrow> confirmations d' = confirmations d"
    using update_task_InrD [of E clk i n ds' dl' p st du' d t d'] task_repo_update_Inr by blast
  show "delete_task i d = Inr (u, d') \<Longrightarrow> confirmations d' = confirmations d"
    by (auto simp: delete_task_Inr task_erase_def)
  show "create_reminder E clk i tid at d = Inr (r, d') \<Longrightarrow> confirmations d' = confirmations d"
    by (auto simp: create_reminder_Inr reminder_insert_def)
  show "update_reminder E clk i at' rst d = Inr (r, d') \<Longrightarrow> confirmations d' = confirmations d"
    using update_reminder_InrD [of E clk i at' rst d r d'] by (auto simp: reminder_replace_def)
  show "delete_reminder i d = Inr (u, d') \<Longrightarrow> confirmations d' = confirmations d"
    by (auto simp: delete_reminder_Inr reminder_erase_def)
qed

lemma dispatch_confirmations:
  assumes "clean s"
  shows "confirmations (committed (snd (dispatch X c s))) = confirmations (committed s)"
  by (rule dispatch_session [of "\<lambda>s'. confirmations (committed s') = confirmations (committed s)"])
    (auto intro!: transact_confirmations [OF assms] dest: use_cases_confirmations)

text \<open>Only a deletion removes a task, and only the one it names.\<close>

lemma transact_tasks:
  assumes "clean s" and "\<And>x d'. f (working s) = Inr (x, d') \<Longrightarrow> Q d'" and "Q (committed s)"
  shows "Q (committed (snd (transact E f s)))"
  using assms by (cases rule: transact_cases [of f s E]) (auto simp: clean_def rollback_def)

subsection \<open>Properties\<close>






lemma dispatch_failed:
  assumes "fst (dispatch X c s) = Inl e"
  shows "committed (snd (dispatch X c s)) = committed s"
proof (cases "cmd_action_type c \<in> analysis_actions")
  case True
  then show ?thesis by (simp add: dispatch_analysis)
next
  case False
  with assms show ?thesis
    by (cases "cmd_action_type c")
      (auto simp: analysis_actions_def dispatch_def Let_def with_value_def with_target_def raises_def fst_as_entity
        module_create_task_def module_update_task_def module_delete_task_def module_create_reminder_def
        module_update_reminder_def module_delete_reminder_def
        intro!: transact_failed_unchanged split: sum.splits option.splits if_splits)
qed

lemma execute_unchanged:
  assumes "er_status (fst (execute X decision command s)) \<noteq> EX_EXECUTED"
  shows "committed (snd (execute X decision command s)) = committed s"
proof -
  have st: "er_status (executed command x) = EX_EXECUTED" for x by (simp add: executed_def bare_result_def split: entity.splits)
  obtain r t where d: "dispatch X command s = (r, t)" by fastforce
  show ?thesis using assms dispatch_failed [of X command s] by (cases r) (auto simp: execute_def d st)
qed

text \<open>The executor answers for everything: it always returns a result; the result says EXECUTED exactly when
  the decision is AUTHORIZED, names the action of the command and the operation succeeded; every exception
  of the operation becomes one error category; and whenever it does not say EXECUTED no stored row changed.\<close>

lemma executor_answers_for_everything:
  "\<exists>res s'. execute X decision command s = (res, s') \<and>
     (er_status res = EX_EXECUTED \<longleftrightarrow> dr_status decision = DS_AUTHORIZED \<and>
        cmd_action_type command = va_action_type (dr_action decision) \<and> (\<exists>x. fst (dispatch X command s) = Inr x)) \<and>
     (\<forall>e. fst (dispatch X command s) = Inl e \<and> dr_status decision = DS_AUTHORIZED \<and>
        cmd_action_type command = va_action_type (dr_action decision) \<longrightarrow> er_status res = EX_FAILED \<and> er_error_code res =
          Some (if (\<exists>i. e = TaskNotFoundError i \<or> e = ReminderNotFoundError i) then EC_NOT_FOUND
                else if (\<exists>m. e = InvalidTaskError m \<or> e = InvalidReminderError m) \<or> is_value_error e then EC_INVALID_INPUT
                else EC_INFRASTRUCTURE)) \<and>
     (er_status res \<noteq> EX_EXECUTED \<longrightarrow> committed s' = committed s)"
proof -
  have code: "error_code_for e = (if (\<exists>i. e = TaskNotFoundError i \<or> e = ReminderNotFoundError i) then EC_NOT_FOUND
                else if (\<exists>m. e = InvalidTaskError m \<or> e = InvalidReminderError m) \<or> is_value_error e then EC_INVALID_INPUT
                else EC_INFRASTRUCTURE)" for e
    by (cases e) auto
  have st: "er_status (executed command x) = EX_EXECUTED" for x by (simp add: executed_def bare_result_def split: entity.splits)
  obtain r t where d: "dispatch X command s = (r, t)" by fastforce
  show ?thesis
    using dispatch_failed [of X command s]
    by (cases r) (auto simp: execute_def d st code [symmetric] bare_result_def)
qed

lemma executor_answers_for_everything_witness:
  "er_error_code (fst (execute (production_env pg_env (\<lambda>_. 100) 9 480)
     \<lparr>dr_status = DS_AUTHORIZED, dr_reason = [], dr_action = \<lparr>va_action_type = DELETE_TASK, va_resource_id = Some 5, va_parameters = []\<rparr>\<rparr>
     \<lparr>cmd_action_type = DELETE_TASK, cmd_resource_id = Some 5, cmd_parameters = []\<rparr> sample_session)) = Some EC_NOT_FOUND"
proof -
  let ?X = "production_env pg_env (\<lambda>_. 100) 9 480"
  let ?c = "\<lparr>cmd_action_type = DELETE_TASK, cmd_resource_id = Some 5, cmd_parameters = []\<rparr>"
  let ?d = "\<lparr>dr_status = DS_AUTHORIZED, dr_reason = [], dr_action = \<lparr>va_action_type = DELETE_TASK, va_resource_id = Some 5, va_parameters = []\<rparr>\<rparr>"
  have "fst (dispatch ?X ?c sample_session) = Inl (TaskNotFoundError 5)"
    by (simp add: dispatch_def with_target_def fst_as_entity module_delete_task_def transact_def delete_task_def task_get_def
        production_env_def Let_def sample_simps)
  with executor_answers_for_everything [of ?X ?d ?c sample_session] show ?thesis by auto
qed

text \<open>C27: The agent clears descriptions: a command of the chat that updates a task and says nothing of its
  description, once it has succeeded, has stored the task it names with no description, whatever was there.\<close>

theorem agent_update_clears_description:
  assumes "binds_plain (x_db X)" and "cmd_action_type c = UPDATE_TASK" and "''description'' \<notin> fst ` set (cmd_parameters c)"
    and "dispatch X c s = (Inr (TaskEntity t), s')"
  shows "cmd_resource_id c = Some (t_id t) \<and> task_get (t_id t) (committed s') = Some t \<and> t_description t = None"
proof -
  have none: "dict_get (cmd_parameters c) ''description'' = PNone"
    using assms(3) by (simp add: dict_get_def map_of_eq_None_iff [THEN iffD2])
  obtain i name dl prio st dur where i: "cmd_resource_id c = Some i"
    and m: "module_update_task (x_db X) (x_clock X) i name (Some PNone) dl prio st dur s = (Inr t, s')"
    using assms(2,4) none
    by (auto simp: dispatch_def Let_def with_value_def with_target_def raises_def as_entity_def split: sum.splits option.splits prod.splits)
  obtain d where d: "update_task (x_db X) (x_clock X) i name (Some PNone) dl prio st dur (working s) = Inr (t, d)"
    and s': "s' = \<lparr>committed = d, working = d\<rparr>"
    using transact_Inr [OF m [unfolded module_update_task_def]] by blast
  let ?p = "\<lparr>p_name = unless_none name, p_description = Some PNone, p_deadline = dl,
       p_priority = unless_none prio, p_status = unless_none st, p_duration = dur\<rparr>"
  obtain old where old: "task_get i (working s) = Some old" "task_repo_update (x_db X) old ?p (x_clock X 1) (working s) = Inr (t, d)"
    using update_task_InrD [OF d] by blast
  obtain b where b: "bind_patch (x_db X) old ?p = Inr b" "t = b \<and> b = old \<or> t = b\<lparr>t_updated_at := from_db (x_db X) (x_clock X 1)\<rparr>"
    using old(2) by (auto simp: task_repo_update_def then_do_eq_Inr Let_def split: if_splits)
  have "t_description b = None" using bind_patch_fields(5) [OF assms(1) b(1)] by simp
  then have "t_description t = None" using b(2) by auto
  moreover have "task_get i d = Some t" "t_id t = i" using task_repo_update_Inr [OF old(2,1)] by simp_all
  ultimately show ?thesis using i s' by simp
qed

lemma agent_update_clears_description_witness:
  "\<exists>t s'. dispatch (production_env pg_env (\<lambda>_. 100) 9 480)
     \<lparr>cmd_action_type = UPDATE_TASK, cmd_resource_id = Some 1, cmd_parameters = [(''status'', PStr ''COMPLETED'')]\<rparr> sample_session
       = (Inr (TaskEntity t), s') \<and> t_description (sample_task 1 1000) = Some ''draft'' \<and>
     task_get 1 (committed s') = Some t \<and> t_description t = None"
proof -
  let ?X = "production_env pg_env (\<lambda>_. 100) 9 480"
  let ?c = "\<lparr>cmd_action_type = UPDATE_TASK, cmd_resource_id = Some 1, cmd_parameters = [(''status'', PStr ''COMPLETED'')]\<rparr>"
  obtain t s' where d: "dispatch ?X ?c sample_session = (Inr (TaskEntity t), s')"
    by (simp add: dispatch_def Let_def with_value_def with_target_def as_entity_def production_env_def opt_datetime_def
        dict_get_def module_update_task_def transact_def update_task_def get_task_def unless_none_def task_repo_update_def
        bind_patch_def set_field_def pg_env_def plain_text_def sample_simps task_get_def commit_def then_do_def)
  have "binds_plain (x_db ?X)" by (simp add: production_env_def binds_plain_pg_env)
  then have r: "cmd_resource_id ?c = Some (t_id t) \<and> task_get (t_id t) (committed s') = Some t \<and> t_description t = None"
    by (rule agent_update_clears_description [OF _ _ _ d]) simp_all
  then have "t_id t = 1" by simp
  with d r show ?thesis by (auto simp: sample_task_def)
qed

end
