(* ===== verification/ResponseGenerator.thy ===== *)
theory ResponseGenerator
  imports Executor
begin

text \<open>
  \<^verbatim>\<open>services/agent_response_generator.py\<close>: an executed analysis is put into words by the language
  model (the argument \<open>model\<close>, of a system and a user prompt, whose answer is already validated),
  or by a template when the model fails. The prompts carry the facts of the payload and nothing else.
\<close>

type_synonym response_llm = "string \<Rightarrow> string \<Rightarrow> exn + string"

subsection \<open>Language detection\<close>

text \<open>
  The letters of \<^verbatim>\<open>_VIETNAMESE_CHARS\<close> in both cases, as UTF-8: leading bytes and the possible
  last bytes.
\<close>

definition vietnamese_bytes :: "(nat list \<times> nat list) list" where
  "vietnamese_bytes =
     [([0xC3], [0x80, 0x81, 0x82, 0x83, 0x88, 0x89, 0x8A, 0x8C, 0x8D, 0x92, 0x93, 0x94, 0x95, 0x99, 0x9A, 0x9D,
                0xA0, 0xA1, 0xA2, 0xA3, 0xA8, 0xA9, 0xAA, 0xAC, 0xAD, 0xB2, 0xB3, 0xB4, 0xB5, 0xB9, 0xBA, 0xBD]),
      ([0xC4], [0x82, 0x83, 0x90, 0x91, 0xA8, 0xA9]),
      ([0xC5], [0xA8, 0xA9]),
      ([0xC6], [0xA0, 0xA1, 0xAF, 0xB0]),
      ([0xE1, 0xBA], [0xA0..<0xC0]),
      ([0xE1, 0xBB], [0x80..<0xBA])]"

definition starts_vietnamese :: "string \<Rightarrow> bool" where
  "starts_vietnamese s = list_ex (\<lambda>(lead, finals).
     length lead < length s \<and> map of_char (take (length lead) s) = lead
     \<and> of_char (s ! length lead) \<in> set finals) vietnamese_bytes"

fun has_vietnamese :: "string \<Rightarrow> bool" where
  "has_vietnamese [] = False"
| "has_vietnamese (c # s) = (starts_vietnamese (c # s) \<or> has_vietnamese s)"

definition detect_language :: "string \<Rightarrow> string option \<Rightarrow> string" where
  "detect_language user_message hint =
     (if hint \<noteq> None \<and> hint \<noteq> Some [] then map to_lower (the hint)
      else if has_vietnamese user_message then ''vi'' else ''en'')"

definition language_name :: "string \<Rightarrow> string" where
  "language_name language = (if language = ''en'' then ''English'' else ''Vietnamese'')"

subsection \<open>Views of the payload\<close>

definition empty_workload :: workload_result where
  "empty_workload = \<lparr>w_total_tasks = 0, w_deadline_collisions = [], w_busy_days = [], w_recommended_order = [],
     w_explanation = [], w_total_planned = 0, w_feasibility_windows = [], w_daily_pressure = [],
     w_overload_warnings = [], w_scheduling_pressure = []\<rparr>"

definition workload_view :: "result_payload option \<Rightarrow> workload_result" where
  \<comment> \<open>\<^verbatim>\<open>payload.get(key, default)\<close> for the keys of a workload\<close>
  "workload_view p = (case p of Some (WorkloadPayload w) \<Rightarrow> w | _ \<Rightarrow> empty_workload)"

definition rescheduling_view :: "result_payload option \<Rightarrow> rescheduling_result" where
  "rescheduling_view p = (case p of Some (ReschedulingPayload r) \<Rightarrow> r | _ \<Rightarrow> empty_result)"

definition str_date :: "int \<Rightarrow> string" where
  \<comment> \<open>str(date)\<close>
  "str_date n = (case ord2ymd n of (y, m, d) \<Rightarrow> pad0 4 y @ ''-'' @ pad0 2 m @ ''-'' @ pad0 2 d)"

definition str_datetime :: "datetime \<Rightarrow> string" where
  "str_datetime d = isoformat '' '' d"

definition str_nat :: "nat \<Rightarrow> string" where
  "str_nat n = str_int (int n)"

subsection \<open>The prompts\<close>

definition workload_facts :: "workload_result \<Rightarrow> string list" where
  "workload_facts w =
     [''- Total active tasks: '' @ str_nat (w_total_tasks w)]
     @ (let cs = w_deadline_collisions w in if cs = [] then []
        else (''- Deadline collisions detected: '' @ str_nat (length cs))
          # map (\<lambda>c. ''  - Same deadline: '' @ join '', '' (map s_task_name (dc_tasks c))) (take 3 cs))
     @ (let bs = w_busy_days w in if bs = [] then []
        else (''- Busy days detected: '' @ str_nat (length bs))
          # map (\<lambda>b. ''  - '' @ str_date (bd_date b) @ '': '' @ str_nat (bd_task_count b) @ '' tasks'') (take 3 bs))
     @ (let rs = w_recommended_order w in if rs = [] then []
        else [''- Recommended order available: '' @ str_nat (length rs) @ '' tasks prioritized''])
     @ (let sp = w_scheduling_pressure w in if sp = [] then []
        else (''- Scheduling pressure detected: '' @ str_nat (length sp) @ '' overlapping feasibility window pair(s)'')
          # map (\<lambda>p. ''  - '' @ sp_task_a_name p @ '' and '' @ sp_task_b_name p @ '': overlap ''
                 @ str_datetime (sp_overlap_start p) @ '' '' @ em_dash @ '' '' @ str_datetime (sp_overlap_end p)) (take 3 sp))"

definition build_workload_prompt :: "string \<Rightarrow> workload_result \<Rightarrow> string" where
  "build_workload_prompt language w = join newline
     [''You are a response generator for a personal task management assistant.'',
      [],
      ''Respond in '' @ language_name language @ ''.'',
      [],
      ''Your task is to explain a workload analysis result to the user in a concise, helpful, conversational tone.'',
      [],
      ''IMPORTANT CONSTRAINTS:'',
      ''- Use ONLY the facts provided below. Never invent tasks, deadlines, or counts.'',
      ''- Never recalculate metrics. Use the exact numbers given.'',
      ''- Never execute actions or make changes.'',
      ''- Never mention internal implementation details.'',
      ''- Keep your response under 500 characters.'',
      ''- Be conversational and helpful.'',
      ''- Focus on what matters most to the user.'',
      [],
      ''STRUCTURED FACTS:'',
      join newline (workload_facts w),
      [],
      ''Generate a natural-language response that explains these facts clearly and helpfully.'']"

definition suggestion_fact :: "nat \<Rightarrow> rescheduling_suggestion \<Rightarrow> string" where
  "suggestion_fact i s =
     str_nat i @ ''. '' @ rs_task_name s @ '' ('' @ str_int (rs_duration s) @ '' minutes, deadline: ''
       @ str_datetime (rs_current_deadline s) @ '')'' @ newline
     @ ''   Candidate: '' @ str_datetime (cs_start (rs_slot s)) @ '' to '' @ str_datetime (cs_end (rs_slot s)) @ newline
     @ ''   Reason: '' @ rs_reason s"

definition unscheduled_fact :: "nat \<Rightarrow> task_summary \<Rightarrow> string" where
  \<comment> \<open>both keys are always present, so an absent value is written None\<close>
  "unscheduled_fact i s =
     str_nat i @ ''. '' @ s_task_name s @ '' (''
       @ (case s_duration s of None \<Rightarrow> ''None'' | Some m \<Rightarrow> str_int m) @ '' min, ''
       @ (case s_deadline s of None \<Rightarrow> ''None'' | Some d \<Rightarrow> str_datetime d) @ '')''"

definition rescheduling_facts :: "rescheduling_result \<Rightarrow> string list" where
  "rescheduling_facts r =
     (let suggestions = rr_suggestions r; unscheduled = rr_unscheduled r in
      [''- Total suggestions generated: '' @ str_nat (length suggestions),
       ''- Tasks that could not be scheduled: '' @ str_nat (length unscheduled)]
      @ (if rr_overloaded_days r = [] then []
         else [''- Days with capacity constraints: '' @ str_nat (length (rr_overloaded_days r))])
      @ (if suggestions = [] then []
         else (newline @ ''FEASIBLE CANDIDATE WINDOWS:'')
           # map (\<lambda>(i, s). suggestion_fact i s) (enumerate 1 (take 5 suggestions))
           @ (if length suggestions > 5
              then [''   ... and '' @ str_int (int (length suggestions) - 5) @ '' more suggestions''] else []))
      @ (if unscheduled = [] then []
         else (newline @ ''COULD NOT SCHEDULE:'')
           # map (\<lambda>(i, s). unscheduled_fact i s) (enumerate 1 (take 3 unscheduled))
           @ (if length unscheduled > 3
              then [''   ... and '' @ str_int (int (length unscheduled) - 3) @ '' more''] else [])))"

definition build_rescheduling_prompt :: "string \<Rightarrow> rescheduling_result \<Rightarrow> string" where
  "build_rescheduling_prompt language r = join newline
     [''You are a response generator for a personal deadline management assistant.'',
      [],
      ''Respond in '' @ language_name language @ ''.'',
      [],
      ''Explain the rescheduling suggestions in a conversational, helpful tone.'',
      [],
      ''CRITICAL CONSTRAINTS - DO NOT VIOLATE:'',
      ''- Use ONLY the facts provided below. Never invent times, dates, tasks, or availability.'',
      ''- Do not recalculate anything. Use exact counts and times from the structured facts.'',
      ''- Do not claim tasks were rescheduled or moved '' @ em_dash @ '' these are SUGGESTIONS only.'',
      ''- Do not claim calendar availability '' @ em_dash @ '' these are CANDIDATE WINDOWS based on constraints.'',
      ''- Do not recommend actions beyond what the structured facts show.'',
      ''- Do not mention system internals, algorithms, or implementation details.'',
      [],
      ''TERMINOLOGY:'',
      ''- Use \"candidate window\" or \"feasible slot\" NOT \"free time\" or \"available time\"'',
      ''- Use \"suggestion\" NOT \"scheduled\" or \"confirmed\"'',
      ''- Use \"could not find a feasible candidate\" NOT \"impossible\" or \"blocked\"'',
      [],
      ''TONE:'',
      ''- Keep response under 500 characters if possible'',
      ''- Be conversational and helpful'',
      ''- Prioritize most urgent or important information'',
      ''- If many suggestions, summarize rather than listing all'',
      [],
      ''STRUCTURED FACTS:'',
      join newline (rescheduling_facts r),
      [],
      ''Generate a natural-language response explaining these rescheduling suggestions clearly and accurately.'']"

definition build_system_prompt :: "string \<Rightarrow> result_payload option \<Rightarrow> action_type \<Rightarrow> string" where
  "build_system_prompt language payload act =
     (if act = SUGGEST_RESCHEDULING then build_rescheduling_prompt language (rescheduling_view payload)
      else build_workload_prompt language (workload_view payload))"

subsection \<open>The templates\<close>

definition rescheduling_fallback :: "rescheduling_result \<Rightarrow> string" where
  "rescheduling_fallback r =
     (let suggestions = rr_suggestions r; unscheduled = rr_unscheduled r; days = rr_overloaded_days r in
      join newline
       ((if suggestions = [] \<and> unscheduled = []
         then [''No rescheduling analysis needed for the selected range.'']
         else if suggestions = []
         then [''No feasible candidate windows found for '' @ str_nat (length unscheduled)
                 @ '' task(s) under current constraints.'']
         else (''Found '' @ str_nat (length suggestions) @ '' feasible rescheduling suggestion''
                 @ (if length suggestions \<noteq> 1 then ''s'' else []) @ ''.'')
           # map (\<lambda>s. ''- '' @ rs_task_name s @ '': candidate window '' @ str_datetime (cs_start (rs_slot s))
                   @ '' to '' @ str_datetime (cs_end (rs_slot s))) (take 5 suggestions))
        @ (if unscheduled = [] then []
           else [str_nat (length unscheduled) @ '' task(s) could not be assigned a feasible candidate under current constraints.''])
        @ (if days = [] then []
           else [str_nat (length days) @ '' day(s) have planned work exceeding the daily budget.''])
        @ [newline @ ''Note: These are suggestions based on known constraints. Candidate windows are not confirmed calendar availability.'']))"

definition fallback_template :: "execution_result \<Rightarrow> string" where
  "fallback_template res =
     (if er_action_type res = SUGGEST_RESCHEDULING then rescheduling_fallback (rescheduling_view (er_payload res))
      else or_text (w_explanation (workload_view (er_payload res))) (er_message res))"

definition generate_response ::
  "response_llm \<Rightarrow> bool \<Rightarrow> execution_result \<Rightarrow> string \<Rightarrow> string option \<Rightarrow> exn + string" where
  "generate_response model enable_llm res user_message hint =
     (if er_action_type res \<notin> analysis_actions then Inr (er_message res)
      else if \<not> enable_llm \<or> er_payload res = None then Inr (fallback_template res)
      else (let language = detect_language user_message hint;
                system_prompt = build_system_prompt language (er_payload res) (er_action_type res) in
            case model system_prompt user_message of
              Inr response \<Rightarrow> Inr response
            | Inl (LLMGenerationError _) \<Rightarrow> Inr (fallback_template res)
            | Inl e \<Rightarrow> Inl e))"

lemma generate_response_Inl:
  "generate_response model b res msg hint = Inl e \<Longrightarrow>
     (\<exists>p. model p msg = Inl e) \<and> (\<forall>m. e \<noteq> LLMGenerationError m)"
  by (auto simp: generate_response_def Let_def split: if_splits sum.splits exn.splits)

end
