(* ===== verification/AgentHandler.thy ===== *)
theory AgentHandler
  imports Confirmations ResponseGenerator
begin

text \<open>
  \<^verbatim>\<open>handlers/agent_handler.py\<close>: one chat request, from the housekeeping of confirmations to the
  response. The language models, the JSON codec, the texts of messages, the clock readings and the
  next primary keys are the fields of \<open>chat_env\<close>.
\<close>

subsection \<open>schemas/agent_chat.py\<close>

datatype chat_status = AC_EXECUTED | AC_CONFIRMATION_REQUIRED | AC_DENIED | AC_NOT_CONFIGURED
  | AC_CLARIFICATION_REQUIRED | AC_REJECTED | AC_CONVERSATION | AC_ERROR | AC_EXPIRED | AC_INVALID_INPUT

record chat_response =
  ch_status :: chat_status
  ch_message :: string
  ch_execution_result :: "execution_result option"
  ch_confirmation_id :: "uuid option"

record chat_env =
  h_exec :: executor_env
  h_auth :: auth_settings
  h_ttl_seconds :: int
  h_json :: json_codec
  h_texts :: texts
  h_llm :: llm
  h_response_llm :: response_llm
  h_new_confirmation_id :: uuid
  h_now_cleanup :: int
  h_now_confirm :: int
  h_now_create :: int

definition plain_chat :: "chat_status \<Rightarrow> string \<Rightarrow> chat_response" where
  "plain_chat st msg = \<lparr>ch_status = st, ch_message = msg, ch_execution_result = None, ch_confirmation_id = None\<rparr>"

subsection \<open>Status maps\<close>

definition interpreter_status_map :: "response_type \<Rightarrow> exn + chat_status" where
  "interpreter_status_map ty = (case ty of
     CLARIFICATION_REQUIRED \<Rightarrow> Inr AC_CLARIFICATION_REQUIRED
   | REJECTED \<Rightarrow> Inr AC_REJECTED
   | CONVERSATION \<Rightarrow> Inr AC_CONVERSATION
   | _ \<Rightarrow> Inl (KeyError ''response_type''))"

definition validation_status_map :: "validation_status \<Rightarrow> exn + chat_status" where
  "validation_status_map st = (case st of
     VS_CLARIFICATION_REQUIRED \<Rightarrow> Inr AC_CLARIFICATION_REQUIRED
   | VS_REJECTED \<Rightarrow> Inr AC_REJECTED
   | VS_VALID \<Rightarrow> Inl (KeyError ''validation_status''))"

definition agent_status_for :: "execution_result \<Rightarrow> chat_status" where
  "agent_status_for res =
     (if er_status res = EX_EXECUTED then AC_EXECUTED
      else if er_error_code res = Some EC_INVALID_INPUT then AC_INVALID_INPUT else AC_ERROR)"

subsection \<open>Executing and wording\<close>

definition response_message :: "chat_env \<Rightarrow> execution_result \<Rightarrow> string \<Rightarrow> exn + string" where
  "response_message H res msg =
     (if er_status res = EX_EXECUTED \<and> er_action_type res = ANALYZE_WORKLOAD
      then generate_response (h_response_llm H) True res msg None else Inr (er_message res))"

definition run_command ::
  "chat_env \<Rightarrow> decision_result \<Rightarrow> execution_command \<Rightarrow> string \<Rightarrow> uuid option \<Rightarrow> session
     \<Rightarrow> (exn + chat_response) \<times> session" where
  \<comment> \<open>execute, word the result, answer: the common tail of both branches\<close>
  "run_command H decision command msg reference s =
     (case execute (h_exec H) decision command s of (res, s') \<Rightarrow>
        (then_do (response_message H res msg) (\<lambda>text.
           Inr \<lparr>ch_status = agent_status_for res, ch_message = text, ch_execution_result = Some res,
                ch_confirmation_id = reference\<rparr>), s'))"

subsection \<open>The confirmation branch\<close>

definition decision_for :: "execution_command \<Rightarrow> decision_result" where
  "decision_for command = \<lparr>dr_status = DS_AUTHORIZED, dr_reason = ''Confirmed by the user.'',
     dr_action = \<lparr>va_action_type = cmd_action_type command, va_resource_id = cmd_resource_id command,
                  va_parameters = cmd_parameters command\<rparr>\<rparr>"

definition refused :: "uuid \<Rightarrow> confirm_outcome \<Rightarrow> chat_response" where
  \<comment> \<open>the answers for the outcomes that do not execute\<close>
  "refused i outcome = (case outcome of
     CO_NOT_FOUND \<Rightarrow> plain_chat AC_CLARIFICATION_REQUIRED ''No pending confirmation found for this reference.''
   | CO_ALREADY_CONFIRMED \<Rightarrow> (plain_chat AC_CLARIFICATION_REQUIRED
       ''This request has already been processed. Please send a new request if you need to do it again.'')
         \<lparr>ch_confirmation_id := Some i\<rparr>
   | CO_EXPIRED \<Rightarrow> (plain_chat AC_EXPIRED
       ''This confirmation request has expired. Please send your original request again.'')
         \<lparr>ch_confirmation_id := Some i\<rparr>
   | _ \<Rightarrow> (plain_chat AC_CLARIFICATION_REQUIRED
       ''This confirmation is no longer valid. Please send a new request.'')\<lparr>ch_confirmation_id := Some i\<rparr>)"

definition confirm_and_run ::
  "chat_env \<Rightarrow> string \<Rightarrow> uuid option \<Rightarrow> uuid \<Rightarrow> session \<Rightarrow> (exn + chat_response) \<times> session" where
  "confirm_and_run H msg user i s =
     (case confirm (x_db (h_exec H)) (h_now_confirm H) i user s of
        (Inl e, s1) \<Rightarrow> (Inl e, s1)
      | (Inr result, s1) \<Rightarrow>
          if cr_outcome result \<noteq> CO_CONFIRMED then (Inr (refused i (cr_outcome result)), s1)
          else (case cr_confirmation result of
                  None \<Rightarrow> (Inl (AttributeError ''execution_command''), s1)
                | Some c \<Rightarrow> (case load_command (h_json H) (c_execution_command c) of
                     Inl e \<Rightarrow> (Inl e, s1)
                   | Inr command \<Rightarrow> run_command H (decision_for command) command msg (Some i) s1)))"

definition handle_confirmation ::
  "chat_env \<Rightarrow> string \<Rightarrow> uuid option \<Rightarrow> uuid option \<Rightarrow> session \<Rightarrow> (exn + chat_response) \<times> session" where
  "handle_confirmation H msg user reference s =
     (case reference of
        Some i \<Rightarrow> confirm_and_run H msg user i s
      | None \<Rightarrow> (case get_latest_pending user s of
           None \<Rightarrow> (Inr (plain_chat AC_CLARIFICATION_REQUIRED
              ''I don't see a pending action to confirm. Please send your original request again.''), s)
         | Some latest \<Rightarrow> confirm_and_run H msg user (c_id latest) s))"

subsection \<open>The proposal branch\<close>

definition branch_on_decision ::
  "chat_env \<Rightarrow> string \<Rightarrow> uuid option \<Rightarrow> decision_result \<Rightarrow> session \<Rightarrow> (exn + chat_response) \<times> session" where
  "branch_on_decision H msg user decision s =
     (let command = command_from_decision decision in
      case dr_status decision of
        DS_AUTHORIZED \<Rightarrow> run_command H decision command msg None s
      | DS_CONFIRMATION_REQUIRED \<Rightarrow>
          (case create_confirmation (x_db (h_exec H)) (h_json H) (h_new_confirmation_id H) (h_now_create H)
                  user command (h_ttl_seconds H) s of
             (Inl e, s') \<Rightarrow> (Inl e, s')
           | (Inr c, s') \<Rightarrow> (Inr \<lparr>ch_status = AC_CONFIRMATION_REQUIRED,
                ch_message = dr_reason decision @ '' Reply 'yes' to confirm (reference: '' @ uuid_str (c_id c) @ '').'',
                ch_execution_result = None, ch_confirmation_id = Some (c_id c)\<rparr>, s'))
      | DS_DENIED \<Rightarrow> (Inr (plain_chat AC_DENIED (dr_reason decision)), s)
      | DS_NOT_CONFIGURED \<Rightarrow> (Inr (plain_chat AC_NOT_CONFIGURED (dr_reason decision)), s))"

definition handle_proposal ::
  "chat_env \<Rightarrow> string \<Rightarrow> uuid option \<Rightarrow> action_proposal \<Rightarrow> session \<Rightarrow> (exn + chat_response) \<times> session" where
  "handle_proposal H msg user proposal s =
     (case validate_proposal (h_texts H) proposal of
        Inl e \<Rightarrow> (Inl e, s)
      | Inr validation \<Rightarrow>
          if vr_status validation \<noteq> VS_VALID
          then (then_do (validation_status_map (vr_status validation)) (\<lambda>st.
                  Inr (plain_chat st (vr_message validation))), s)
          else (let resolution = resolve_proposal (x_db (h_exec H)) proposal (working s) in
                if rr_status resolution \<noteq> VS_VALID
                then (Inr (plain_chat AC_CLARIFICATION_REQUIRED (rr_message resolution)), s)
                else (case rr_action resolution of
                        None \<Rightarrow> (Inl (AttributeError ''action_type''), s)
                      | Some act \<Rightarrow> branch_on_decision H msg user (decide (h_auth H) act user) s)))"

subsection \<open>The request\<close>

definition process :: "chat_env \<Rightarrow> string \<Rightarrow> uuid option \<Rightarrow> session \<Rightarrow> (exn + chat_response) \<times> session" where
  "process H msg user s =
     (case cleanup_expired (x_db (h_exec H)) (h_now_cleanup H) s of
        (Inl e, s0) \<Rightarrow> (Inl e, s0)
      | (Inr _, s0) \<Rightarrow>
          (case interpret_message (h_llm H) msg of
             Inl e \<Rightarrow> (Inl e, s0)
           | Inr response \<Rightarrow>
               if ar_response_type response = CONFIRMATION
               then handle_confirmation H msg user (ar_confirmation_id response) s0
               else (case ar_proposal response of
                       None \<Rightarrow> (then_do (interpreter_status_map (ar_response_type response)) (\<lambda>st.
                                  Inr (plain_chat st (ar_message response))), s0)
                     | Some proposal \<Rightarrow> handle_proposal H msg user proposal s0)))"

definition error_response :: chat_response where
  "error_response = plain_chat AC_ERROR ''Something went wrong. Please try again.''"

definition agent_chat :: "chat_env \<Rightarrow> string \<Rightarrow> uuid option \<Rightarrow> db \<Rightarrow> chat_response \<times> db" where
  \<comment> \<open>a session of its own for the request, closed at its end; any exception becomes ERROR\<close>
  "agent_chat H msg user d =
     (case process H msg user \<lparr>committed = d, working = d\<rparr> of
        (Inl e, s) \<Rightarrow> (error_response, committed s)
      | (Inr r, s) \<Rightarrow> (r, committed s))"

subsection \<open>What a request may do to the stored rows\<close>

text \<open>
  The abstract effect of a chat: nothing; a destructive command stored for the user; a confirmation
  settled; a confirmation of the user's own, pending and not expired, settled and its stored command
  run; or a command that is not destructive run for an authorized actor. What the language model
  answers decides which, never more.
\<close>

definition fresh :: "db \<Rightarrow> session" where
  "fresh d = \<lparr>committed = d, working = d\<rparr>"

lemma fresh_simps [simp]: "committed (fresh d) = d" "working (fresh d) = d" "clean (fresh d)"
  by (simp_all add: fresh_def clean_def)

lemma clean_fresh: "clean s \<Longrightarrow> s = fresh (committed s)"
  by (cases s) (simp add: fresh_def clean_def)

inductive chat_effect :: "chat_env \<Rightarrow> uuid option \<Rightarrow> db \<Rightarrow> db \<Rightarrow> bool" for H :: chat_env and user :: "uuid option" where
  nothing: "chat_effect H user d d"
| stored: "cmd_action_type command \<in> destructive_actions \<Longrightarrow> cmd_resource_id command \<noteq> None \<Longrightarrow>
    az_status (authorize (h_auth H) user) = AS_AUTHORIZED \<Longrightarrow>
    confirmation_repo_create (new_confirmation (x_db (h_exec H)) (h_json H) (h_new_confirmation_id H)
      (h_now_create H) user command expires) d = Inr (c, d') \<Longrightarrow> chat_effect H user d d'"
| settled: "chat_effect H user d (confirm_rows (h_now_confirm H) i user d)"
| confirmed: "confirmation_get i d = Some c \<Longrightarrow>
    confirm_verdict (h_now_confirm H) user (Some c) = CO_CONFIRMED \<Longrightarrow>
    load_command (h_json H) (c_execution_command c) = Inr command \<Longrightarrow>
    chat_effect H user d (committed (snd (dispatch (h_exec H) command
      (fresh (confirm_rows (h_now_confirm H) i user d)))))"
| executed: "cmd_action_type command \<notin> destructive_actions \<Longrightarrow>
    az_status (authorize (h_auth H) user) = AS_AUTHORIZED \<Longrightarrow>
    chat_effect H user d (committed (snd (dispatch (h_exec H) command (fresh d))))"

lemma run_command_session:
  "snd (run_command H decision command msg reference s) = snd (execute (h_exec H) decision command s)"
  by (simp add: run_command_def split: prod.splits)

lemma run_command_effect:
  "snd (run_command H decision command msg reference s) \<in> {s, snd (dispatch (h_exec H) command s)}"
  using execute_session [of "h_exec H" decision command s] by (auto simp: run_command_session)

lemma confirm_session_cases:
  assumes "db_integrity d" and "confirm E now i user (fresh d) = (r, s1)"
  shows "(\<exists>e. r = Inl e) \<and> s1 = fresh d \<or>
    (\<exists>res. r = Inr res \<and> s1 = fresh (confirm_rows now i user d) \<and>
       cr_outcome res = confirm_verdict now user (confirmation_get i d) \<and>
       (cr_outcome res = CO_CONFIRMED \<longrightarrow>
          (\<exists>c. confirmation_get i d = Some c \<and> cr_confirmation res = Some (settle CO_CONFIRMED c))))"
proof -
  note spec = confirm_spec [of "fresh d" E now i user, simplified, OF assms(1)]
  have same: "(\<exists>c. confirmation_get i d = Some c)" if "confirm_verdict now user (confirmation_get i d) = CO_CONFIRMED"
    using that by (cases "confirmation_get i d") auto
  show ?thesis
  proof (cases "confirm_rows now i user d = d")
    case True
    with spec assms(2) same show ?thesis by (auto simp: Let_def)
  next
    case False
    with spec assms(2) same show ?thesis
      by (cases "commit_exn E (confirm_rows now i user d)")
        (auto simp: Let_def commit_or_rollback_cases fresh_def rollback_def)
  qed
qed

lemma settle_command [simp]: "c_execution_command (settle out c) = c_execution_command c"
  by (simp add: settle_def)

lemma confirm_and_run_effect:
  assumes "db_integrity d"
  shows "chat_effect H user d (committed (snd (confirm_and_run H msg user i (fresh d))))"
proof -
  let ?E = "x_db (h_exec H)" and ?now = "h_now_confirm H"
  let ?d1 = "confirm_rows ?now i user d"
  obtain r s1 where c: "confirm ?E ?now i user (fresh d) = (r, s1)" by fastforce
  from confirm_session_cases [OF assms c] show ?thesis
  proof (elim disjE conjE exE)
    fix e assume "r = Inl e" "s1 = fresh d"
    then show ?thesis using c by (simp add: confirm_and_run_def chat_effect.nothing)
  next
    fix res assume r: "r = Inr res" "s1 = fresh ?d1"
      and out: "cr_outcome res = confirm_verdict ?now user (confirmation_get i d)"
      and row: "cr_outcome res = CO_CONFIRMED \<longrightarrow>
          (\<exists>c. confirmation_get i d = Some c \<and> cr_confirmation res = Some (settle CO_CONFIRMED c))"
    show ?thesis
    proof (cases "cr_outcome res = CO_CONFIRMED")
      case False
      then show ?thesis using c r by (simp add: confirm_and_run_def settled)
    next
      case True
      then obtain x where x: "confirmation_get i d = Some x" "cr_confirmation res = Some (settle CO_CONFIRMED x)"
        using row by auto
      show ?thesis
      proof (cases "load_command (h_json H) (c_execution_command x)")
        case (Inl e)
        then show ?thesis using c r True x by (simp add: confirm_and_run_def settled)
      next
        case (Inr command)
        let ?final = "run_command H (decision_for command) command msg (Some i) (fresh ?d1)"
        have final: "confirm_and_run H msg user i (fresh d) = ?final"
          using c r True x Inr by (simp add: confirm_and_run_def)
        have v: "confirm_verdict ?now user (Some x) = CO_CONFIRMED" using True out x(1) by (simp only:)
        from run_command_effect [of H "decision_for command" command msg "Some i" "fresh ?d1"]
        consider "snd ?final = fresh ?d1" | "snd ?final = snd (dispatch (h_exec H) command (fresh ?d1))" by blast
        then show ?thesis
        proof cases
          case 1
          then show ?thesis unfolding final by (simp add: settled)
        next
          case 2
          then show ?thesis unfolding final using chat_effect.confirmed [OF x(1) v Inr] by simp
        qed
      qed
    qed
  qed
qed

lemma handle_confirmation_effect:
  assumes "db_integrity d"
  shows "chat_effect H user d (committed (snd (handle_confirmation H msg user reference (fresh d))))"
  using confirm_and_run_effect [OF assms]
  by (auto simp: handle_confirmation_def chat_effect.nothing split: option.splits)

lemma branch_on_decision_effect:
  assumes "decision = decide (h_auth H) act user"
    and target: "va_action_type act \<in> destructive_actions \<Longrightarrow> va_resource_id act \<noteq> None"
  shows "chat_effect H user d (committed (snd (branch_on_decision H msg user decision (fresh d))))"
proof -
  let ?az = "az_status (authorize (h_auth H) user)"
  let ?command = "command_from_decision decision"
  have cmd: "cmd_action_type ?command = va_action_type act" "cmd_resource_id ?command = va_resource_id act"
    using assms(1) decide_status(2) by (simp_all add: command_from_decision_def)
  show ?thesis
  proof (cases "dr_status decision")
    case DS_AUTHORIZED
    then have az: "?az = AS_AUTHORIZED" "va_action_type act \<notin> destructive_actions"
      using assms(1) decide_status(1) [of "h_auth H" act user] by (auto split: if_splits)
    from run_command_effect [of H decision ?command msg None "fresh d"]
    have "committed (snd (run_command H decision ?command msg None (fresh d))) \<in>
        {d, committed (snd (dispatch (h_exec H) ?command (fresh d)))}" by auto
    then show ?thesis
      using DS_AUTHORIZED az cmd chat_effect.nothing chat_effect.executed [of ?command H user d]
      by (auto simp: branch_on_decision_def Let_def)
  next
    case DS_CONFIRMATION_REQUIRED
    then have az: "?az = AS_AUTHORIZED" "va_action_type act \<in> destructive_actions"
      using assms(1) decide_status(1) [of "h_auth H" act user] by (auto split: if_splits)
    let ?r = "create_confirmation (x_db (h_exec H)) (h_json H) (h_new_confirmation_id H) (h_now_create H)
                user ?command (h_ttl_seconds H) (fresh d)"
    have eq: "committed (snd (branch_on_decision H msg user decision (fresh d))) = committed (snd ?r)"
      using DS_CONFIRMATION_REQUIRED by (simp add: branch_on_decision_def Let_def split: prod.splits sum.splits)
    have "committed (snd ?r) = d \<or> (\<exists>expires c. confirmation_repo_create
        (new_confirmation (x_db (h_exec H)) (h_json H) (h_new_confirmation_id H) (h_now_create H) user ?command expires) d
        = Inr (c, committed (snd ?r)))"
      using create_confirmation_committed [of "fresh d" "x_db (h_exec H)" "h_json H" "h_new_confirmation_id H"
          "h_now_create H" user ?command "h_ttl_seconds H"] by simp
    then show ?thesis
    proof (elim disjE exE)
      assume "committed (snd ?r) = d"
      then show ?thesis unfolding eq by (simp add: chat_effect.nothing)
    next
      fix expires c assume "confirmation_repo_create
        (new_confirmation (x_db (h_exec H)) (h_json H) (h_new_confirmation_id H) (h_now_create H) user ?command expires) d
        = Inr (c, committed (snd ?r))"
      then show ?thesis unfolding eq
        by (rule stored [rotated 3]) (use az cmd target in auto)
    qed
  qed (simp_all add: branch_on_decision_def Let_def chat_effect.nothing)
qed

lemma resolved_target:
  assumes "rr_action (resolve_proposal E p d) = Some act" and "ap_action_type p \<notin> no_resource_actions"
  shows "va_resource_id act \<noteq> None"
  using assms
  by (auto simp: resolve_proposal_def resolve_natural_language_def no_resource_actions_def unresolved_def resolved_def Let_def
      split: if_splits option.splits)

lemma handle_proposal_effect: "chat_effect H user d (committed (snd (handle_proposal H msg user p (fresh d))))"
proof (cases "validate_proposal (h_texts H) p")
  case (Inr v)
  show ?thesis
  proof (cases "vr_status v = VS_VALID \<and> rr_status (resolve_proposal (x_db (h_exec H)) p d) = VS_VALID")
    case True
    then obtain act where act: "rr_action (resolve_proposal (x_db (h_exec H)) p d) = Some act"
      using resolved_iff [of "x_db (h_exec H)" p d] by auto
    have "va_resource_id act \<noteq> None" if "va_action_type act \<in> destructive_actions"
    proof -
      have "ap_action_type p \<notin> no_resource_actions"
        using that resolved_action [OF act] by (auto simp: destructive_actions_def no_resource_actions_def)
      then show ?thesis by (rule resolved_target [OF act])
    qed
    then show ?thesis
      using branch_on_decision_effect [OF refl, of act H user d msg] Inr True act
      by (simp add: handle_proposal_def Let_def)
  next
    case False
    then show ?thesis using Inr by (auto simp: handle_proposal_def Let_def chat_effect.nothing)
  qed
qed (simp add: handle_proposal_def chat_effect.nothing)

definition after_cleanup :: "chat_env \<Rightarrow> db \<Rightarrow> db set" where
  \<comment> \<open>the rows after the housekeeping, which may fail to commit\<close>
  "after_cleanup H d = {d, snd (mark_expired (h_now_cleanup H) d)}"

lemma agent_chat_effect:
  assumes "db_integrity d"
  shows "\<exists>d0 \<in> after_cleanup H d. chat_effect H user d0 (snd (agent_chat H msg user d))"
proof -
  obtain r s0 where c: "cleanup_expired (x_db (h_exec H)) (h_now_cleanup H) (fresh d) = (r, s0)" by fastforce
  have s0: "s0 = fresh (committed s0)" "committed s0 \<in> after_cleanup H d"
    using cleanup_committed [of "fresh d" "x_db (h_exec H)" "h_now_cleanup H"] c clean_fresh
    by (auto simp: after_cleanup_def)
  define d0 where "d0 = committed s0"
  have ok: "db_integrity d0"
    using s0(2) assms integrity_mark_expired by (auto simp: d0_def after_cleanup_def)
  have "chat_effect H user d0 (committed (snd (process H msg user (fresh d))))"
    using c s0(1) handle_confirmation_effect [OF ok] handle_proposal_effect
    by (auto simp: process_def d0_def [symmetric] chat_effect.nothing split: sum.splits option.splits)
  moreover have "snd (agent_chat H msg user d) = committed (snd (process H msg user (fresh d)))"
    by (simp add: agent_chat_def fresh_def split: prod.splits sum.splits)
  ultimately show ?thesis using s0(2) by (auto simp: d0_def)
qed

subsection \<open>When nothing is reported as executed\<close>

definition unanswered :: "(exn + chat_response) \<times> session \<Rightarrow> bool" where
  \<comment> \<open>the outcome does not tell the user that something was executed\<close>
  "unanswered p = (case fst p of Inl e \<Rightarrow> True | Inr r \<Rightarrow> ch_status r \<noteq> AC_EXECUTED)"

definition rows_kept :: "db \<Rightarrow> db \<Rightarrow> bool" where
  "rows_kept d d' \<longleftrightarrow> tasks d' = tasks d \<and> reminders d' = reminders d"

lemma rows_kept_refl [simp]: "rows_kept d d"
  by (simp add: rows_kept_def)

lemma rows_kept_trans: "rows_kept a b \<Longrightarrow> rows_kept b c \<Longrightarrow> rows_kept a c"
  by (simp add: rows_kept_def)

lemma run_command_silent:
  assumes "unanswered (run_command H decision command msg reference s)"
  shows "committed (snd (run_command H decision command msg reference s)) = committed s"
proof -
  obtain res s' where e: "execute (h_exec H) decision command s = (res, s')" by fastforce
  show ?thesis
  proof (cases "er_status res = EX_EXECUTED")
    case False
    then show ?thesis using execute_unchanged [of "h_exec H" decision command s] e by (simp add: run_command_session)
  next
    case True
    then obtain x where f: "response_message H res msg = Inl x"
      using assms e by (cases "response_message H res msg") (auto simp: unanswered_def run_command_def agent_status_for_def)
    then have "er_action_type res = ANALYZE_WORKLOAD" by (auto simp: response_message_def split: if_splits)
    then have "cmd_action_type command = ANALYZE_WORKLOAD"
      using e by (auto simp: execute_def executed_def bare_result_def split: if_splits prod.splits sum.splits entity.splits)
    then have "snd (dispatch (h_exec H) command s) = s" by (intro dispatch_analysis) (simp add: analysis_actions_def)
    then show ?thesis using run_command_effect [of H decision command msg reference s] by auto
  qed
qed

lemma confirm_and_run_silent:
  assumes "db_integrity d" and "unanswered (confirm_and_run H msg user i (fresh d))"
  shows "rows_kept d (committed (snd (confirm_and_run H msg user i (fresh d))))"
proof -
  let ?E = "x_db (h_exec H)" and ?now = "h_now_confirm H"
  let ?d1 = "confirm_rows ?now i user d"
  obtain r s1 where c: "confirm ?E ?now i user (fresh d) = (r, s1)" by fastforce
  have s1: "rows_kept d (committed s1)"
    using confirm_committed [of "fresh d" ?E ?now i user] assms(1) c by (auto simp: rows_kept_def)
  show ?thesis
  proof (cases "\<exists>command. confirm_and_run H msg user i (fresh d) = run_command H (decision_for command) command msg (Some i) s1")
    case True
    then obtain command where run: "confirm_and_run H msg user i (fresh d) = run_command H (decision_for command) command msg (Some i) s1" ..
    show ?thesis using run_command_silent [of H "decision_for command" command msg "Some i" s1] assms(2) s1 run by simp
  next
    case False
    then have "snd (confirm_and_run H msg user i (fresh d)) = s1"
      using c by (auto simp: confirm_and_run_def split: sum.splits option.splits if_splits)
    then show ?thesis using s1 by simp
  qed
qed

lemma handle_confirmation_silent:
  assumes "db_integrity d" and "unanswered (handle_confirmation H msg user reference (fresh d))"
  shows "rows_kept d (committed (snd (handle_confirmation H msg user reference (fresh d))))"
  using assms confirm_and_run_silent by (auto simp: handle_confirmation_def split: option.splits)

lemma branch_on_decision_silent:
  assumes "unanswered (branch_on_decision H msg user decision (fresh d))"
  shows "rows_kept d (committed (snd (branch_on_decision H msg user decision (fresh d))))"
proof (cases "dr_status decision")
  case DS_AUTHORIZED
  then show ?thesis
    using assms run_command_silent [of H decision "command_from_decision decision" msg None "fresh d"]
    by (simp add: branch_on_decision_def)
next
  case DS_CONFIRMATION_REQUIRED
  let ?r = "create_confirmation (x_db (h_exec H)) (h_json H) (h_new_confirmation_id H) (h_now_create H)
      user (command_from_decision decision) (h_ttl_seconds H) (fresh d)"
  have "snd (branch_on_decision H msg user decision (fresh d)) = snd ?r"
    using DS_CONFIRMATION_REQUIRED by (simp add: branch_on_decision_def Let_def split: prod.splits sum.splits)
  moreover have "rows_kept d (committed (snd ?r))"
    using create_confirmation_committed [of "fresh d" "x_db (h_exec H)" "h_json H" "h_new_confirmation_id H"
        "h_now_create H" user "command_from_decision decision" "h_ttl_seconds H"]
    by (auto simp: rows_kept_def confirmation_repo_create_Inr confirmation_insert_def)
  ultimately show ?thesis by simp
qed (simp_all add: branch_on_decision_def)

lemma handle_proposal_silent:
  assumes "unanswered (handle_proposal H msg user p (fresh d))"
  shows "rows_kept d (committed (snd (handle_proposal H msg user p (fresh d))))"
proof (cases "\<exists>act. handle_proposal H msg user p (fresh d) = branch_on_decision H msg user (decide (h_auth H) act user) (fresh d)")
  case True
  then show ?thesis using branch_on_decision_silent assms by metis
next
  case False
  then have "snd (handle_proposal H msg user p (fresh d)) = fresh d"
    by (auto simp: handle_proposal_def Let_def split: sum.splits option.splits if_splits)
  then show ?thesis by simp
qed

end
