(* ===== verification/Api.thy ===== *)
theory Api
  imports TaskUseCases ReminderUseCases PyUuid
begin

text \<open>
  The HTTP boundary of tasks and reminders: the request models of \<^verbatim>\<open>schemas/task.py\<close> and
  \<^verbatim>\<open>schemas/reminder.py\<close> with their validators, the endpoints of \<^verbatim>\<open>handlers/task_handler.py\<close>
  and \<^verbatim>\<open>handlers/reminder_handler.py\<close>, and the exception handlers of \<^verbatim>\<open>main.py\<close>. Reading
  the JSON of a body into typed fields is pydantic's; a request record holds the typed fields before
  the program's validators run. \<open>None\<close> of an outer \<open>option\<close> means "not in \<^verbatim>\<open>model_fields_set\<close>".
\<close>

subsection \<open>Responses and exception handlers\<close>

record 'a http_response =
  rp_status :: int
  rp_success :: bool
  rp_message :: string
  rp_error :: "(string \<times> string) option"
  rp_data :: "'a option"

definition success :: "int \<Rightarrow> string \<Rightarrow> 'a option \<Rightarrow> 'a http_response" where
  "success code msg x = \<lparr>rp_status = code, rp_success = True, rp_message = msg, rp_error = None, rp_data = x\<rparr>"

definition failure :: "int \<Rightarrow> string \<Rightarrow> string \<Rightarrow> string \<Rightarrow> 'a http_response" where
  "failure code msg error_code detail =
     \<lparr>rp_status = code, rp_success = False, rp_message = msg, rp_error = Some (error_code, detail), rp_data = None\<rparr>"

fun exception_response :: "exn \<Rightarrow> 'a http_response" where
  "exception_response (TaskNotFoundError i) =
     failure 404 ''Task not found'' ''TASK_NOT_FOUND'' (''Task not found: '' @ uuid_str i)"
| "exception_response (ReminderNotFoundError i) =
     failure 404 ''Reminder not found'' ''REMINDER_NOT_FOUND'' (''Reminder not found: '' @ uuid_str i)"
| "exception_response (InvalidReminderError m) = failure 400 m ''INVALID_REMINDER'' m"
| "exception_response (InvalidTaskError m) = failure 400 m ''INVALID_TASK'' m"
| "exception_response _ = failure 500 ''Internal server error'' ''INTERNAL_SERVER_ERROR'' ''Internal server error''"

definition validation_response :: "(string list \<times> string) list \<Rightarrow> 'a http_response" where
  \<comment> \<open>the handler of \<^verbatim>\<open>RequestValidationError\<close>: every error with its location\<close>
  "validation_response errors =
     (let messages = map (\<lambda>(loc, msg). if join ''.'' loc \<noteq> [] then join ''.'' loc @ '': '' @ msg else msg) errors
      in failure 400 ''Validation error'' ''VALIDATION_ERROR''
           (if messages \<noteq> [] then join ''; '' messages else ''Invalid request''))"

subsection \<open>Health endpoints\<close>

text \<open>\<^verbatim>\<open>handlers/health.py\<close>: a status code with its JSON object. Opening the session, the probe and the closing
  are the database's; an exception of the first or the last reaches the exception handlers.\<close>

definition health_check :: "int \<times> (string \<times> string) list" where
  "health_check = (200, [(''status'', ''ok'')])"

definition readiness_check ::
  "exn + unit \<Rightarrow> exn + unit \<Rightarrow> exn + unit \<Rightarrow> exn + int \<times> (string \<times> string) list" where
  "readiness_check open_session probe close_session =
     then_do open_session (\<lambda>_. then_do close_session (\<lambda>_. Inr (case probe of
        Inl e \<Rightarrow> (503, [(''status'', ''not ready'')])
      | Inr _ \<Rightarrow> (200, [(''status'', ''ready'')]))))"

lemma ready_iff_reachable:
  "readiness_check open_session probe close_session = Inr (200, body) \<longleftrightarrow>
     open_session = Inr () \<and> probe = Inr () \<and> close_session = Inr () \<and> body = [(''status'', ''ready'')]"
  by (auto simp: readiness_check_def then_do_eq_Inr split: sum.splits)

subsection \<open>Field validators\<close>

text \<open>
  A validator accepts a value, adds an error to the report (a \<open>ValueError\<close>), or lets another
  exception through, which is a server error.
\<close>

definition naive_message :: string where
  "naive_message = ''Value error, datetime must be timezone-aware (e.g. '2026-10-01T12:00:00+07:00' or '2026-10-01T12:00:00Z'); naive datetimes are not accepted''"

definition aware_field :: "string \<Rightarrow> pydatetime \<Rightarrow> exn + datetime option \<times> (string list \<times> string) list" where
  "aware_field loc x = (case require_aware_utc x of
     Inr d \<Rightarrow> Inr (Some d, [])
   | Inl e \<Rightarrow> if is_value_error e then Inr (None, [([''body'', loc], naive_message)]) else Inl e)"

definition positive_duration :: "int option \<Rightarrow> (string list \<times> string) list" where
  "positive_duration v = (case v of
     Some m \<Rightarrow> if m \<le> 0 then [([''body'', ''durationMinutes''], ''Value error, duration_minutes must be a positive integer'')] else []
   | None \<Rightarrow> [])"

definition description_field :: "pyval option \<Rightarrow> (string list \<times> string) list" where
  "description_field v = (case v of
     None \<Rightarrow> [] | Some PNone \<Rightarrow> [] | Some (PStr _) \<Rightarrow> []
   | _ \<Rightarrow> [([''body'', ''description''], ''Value error, description must be a string or null'')])"

definition duration_field :: "pyval option \<Rightarrow> (string list \<times> string) list" where
  \<comment> \<open>a bool is an int of Python's, so true passes as 1\<close>
  "duration_field v = (case v of
     None \<Rightarrow> [] | Some PNone \<Rightarrow> []
   | Some (PInt m) \<Rightarrow> if m > 0 then [] else [([''body'', ''durationMinutes''], ''Value error, duration_minutes must be a positive integer or null'')]
   | Some (PBool True) \<Rightarrow> []
   | _ \<Rightarrow> [([''body'', ''durationMinutes''], ''Value error, duration_minutes must be a positive integer or null'')])"

subsection \<open>Task requests\<close>

record task_create_request =
  tc_task_name :: string
  tc_description :: "string option"
  tc_deadline :: pydatetime
  tc_priority :: task_priority
  tc_duration :: "int option"

record task_update_request =
  tu_task_name :: "string option option"
  tu_description :: "pyval option"
  tu_deadline :: "pydatetime option option"
  tu_priority :: "task_priority option option"
  tu_status :: "task_status option option"
  tu_duration :: "pyval option"

type_synonym 'a endpoint = "session \<Rightarrow> 'a http_response \<times> session"

definition answer :: "int \<Rightarrow> string \<Rightarrow> (exn + 'a) \<times> session \<Rightarrow> 'a http_response \<times> session" where
  "answer code msg = (\<lambda>(r, s). (case r of Inl e \<Rightarrow> exception_response e | Inr x \<Rightarrow> success code msg (Some x), s))"

definition validated ::
  "exn + 'v \<times> (string list \<times> string) list \<Rightarrow> ('v \<Rightarrow> 'a endpoint) \<Rightarrow> 'a endpoint" where
  \<comment> \<open>the endpoint runs only on a body that passed\<close>
  "validated v f s = (case v of
     Inl e \<Rightarrow> (exception_response e, s)
   | Inr (x, errors) \<Rightarrow> if errors \<noteq> [] then (validation_response errors, s) else f x s)"

type_synonym checked = "exn + datetime option \<times> (string list \<times> string) list"

definition task_create_checks :: "task_create_request \<Rightarrow> checked" where
  \<comment> \<open>the validators of \<^verbatim>\<open>TaskCreateRequest\<close> in the order of its fields\<close>
  "task_create_checks payload =
     then_do (aware_field ''deadline'' (tc_deadline payload)) (\<lambda>(dl, errors).
       Inr (dl, errors @ positive_duration (tc_duration payload)))"

definition post_task :: "db_env \<Rightarrow> (nat \<Rightarrow> int) \<Rightarrow> uuid \<Rightarrow> task_create_request \<Rightarrow> task endpoint" where
  "post_task E clk i payload =
     validated (task_create_checks payload)
       (\<lambda>dl s. answer 201 ''Task created successfully''
          (module_create_task E clk i (PStr (tc_task_name payload)) (opt_val PStr (tc_description payload))
             (the dl) (PStr (priority_value (tc_priority payload))) (opt_val PInt (tc_duration payload)) s))"

definition read_task :: "uuid \<Rightarrow> task endpoint" where
  "read_task i s = answer 200 ''Task retrieved successfully'' (module_get_task i s, s)"

definition read_tasks :: "task list endpoint" where
  "read_tasks s = answer 200 ''Tasks retrieved successfully'' (Inr (module_list_tasks s), s)"

definition set_or_none :: "('v \<Rightarrow> string) \<Rightarrow> 'v option option \<Rightarrow> pyval" where
  \<comment> \<open>a keyword argument whose default is None: omitted and null are the same\<close>
  "set_or_none f v = (case v of Some (Some x) \<Rightarrow> PStr (f x) | _ \<Rightarrow> PNone)"

definition optional_deadline ::
  "pydatetime option option \<Rightarrow> exn + datetime option \<times> (string list \<times> string) list" where
  "optional_deadline v = (case v of Some (Some x) \<Rightarrow> aware_field ''deadline'' x | _ \<Rightarrow> Inr (None, []))"

definition task_update_checks :: "task_update_request \<Rightarrow> checked" where
  "task_update_checks payload =
     then_do (optional_deadline (tu_deadline payload)) (\<lambda>(dl, errors).
       Inr (dl, description_field (tu_description payload) @ errors @ duration_field (tu_duration payload)))"

definition patch_task :: "db_env \<Rightarrow> (nat \<Rightarrow> int) \<Rightarrow> uuid \<Rightarrow> task_update_request \<Rightarrow> task endpoint" where
  "patch_task E clk i payload =
     validated (task_update_checks payload)
       (\<lambda>dl s. answer 200 ''Task updated successfully''
          (module_update_task E clk i (set_or_none (\<lambda>x. x) (tu_task_name payload)) (tu_description payload) dl
             (set_or_none priority_value (tu_priority payload)) (set_or_none status_value (tu_status payload))
             (tu_duration payload) s))"

definition no_content :: "(exn + unit) \<times> session \<Rightarrow> unit http_response \<times> session" where
  "no_content = (\<lambda>(r, s). (case r of Inl e \<Rightarrow> exception_response e | Inr _ \<Rightarrow> success 204 [] None, s))"

definition remove_task :: "db_env \<Rightarrow> uuid \<Rightarrow> unit endpoint" where
  "remove_task E i s = no_content (module_delete_task E i s)"

subsection \<open>Reminder requests\<close>

record reminder_update_request =
  ru_remind_at :: "pydatetime option option"
  ru_status :: "reminder_status option option"

definition assignable_status :: "reminder_status option option \<Rightarrow> (string list \<times> string) list" where
  \<comment> \<open>\<^verbatim>\<open>AssignableReminderStatus\<close>: SENT is not one of its literals\<close>
  "assignable_status v = (case v of
     Some (Some RS_SENT) \<Rightarrow> [([''body'', ''status''], ''Input should be PENDING or CANCELLED'')] | _ \<Rightarrow> [])"

definition optional_remind_at ::
  "pydatetime option option \<Rightarrow> exn + datetime option \<times> (string list \<times> string) list" where
  "optional_remind_at v = (case v of Some (Some x) \<Rightarrow> aware_field ''remindAt'' x | _ \<Rightarrow> Inr (None, []))"

definition post_reminder :: "db_env \<Rightarrow> (nat \<Rightarrow> int) \<Rightarrow> uuid \<Rightarrow> uuid \<Rightarrow> pydatetime \<Rightarrow> reminder endpoint" where
  "post_reminder E clk i task_id remind_at =
     validated (aware_field ''remindAt'' remind_at)
       (\<lambda>at s. answer 201 ''Reminder created successfully'' (module_create_reminder E clk i task_id (the at) s))"

definition read_task_reminders :: "uuid \<Rightarrow> reminder list endpoint" where
  "read_task_reminders task_id s =
     answer 200 ''Reminders retrieved successfully'' (module_list_reminders_by_task task_id s, s)"

definition reminder_update_checks :: "reminder_update_request \<Rightarrow> checked" where
  "reminder_update_checks payload =
     then_do (optional_remind_at (ru_remind_at payload)) (\<lambda>(at, errors).
       Inr (at, errors @ assignable_status (ru_status payload)))"

definition patch_reminder :: "db_env \<Rightarrow> (nat \<Rightarrow> int) \<Rightarrow> uuid \<Rightarrow> reminder_update_request \<Rightarrow> reminder endpoint" where
  "patch_reminder E clk i payload =
     validated (reminder_update_checks payload)
       (\<lambda>at s. answer 200 ''Reminder updated successfully''
          (module_update_reminder E clk i at (set_or_none rem_status_value (ru_status payload)) s))"

definition remove_reminder :: "db_env \<Rightarrow> uuid \<Rightarrow> unit endpoint" where
  "remove_reminder E i s = no_content (module_delete_reminder E i s)"

subsection \<open>What an endpoint may do to the session\<close>

lemma aware_field_cases: "aware_field loc x = Inr (y, []) \<Longrightarrow> \<exists>d. y = Some d \<and> require_aware_utc x = Inr d"
  by (auto simp: aware_field_def split: sum.splits if_splits)

lemma snd_answer [simp]: "snd (answer code msg p) = snd p"
  by (cases p) (simp add: answer_def)

lemma snd_no_content [simp]: "snd (no_content p) = snd p"
  by (cases p) (simp add: no_content_def)

lemma success_failure [simp]: "rp_success (success c m x)" "\<not> rp_success (failure c m e d)"
  "rp_status (success c m x) = c" "rp_status (failure c m e d) = c" "rp_data (success c m x) = x"
  by (simp_all add: success_def failure_def)

lemma exception_not_success [simp]: "\<not> rp_success (exception_response e)"
  by (cases e rule: exception_response.cases) simp_all

lemma validation_not_success [simp]: "\<not> rp_success (validation_response es)"
  by (simp add: validation_response_def Let_def)

lemma answer_success: "rp_success (fst (answer code msg p)) \<longleftrightarrow> (\<exists>x. fst p = Inr x)"
  by (cases p) (auto simp: answer_def split: sum.splits)

lemma no_content_success: "rp_success (fst (no_content p)) \<longleftrightarrow> (\<exists>x. fst p = Inr x)"
  by (cases p) (auto simp: no_content_def split: sum.splits)

text \<open>A request that does not answer success leaves the stored rows as they were.\<close>

lemma validated_session:
  assumes "P s" and "\<And>x. v = Inr (x, []) \<Longrightarrow> P (snd (f x s))"
  shows "P (snd (validated v f s))"
  using assms by (auto simp: validated_def split: sum.splits)

subsection \<open>Properties\<close>

text \<open>A request that writes and does not answer success leaves the stored rows exactly as they were,
  whether a validator, a rule, the database or the commit refused it.\<close>

lemma failed_request_changes_nothing:
  "(\<not> rp_success (fst (post_task E clk i tc s)) \<longrightarrow> committed (snd (post_task E clk i tc s)) = committed s) \<and>
   (\<not> rp_success (fst (patch_task E clk i tu s)) \<longrightarrow> committed (snd (patch_task E clk i tu s)) = committed s) \<and>
   (\<not> rp_success (fst (remove_task E i s)) \<longrightarrow> committed (snd (remove_task E i s)) = committed s) \<and>
   (\<not> rp_success (fst (post_reminder E clk i j at s)) \<longrightarrow> committed (snd (post_reminder E clk i j at s)) = committed s) \<and>
   (\<not> rp_success (fst (patch_reminder E clk i ru s)) \<longrightarrow> committed (snd (patch_reminder E clk i ru s)) = committed s) \<and>
   (\<not> rp_success (fst (remove_reminder E i s)) \<longrightarrow> committed (snd (remove_reminder E i s)) = committed s)"
proof -
  have v: "committed (snd (validated v f s)) = committed s"
    if "\<And>x. \<not> rp_success (fst (f x s)) \<Longrightarrow> committed (snd (f x s)) = committed s"
      and "\<not> rp_success (fst (validated v f s))" for v :: "exn + 'v \<times> (string list \<times> string) list" and f :: "'v \<Rightarrow> 'a endpoint"
    using that by (auto simp: validated_def split: sum.splits if_splits)
  show ?thesis
    by (intro conjI impI)
      (auto simp: post_task_def patch_task_def remove_task_def post_reminder_def patch_reminder_def remove_reminder_def
        answer_success no_content_success module_create_task_def module_update_task_def module_delete_task_def
        module_create_reminder_def module_update_reminder_def module_delete_reminder_def
        intro!: transact_failed_unchanged elim!: v [rotated])
qed

lemma failed_request_changes_nothing_witness:
  "committed (snd (remove_task pg_env 5 sample_session)) = sample_db"
proof -
  have "\<not> rp_success (fst (remove_task pg_env 5 sample_session))"
    by (simp add: remove_task_def module_delete_task_def transact_def delete_task_def task_get_def sample_simps no_content_def)
  then show ?thesis using failed_request_changes_nothing [where i = 5 and s = sample_session and E = pg_env]
    by (simp add: sample_session_def)
qed

definition valid_task :: "task \<Rightarrow> bool" where
  "valid_task t \<longleftrightarrow> t_priority t \<in> range priority_value \<and> t_status t \<in> range status_value \<and>
     (\<forall>m. t_duration t = Some m \<longrightarrow> 0 < m)"

definition tasks_valid :: "db \<Rightarrow> bool" where
  "tasks_valid d \<longleftrightarrow> (\<forall>t \<in> set (tasks d). valid_task t)"

lemma create_task_keeps_valid:
  assumes "binds_plain E" and "tasks_valid d"
    and "create_task E clk i name ds dl (PStr (priority_value p)) du d = Inr (t, d')"
    and "du = PNone \<or> (\<exists>m. du = PInt m)"
  shows "tasks_valid d'"
proof -
  have c: "clk 0 \<le> instant dl" "du = PNone \<or> nonpositive du = Inr False" "d' = task_insert t d"
    and b: "bind_new_task E i \<lparr>n_name = name, n_description = ds, n_deadline = dl, n_priority = PStr (priority_value p),
      n_status = PStr (status_value TS_TODO), n_duration = du\<rparr> (clk 1) (clk 2) = Inr t"
    using assms(3) unfolding create_task_Inr by blast+
  obtain x where t: "t_priority t = priority_value p" "t_status t = status_value TS_TODO" "t_duration t = x"
    "bind_int E du = Inr x"
    using b binds_plainD(6) [OF assms(1)] plain_values plain_values(2) [of TS_TODO]
    by (auto simp: bind_new_task_def then_do_eq_Inr)
  have "\<forall>m. x = Some m \<longrightarrow> 0 < m"
    using t(4) c(2) assms(4) binds_plainD(5) [OF assms(1)]
    by (auto simp: nonpositive_def dest!: bind_int_stores [OF assms(1)])
  then have "valid_task t" using t(1-3) by (simp add: valid_task_def del: status_value.simps)
  with assms(2) c(3) show ?thesis by (auto simp: tasks_valid_def task_insert_def)
qed

lemma update_task_keeps_valid:
  assumes "binds_plain E" and "tasks_valid d"
    and "update_task E clk i name ds dl pr st du d = Inr (t', d')"
    and "pr = PNone \<or> (\<exists>p. pr = PStr (priority_value p))" and "st = PNone \<or> (\<exists>x. st = PStr (status_value x))"
    and "du = None \<or> du = Some PNone \<or> (\<exists>m. du = Some (PInt m)) \<or> du = Some (PBool True)"
  shows "tasks_valid d'"
proof -
  let ?p = "\<lparr>p_name = unless_none name, p_description = ds, p_deadline = dl,
       p_priority = unless_none pr, p_status = unless_none st, p_duration = du\<rparr>"
  obtain t where t: "task_get i d = Some t" "task_repo_update E t ?p (clk 1) d = Inr (t', d')"
    using update_task_InrD [OF assms(3)] by blast
  have ok: "valid_task t" using task_table.get_SomeD [OF t(1)] assms(2) by (auto simp: tasks_valid_def)
  have pos: "\<forall>m. du = Some (PInt m) \<longrightarrow> 0 < m"
    using assms(3) by (auto simp: update_task_def then_do_eq_Inr nonpositive_def split: if_splits)
  obtain b where b: "bind_patch E t ?p = Inr b" "d' = d \<or> d' = task_replace (b\<lparr>t_updated_at := from_db E (clk 1)\<rparr>) d"
    using t(2) by (auto simp: task_repo_update_def then_do_eq_Inr Let_def split: if_splits)
  note f = bind_patch_fields [OF assms(1) b(1)]
  have "t_priority b \<in> range priority_value" using f(7,8) ok assms(4) by (auto simp: valid_task_def simp del: priority_value.simps)
  moreover have "t_status b \<in> range status_value" using f(9,10) ok assms(5) by (auto simp: valid_task_def simp del: status_value.simps)
  moreover have "\<forall>m. t_duration b = Some m \<longrightarrow> 0 < m"
  proof -
    obtain x where "t_duration b = x" "set_field (bind_int E) du (t_duration t) = Inr x"
      using b(1) by (auto simp: bind_patch_def then_do_eq_Inr)
    then show ?thesis
      using assms(6) ok pos binds_plainD(5) [OF assms(1)]
      by (auto simp: set_field_def valid_task_def dest!: bind_int_stores [OF assms(1)])
  qed
  ultimately have "valid_task (b\<lparr>t_updated_at := from_db E (clk 1)\<rparr>)" by (simp add: valid_task_def)
  with assms(2) b(2) show ?thesis by (auto simp: tasks_valid_def task_replace_def set_replace_row split: if_splits)
qed

lemma transact_tasks_valid:
  assumes "tasks_valid (committed s)" and "clean s" and "\<And>d x d'. tasks_valid d \<Longrightarrow> f d = Inr (x, d') \<Longrightarrow> tasks_valid d'"
  shows "tasks_valid (committed (snd (transact E f s)))"
  using assms by (cases rule: transact_cases [of f s E]) (auto simp: clean_def rollback_def)

lemma duration_field_passes:
  "duration_field v = [] \<Longrightarrow> v = None \<or> v = Some PNone \<or> (\<exists>m. v = Some (PInt m)) \<or> v = Some (PBool True)"
  by (auto simp: duration_field_def split: option.splits pyval.splits bool.splits if_splits)

lemma set_or_none_cases: "set_or_none f v = PNone \<or> (\<exists>x. set_or_none f v = PStr (f x))"
  by (auto simp: set_or_none_def split: option.splits)

text \<open>C37: Through the HTTP API alone every stored task keeps a priority and a status of the enums and a
  positive duration or none, whatever the requests.\<close>

theorem api_keeps_tasks_valid:
  assumes "binds_plain E" and "tasks_valid (committed s)" and "clean s"
  shows "tasks_valid (committed (snd (post_task E clk i tc s))) \<and>
    tasks_valid (committed (snd (patch_task E clk i tu s))) \<and>
    tasks_valid (committed (snd (remove_task E i s)))"
proof (intro conjI)
  note keep = transact_tasks_valid [OF assms(2,3)]
  have du: "opt_val PInt v = PNone \<or> (\<exists>m. opt_val PInt v = PInt m)" for v
    by (cases v) (simp_all add: opt_val_def)
  show "tasks_valid (committed (snd (post_task E clk i tc s)))"
    unfolding post_task_def
  proof (rule validated_session [of "\<lambda>s'. tasks_valid (committed s')"])
    fix dl
    show "tasks_valid (committed (snd (answer 201 ''Task created successfully''
      (module_create_task E clk i (PStr (tc_task_name tc)) (opt_val PStr (tc_description tc)) (the dl)
        (PStr (priority_value (tc_priority tc))) (opt_val PInt (tc_duration tc)) s))))"
      unfolding snd_answer module_create_task_def
      by (rule keep, rule create_task_keeps_valid [OF assms(1) _ _ du])
  qed (fact assms(2))
  show "tasks_valid (committed (snd (remove_task E i s)))"
    unfolding remove_task_def snd_no_content module_delete_task_def
    by (rule keep) (auto simp: delete_task_Inr task_erase_def tasks_valid_def set_remove_row)
  show "tasks_valid (committed (snd (patch_task E clk i tu s)))"
    unfolding patch_task_def
  proof (rule validated_session [of "\<lambda>s'. tasks_valid (committed s')"])
    fix dl
    assume "task_update_checks tu = Inr (dl, [])"
    then have d: "duration_field (tu_duration tu) = []" by (auto simp: task_update_checks_def then_do_eq_Inr)
    show "tasks_valid (committed (snd (answer 200 ''Task updated successfully''
      (module_update_task E clk i (set_or_none (\<lambda>x. x) (tu_task_name tu)) (tu_description tu) dl
        (set_or_none priority_value (tu_priority tu)) (set_or_none status_value (tu_status tu)) (tu_duration tu) s))))"
      unfolding snd_answer module_update_task_def
      by (rule keep, rule update_task_keeps_valid [OF assms(1) _ _ set_or_none_cases set_or_none_cases
            duration_field_passes [OF d]])
  qed (fact assms(2))
qed

lemma api_keeps_tasks_valid_witness:
  "tasks_valid (committed (snd (post_task pg_env (\<lambda>_. 100) 7 \<lparr>tc_task_name = ''Plan'', tc_description = None,
      tc_deadline = Aware (utc 900), tc_priority = TP_LOW, tc_duration = Some 30\<rparr> sample_session))) \<and>
   tasks_valid (committed (snd (patch_task pg_env (\<lambda>_. 100) 1 \<lparr>tu_task_name = None, tu_description = None,
      tu_deadline = None, tu_priority = Some (Some TP_LOW), tu_status = None, tu_duration = Some (PInt 5)\<rparr> sample_session))) \<and>
   tasks_valid (committed (snd (remove_task pg_env 1 sample_session)))"
proof -
  have "tasks_valid (committed sample_session)"
    using rangeI [of priority_value TP_HIGH] rangeI [of status_value TS_TODO]
    by (simp add: tasks_valid_def valid_task_def sample_simps)
  moreover have "clean sample_session" by (simp add: clean_def sample_simps)
  ultimately show ?thesis using api_keeps_tasks_valid [OF binds_plain_pg_env] by blast
qed

end
