(* ===== verification/Scheduler.thy ===== *)
theory Scheduler
  imports Samples
begin

text \<open>
  \<^verbatim>\<open>services/scheduler_service.py\<close>, \<^verbatim>\<open>modules/scheduler_module.py\<close>, \<^verbatim>\<open>scheduler.py\<close> and the
  notification port. The provider is a function that may raise; what other transactions commit
  while a tick runs is a function \<open>other\<close>: \<open>other (2 * k)\<close> is applied to the rows before the task of the
  \<open>k\<close>-th reminder is read, \<open>other (2 * k + 1)\<close> between that and its claim (\<open>quiet\<close> when nobody interferes).
  A read sees the rows as they are then; of the identity map of the ORM session only its synchronization
  with the claim is modelled: the reminder that the provider gets carries the values of the UPDATE.
  \<open>log\<close> records the calls of the provider.
\<close>

subsection \<open>adapters/notification.py\<close>

type_synonym provider = "reminder \<Rightarrow> task \<Rightarrow> exn option"

definition console_send :: provider where
  \<comment> \<open>ConsoleNotificationProvider: one INFO line, never fails\<close>
  "console_send r t = None"

subsection \<open>SchedulerService.tick\<close>

record tick_result =
  sent_count :: nat
  failed_count :: nat
  skipped_count :: nat
  due_count :: nat

type_synonym notification = "reminder \<times> task"

definition quiet :: "nat \<Rightarrow> db \<Rightarrow> db" where
  "quiet k d = d"

definition disturb :: "(nat \<Rightarrow> db \<Rightarrow> db) \<Rightarrow> nat \<Rightarrow> session \<Rightarrow> session" where
  "disturb other k s = \<lparr>committed = other k (committed s), working = other k (working s)\<rparr>"

definition claimed_row :: "int \<Rightarrow> reminder \<Rightarrow> reminder" where
  \<comment> \<open>the loaded row after the UPDATE of \<^verbatim>\<open>mark_sent\<close>, which also sets the attributes of the object\<close>
  "claimed_row now r = r\<lparr>r_status := rem_status_value RS_SENT, r_updated_at := utc now\<rparr>"

lemma claimed_row_fixed [simp]: "r_id (claimed_row now r) = r_id r" "r_task_id (claimed_row now r) = r_task_id r"
  "r_remind_at (claimed_row now r) = r_remind_at r" "r_created_at (claimed_row now r) = r_created_at r"
  by (simp_all add: claimed_row_def)

fun tick_loop ::
  "db_env \<Rightarrow> provider \<Rightarrow> (nat \<Rightarrow> db \<Rightarrow> db) \<Rightarrow> int \<Rightarrow> nat \<Rightarrow> reminder list
     \<Rightarrow> tick_result \<Rightarrow> notification list \<Rightarrow> session \<Rightarrow> tick_result \<times> notification list \<times> session" where
  "tick_loop E send other now k [] res log s = (res, log, s)"
| "tick_loop E send other now k (r # rs) res log s0 =
     (let s = disturb other (2 * k) s0 in
      case task_get (r_task_id r) (working s) of
        None \<Rightarrow> tick_loop E send other now (Suc k) rs (res\<lparr>failed_count := failed_count res + 1\<rparr>) log s
      | Some t \<Rightarrow>
          (let s1 = disturb other (2 * k + 1) s in
           case mark_sent E (r_id r) now (working s1) of (rowcount, d) \<Rightarrow>
             let s' = s1\<lparr>working := d\<rparr>; r' = claimed_row now r in
             if rowcount = 0
             then tick_loop E send other now (Suc k) rs (res\<lparr>skipped_count := skipped_count res + 1\<rparr>) log s'
             else (case send r' t of
                 None \<Rightarrow> tick_loop E send other now (Suc k) rs
                     (res\<lparr>sent_count := sent_count res + 1\<rparr>) (log @ [(r', t)]) s'
               | Some e \<Rightarrow> tick_loop E send other now (Suc k) rs
                     (res\<lparr>sent_count := sent_count res + 1, failed_count := failed_count res + 1\<rparr>)
                     (log @ [(r', t)]) s')))"

definition service_tick ::
  "db_env \<Rightarrow> provider \<Rightarrow> (nat \<Rightarrow> db \<Rightarrow> db) \<Rightarrow> int \<Rightarrow> nat \<Rightarrow> session
     \<Rightarrow> tick_result \<times> notification list \<times> session" where
  "service_tick E send other now limit s =
     (let due = find_due limit now (working s) in
      tick_loop E send other now 0 due
        \<lparr>sent_count = 0, failed_count = 0, skipped_count = 0, due_count = length due\<rparr> [] s)"

subsection \<open>SchedulerModule.tick, run_once\<close>

definition module_tick ::
  "db_env \<Rightarrow> provider \<Rightarrow> (nat \<Rightarrow> db \<Rightarrow> db) \<Rightarrow> int \<Rightarrow> nat \<Rightarrow> session
     \<Rightarrow> (exn + tick_result) \<times> notification list \<times> session" where
  "module_tick E send other now limit s =
     (case service_tick E send other now limit s of (res, log, s') \<Rightarrow>
        if due_count res > 0
        then (case commit E s' of
                Inl e \<Rightarrow> (Inl e, log, rollback s')
              | Inr s'' \<Rightarrow> (Inr res, log, s''))
        else (Inr res, log, s'))"

definition run_once ::
  "db_env \<Rightarrow> provider \<Rightarrow> (nat \<Rightarrow> db \<Rightarrow> db) \<Rightarrow> int \<Rightarrow> nat \<Rightarrow> db
     \<Rightarrow> (exn + tick_result) \<times> notification list \<times> db" where
  \<comment> \<open>a fresh session on the stored rows, closed afterwards: what is not committed is lost\<close>
  "run_once E send other now limit d =
     (case module_tick E send other now limit \<lparr>committed = d, working = d\<rparr> of
        (res, log, s) \<Rightarrow> (res, log, committed s))"

subsection \<open>run_forever\<close>

text \<open>
  \<open>stop k\<close> is the \<open>k\<close>-th reading of the shutdown flag. The sleep between ticks counts in half
  seconds. A tick that raises is logged and the loop goes on, so a tick is a total function on
  the rows and the notifications so far. \<open>None\<close> is "never returns".
\<close>

fun sleep_slices :: "(nat \<Rightarrow> bool) \<Rightarrow> nat \<Rightarrow> nat \<Rightarrow> nat \<times> nat" where
  "sleep_slices stop k 0 = (k, 0)"
| "sleep_slices stop k (Suc rem) =
     (if stop k then (Suc k, 0)
      else (case sleep_slices stop (Suc k) rem of (k', slept) \<Rightarrow> (k', Suc slept)))"

definition worker_tick ::
  "db_env \<Rightarrow> provider \<Rightarrow> (nat \<Rightarrow> int) \<Rightarrow> nat \<Rightarrow> nat \<Rightarrow> db \<times> notification list \<Rightarrow> db \<times> notification list" where
  "worker_tick E send clk limit n w =
     (case run_once E send quiet (clk n) limit (fst w) of (res, log, d) \<Rightarrow> (d, snd w @ log))"

partial_function (option) run_forever ::
  "(nat \<Rightarrow> 'w \<Rightarrow> 'w) \<Rightarrow> nat \<Rightarrow> (nat \<Rightarrow> bool) \<Rightarrow> nat \<Rightarrow> nat \<Rightarrow> 'w \<Rightarrow> (nat \<times> 'w) option" where
  "run_forever tick tick_seconds stop k n w =
     (if stop k then Some (n, w)
      else (let w' = tick n w in
            if stop (Suc k) then Some (Suc n, w')
            else run_forever tick tick_seconds stop
                   (fst (sleep_slices stop (Suc (Suc k)) (2 * tick_seconds))) (Suc n) w'))"

subsection \<open>Facts about a tick\<close>

text \<open>Whatever the others do, the counters add up.\<close>

definition tick_account :: "tick_result \<Rightarrow> nat \<Rightarrow> nat \<Rightarrow> bool" where
  \<comment> \<open>after \<open>k\<close> reminders with \<open>n\<close> provider calls\<close>
  "tick_account res k n \<longleftrightarrow>
     sent_count res = n \<and> sent_count res + skipped_count res \<le> k \<and>
     k \<le> sent_count res + skipped_count res + failed_count res \<and> failed_count res + skipped_count res \<le> k"

lemma tick_loop_account:
  assumes "tick_account res k (length log)"
    and "tick_loop E send other now k rs res log s = (res', log', s')"
  shows "tick_account res' (k + length rs) (length log') \<and> due_count res' = due_count res"
  using assms
proof (induction rs arbitrary: k res log s)
  case (Cons r rs)
  let ?s = "disturb other (2 * k) s"
  let ?s1 = "disturb other (2 * k + 1) ?s"
  let ?r = "claimed_row now r"
  have step: "tick_loop E send other now (Suc k) rs res2 log2 s2 = (res', log', s') \<Longrightarrow>
      tick_account res2 (Suc k) (length log2) \<Longrightarrow> due_count res2 = due_count res \<Longrightarrow> ?case" for res2 log2 s2
    using Cons.IH [of res2 "Suc k" log2 s2] by simp
  show ?case
  proof (cases "task_get (r_task_id r) (working ?s)")
    case None
    with Cons.prems(2) have "tick_loop E send other now (Suc k) rs
        (res\<lparr>failed_count := failed_count res + 1\<rparr>) log ?s = (res', log', s')" by (simp add: Let_def)
    then show ?thesis by (rule step) (use Cons.prems(1) in \<open>auto simp: tick_account_def\<close>)
  next
    case (Some t)
    obtain n d where m: "mark_sent E (r_id r) now (working ?s1) = (n, d)" by fastforce
    let ?t = "?s1\<lparr>working := d\<rparr>"
    consider "n = 0" | "n \<noteq> 0" "send ?r t = None" | e where "n \<noteq> 0" "send ?r t = Some e" by blast
    then show ?thesis
    proof cases
      case 1
      with Some m Cons.prems(2) have "tick_loop E send other now (Suc k) rs
        (res\<lparr>skipped_count := skipped_count res + 1\<rparr>) log ?t = (res', log', s')" by (simp add: Let_def)
      then show ?thesis by (rule step) (use Cons.prems(1) in \<open>auto simp: tick_account_def\<close>)
    next
      case 2
      with Some m Cons.prems(2) have "tick_loop E send other now (Suc k) rs
        (res\<lparr>sent_count := sent_count res + 1\<rparr>) (log @ [(?r, t)]) ?t = (res', log', s')" by (simp add: Let_def)
      then show ?thesis by (rule step) (use Cons.prems(1) in \<open>auto simp: tick_account_def\<close>)
    next
      case 3
      with Some m Cons.prems(2) have "tick_loop E send other now (Suc k) rs
        (res\<lparr>sent_count := sent_count res + 1, failed_count := failed_count res + 1\<rparr>)
        (log @ [(?r, t)]) ?t = (res', log', s')" by (simp add: Let_def)
      then show ?thesis by (rule step) (use Cons.prems(1) in \<open>auto simp: tick_account_def\<close>)
    qed
  qed
qed simp

text \<open>Without interference, a tick is one bulk update of the due reminders.\<close>

definition sent_if :: "db_env \<Rightarrow> int \<Rightarrow> uuid set \<Rightarrow> reminder \<Rightarrow> reminder" where
  "sent_if E now ids r = (if r_id r \<in> ids \<and> reminder_due now r
     then r\<lparr>r_status := rem_status_value RS_SENT, r_updated_at := from_db E now\<rparr> else r)"

definition set_sent :: "db_env \<Rightarrow> int \<Rightarrow> uuid set \<Rightarrow> db \<Rightarrow> db" where
  "set_sent E now ids d = d\<lparr>reminders := map (sent_if E now ids) (reminders d)\<rparr>"

lemma sent_if_sent_if: "sent_if E now A (sent_if E now B r) = sent_if E now (A \<union> B) r"
  by (auto simp: sent_if_def reminder_due_def)

lemma sent_if_fixed [simp]: "r_id (sent_if E now A r) = r_id r" "r_task_id (sent_if E now A r) = r_task_id r"
  "r_remind_at (sent_if E now A r) = r_remind_at r" "r_created_at (sent_if E now A r) = r_created_at r"
  by (simp_all add: sent_if_def)

lemma set_sent_empty [simp]: "set_sent E now {} d = d"
  by (simp add: set_sent_def sent_if_def [abs_def])

lemma mark_sent_set_sent: "snd (mark_sent E i now d) = set_sent E now {i} d"
  by (simp add: mark_sent_def set_sent_def sent_if_def cong: if_cong map_cong)

lemma set_sent_set_sent: "set_sent E now A (set_sent E now B d) = set_sent E now (A \<union> B) d"
  by (simp add: set_sent_def comp_def sent_if_sent_if)

lemma task_get_set_sent [simp]: "task_get i (set_sent E now A d) = task_get i d"
  by (simp add: set_sent_def task_get_def)

lemma mark_sent_hit:
  assumes "r \<in> set (reminders d)" and "reminder_due now r" and "r_id r \<notin> A"
  shows "fst (mark_sent E (r_id r) now (set_sent E now A d)) \<noteq> 0"
proof -
  have "r \<in> set (filter (\<lambda>x. r_id x = r_id r \<and> reminder_due now x) (reminders (set_sent E now A d)))"
    using assms by (auto simp: set_sent_def sent_if_def image_iff intro!: bexI [of _ r])
  then have "filter (\<lambda>x. r_id x = r_id r \<and> reminder_due now x) (reminders (set_sent E now A d)) \<noteq> []"
    by (metis empty_iff empty_set)
  then show ?thesis by (simp add: mark_sent_def)
qed

definition notify :: "int \<Rightarrow> db \<Rightarrow> reminder \<Rightarrow> notification" where
  "notify now d r = (claimed_row now r, the (task_get (r_task_id r) d))"

definition provider_failures :: "provider \<Rightarrow> notification list \<Rightarrow> nat" where
  "provider_failures send log = length (filter (\<lambda>(r, t). send r t \<noteq> None) log)"

lemma tick_loop_quiet:
  assumes "distinct (map r_id rs)" and "\<forall>r \<in> set rs. r \<in> set (reminders d) \<and> reminder_due now r"
    and "\<forall>r \<in> set rs. task_get (r_task_id r) d \<noteq> None"
    and "A \<inter> r_id ` set rs = {}" and "working s = set_sent E now A d"
  shows "tick_loop E send quiet now k rs res log s =
    (res\<lparr>sent_count := sent_count res + length rs,
         failed_count := failed_count res + provider_failures send (map (notify now d) rs)\<rparr>,
     log @ map (notify now d) rs, s\<lparr>working := set_sent E now (A \<union> r_id ` set rs) d\<rparr>)"
  using assms
proof (induction rs arbitrary: k res log s A)
  case Nil
  then show ?case by (cases res; cases s) (simp add: provider_failures_def)
next
  case (Cons r rs)
  obtain t where t: "task_get (r_task_id r) d = Some t" using Cons.prems(3) by auto
  have q: "disturb quiet j x = x" for j x by (cases x) (simp add: disturb_def quiet_def)
  let ?m = "mark_sent E (r_id r) now (working s)"
  have hit: "fst ?m \<noteq> 0" using Cons.prems(2,4,5) mark_sent_hit [of r d now A E] by auto
  have d': "snd ?m = set_sent E now (insert (r_id r) A) d"
    using Cons.prems(5) by (simp add: mark_sent_set_sent set_sent_set_sent)
  have tick: "tick_loop E send quiet now k (r # rs) res log s =
    tick_loop E send quiet now (Suc k) rs
      (res\<lparr>sent_count := sent_count res + 1,
           failed_count := failed_count res + provider_failures send [notify now d r]\<rparr>)
      (log @ [notify now d r]) (s\<lparr>working := set_sent E now (insert (r_id r) A) d\<rparr>)"
    using q t hit d' Cons.prems(5)
    by (cases "send (claimed_row now r) t"; cases ?m; cases res)
      (auto simp: Let_def notify_def provider_failures_def)
  have split: "provider_failures send (map (notify now d) (r # rs)) =
      provider_failures send [notify now d r] + provider_failures send (map (notify now d) rs)"
    by (simp add: provider_failures_def)
  have "insert (r_id r) A \<inter> r_id ` set rs = {}" using Cons.prems(1,4) by auto
  from Cons.IH [OF _ _ _ this, of "s\<lparr>working := set_sent E now (insert (r_id r) A) d\<rparr>"]
  show ?case
    using Cons.prems(1-3) unfolding tick split by (simp add: insert_commute)
qed

lemma find_due_members: "r \<in> set (find_due limit now d) \<Longrightarrow> r \<in> set (reminders d) \<and> reminder_due now r"
  by (auto simp: find_due_def dest!: in_set_takeD)

lemma find_due_distinct:
  assumes "db_integrity d"
  shows "distinct (map r_id (find_due limit now d))"
proof -
  have "distinct (map r_id (filter (reminder_due now) (reminders d)))"
    using assms by (simp add: db_integrity_def distinct_map_filter)
  then have "distinct (map r_id (sort_key (\<lambda>r. (instant (r_remind_at r), r_id r))
      (filter (reminder_due now) (reminders d))))"
    by (simp add: distinct_map)
  then show ?thesis by (simp add: find_due_def take_map [symmetric])
qed

lemma find_due_task:
  "db_integrity d \<Longrightarrow> r \<in> set (find_due limit now d) \<Longrightarrow> task_get (r_task_id r) d \<noteq> None"
  using find_due_members [of r limit now d]
  by (auto simp: db_integrity_def task_table.get_None_iff)

text \<open>The abstract tick: which reminders become SENT, what is notified, in which order.\<close>

lemma service_tick_quiet:
  assumes "db_integrity (working s)"
  shows "service_tick E send quiet now limit s =
    (let due = find_due limit now (working s); log = map (notify now (working s)) due in
     (\<lparr>sent_count = length due, failed_count = provider_failures send log, skipped_count = 0,
       due_count = length due\<rparr>, log,
      s\<lparr>working := set_sent E now (r_id ` set due) (working s)\<rparr>))"
proof -
  let ?due = "find_due limit now (working s)"
  have "tick_loop E send quiet now 0 ?due
      \<lparr>sent_count = 0, failed_count = 0, skipped_count = 0, due_count = length ?due\<rparr> [] s =
    (\<lparr>sent_count = 0, failed_count = 0, skipped_count = 0, due_count = length ?due\<rparr>
        \<lparr>sent_count := 0 + length ?due,
         failed_count := 0 + provider_failures send (map (notify now (working s)) ?due)\<rparr>,
     [] @ map (notify now (working s)) ?due, s\<lparr>working := set_sent E now ({} \<union> r_id ` set ?due) (working s)\<rparr>)"
    using tick_loop_quiet [of ?due "working s" now "{}" s E send 0
        "\<lparr>sent_count = 0, failed_count = 0, skipped_count = 0, due_count = length ?due\<rparr>" "[]"]
      find_due_distinct [OF assms] find_due_members find_due_task [OF assms] by auto
  then show ?thesis by (simp add: service_tick_def Let_def)
qed

lemma reminder_get_set_sent: "reminder_get i (set_sent E now A d) = map_option (sent_if E now A) (reminder_get i d)"
  by (simp add: reminder_get_def set_sent_def find_row_map sent_if_def)

lemma integrity_set_sent: "db_integrity d \<Longrightarrow> db_integrity (set_sent E now A d)"
  unfolding set_sent_def by (rule integrity_map_reminders) (auto simp: sent_if_def)

text \<open>The stored rows after \<^verbatim>\<open>run_once\<close>, when nobody interferes.\<close>

lemma run_once_quiet:
  assumes "db_integrity d"
  shows "run_once E send quiet now limit d =
    (let due = find_due limit now d;
         d' = set_sent E now (r_id ` set due) d;
         log = map (notify now d) due;
         res = \<lparr>sent_count = length due, failed_count = provider_failures send log, skipped_count = 0,
                due_count = length due\<rparr>
     in if due = [] then (Inr res, log, d)
        else (case commit_exn E d' of None \<Rightarrow> (Inr res, log, d') | Some e \<Rightarrow> (Inl e, log, d)))"
  using service_tick_quiet [of "\<lparr>committed = d, working = d\<rparr>" E send now limit] assms
  by (auto simp: run_once_def module_tick_def Let_def commit_def rollback_def split: option.splits)

lemma due_after_set_sent:
  assumes "T \<le> now"
  shows "filter (reminder_due T) (reminders (set_sent E now A d)) =
     filter (\<lambda>r. r_id r \<notin> A) (filter (reminder_due T) (reminders d))"
proof -
  have "filter (reminder_due T) (map (sent_if E now A) rs) = filter (\<lambda>r. r_id r \<notin> A) (filter (reminder_due T) rs)" for rs
    using assms by (induction rs) (auto simp: sent_if_def reminder_due_def)
  then show ?thesis by (simp add: set_sent_def)
qed

text \<open>What is due at \<open>T\<close> comes first among what is due later.\<close>

lemma find_due_later:
  assumes "T \<le> now"
  shows "\<exists>rest. find_due limit now d = find_due limit T d @ rest"
proof -
  let ?key = "\<lambda>r. (instant (r_remind_at r), r_id r)" and ?due = "filter (reminder_due now) (reminders d)"
  have "filter (reminder_due T) ?due = filter (reminder_due T) (reminders d)"
    using assms by (induction "reminders d") (auto simp: reminder_due_def intro: filter_cong)
  moreover have "sort_key ?key ?due =
      sort_key ?key (filter (reminder_due T) ?due) @ sort_key ?key (filter (\<lambda>r. \<not> reminder_due T r) ?due)"
    by (rule sort_key_split) (auto simp: reminder_due_def)
  ultimately show ?thesis by (auto simp: find_due_def)
qed

lemma length_filter_le_imp: "(\<And>x. P x \<Longrightarrow> Q x) \<Longrightarrow> length (filter P xs) \<le> length (filter Q xs)"
  by (induction xs) auto

lemma due_count_after:
  assumes "db_integrity d" and "T \<le> now"
  shows "length (filter (reminder_due T) (reminders (set_sent E now (r_id ` set (find_due limit now d)) d)))
       \<le> length (filter (reminder_due T) (reminders d)) - limit"
proof -
  let ?D = "filter (reminder_due T) (reminders d)"
  let ?due = "find_due limit T d"
  let ?A = "r_id ` set ?due"
  have dist: "distinct (map r_id ?D)" using assms(1) by (simp add: db_integrity_def distinct_map_filter)
  have sub: "set ?due \<subseteq> set ?D" using find_due_members by fastforce
  have "r_id ` set (filter (\<lambda>r. r_id r \<in> ?A) ?D) = ?A" using sub by auto
  moreover have "distinct (map r_id (filter (\<lambda>r. r_id r \<in> ?A) ?D))"
    using dist by (rule distinct_map_filter)
  ultimately have "length (filter (\<lambda>r. r_id r \<in> ?A) ?D) = card ?A"
    using distinct_card [of "map r_id (filter (\<lambda>r. r_id r \<in> ?A) ?D)"] by (simp only: length_map set_map)
  also have "\<dots> = length ?due"
    using distinct_card [OF find_due_distinct [OF assms(1), of limit T]] by (simp only: length_map set_map)
  also have "\<dots> = min limit (length ?D)" by (simp add: find_due_def min.commute)
  finally have "length (filter (\<lambda>r. r_id r \<notin> ?A) ?D) = length ?D - limit"
    using sum_length_filter_compl [of "\<lambda>r. r_id r \<in> ?A" ?D] by simp
  moreover have "length (filter (\<lambda>r. r_id r \<notin> r_id ` set (find_due limit now d)) ?D) \<le> length (filter (\<lambda>r. r_id r \<notin> ?A) ?D)"
    using find_due_later [OF assms(2), of limit d] by (intro length_filter_le_imp) auto
  ultimately show ?thesis by (simp add: due_after_set_sent [OF assms(2)])
qed

subsection \<open>Facts about the worker loop\<close>

lemma sleep_slices_ge: "k \<le> fst (sleep_slices stop k r)"
proof (induction r arbitrary: k)
  case (Suc r)
  from Suc.IH [of "Suc k"] show ?case by (auto split: prod.splits)
qed simp

lemma sleep_slices_total:
  "snd (sleep_slices stop k r) \<le> r \<and> ((\<forall>j < r. \<not> stop (k + j)) \<longrightarrow> sleep_slices stop k r = (k + r, r))"
proof (induction r arbitrary: k)
  case (Suc r)
  have "(\<forall>j < Suc r. \<not> stop (k + j)) \<longrightarrow> \<not> stop k \<and> (\<forall>j < r. \<not> stop (Suc k + j))"
    by (metis Nat.add_0_right Suc_less_eq add_Suc add_Suc_right zero_less_Suc)
  with Suc.IH [of "Suc k"] show ?case by (auto split: prod.splits)
qed simp

fun ticks :: "(nat \<Rightarrow> 'w \<Rightarrow> 'w) \<Rightarrow> nat \<Rightarrow> nat \<Rightarrow> 'w \<Rightarrow> 'w" where
  \<comment> \<open>\<open>m\<close> ticks in a row, numbered from \<open>n\<close>\<close>
  "ticks tick n 0 w = w"
| "ticks tick n (Suc m) w = ticks tick (Suc n) m (tick n w)"

lemma run_forever_ticks:
  assumes "stop m" and "\<And>j. m \<le> j \<Longrightarrow> stop j"
  shows "\<exists>c \<le> m - k. run_forever tick ts stop k n w = Some (n + c, ticks tick n c w)"
proof (induction "m - k" arbitrary: k n w rule: less_induct)
  case less
  show ?case
  proof (cases "stop k")
    case True
    then show ?thesis by (auto simp: run_forever.simps [of _ _ _ k] intro!: exI [of _ 0])
  next
    case False
    then have lt: "k < m" using assms(2) by (meson not_le)
    show ?thesis
    proof (cases "stop (Suc k)")
      case True
      with False lt show ?thesis
        by (auto simp: run_forever.simps [of _ _ _ k] Let_def intro!: exI [of _ "Suc 0"])
    next
      case go: False
      let ?k = "fst (sleep_slices stop (Suc (Suc k)) (2 * ts))"
      have k: "Suc (Suc k) \<le> ?k" by (rule sleep_slices_ge)
      then have "m - ?k < m - k" using lt by simp
      from less [OF this, of "Suc n" "tick n w"] obtain c where
        c: "c \<le> m - ?k" "run_forever tick ts stop ?k (Suc n) (tick n w) = Some (Suc n + c, ticks tick (Suc n) c (tick n w))"
        by blast
      then have "run_forever tick ts stop k n w = Some (n + Suc c, ticks tick n (Suc c) w)"
        using False go by (simp add: run_forever.simps [of _ _ _ k] Let_def)
      moreover have "Suc c \<le> m - k" using c(1) k lt by simp
      ultimately show ?thesis by blast
    qed
  qed
qed

subsection \<open>Properties\<close>

text \<open>C10: A tick that nobody disturbs is one bulk update: it notifies the due reminders, as claimed, with their
  tasks, oldest first and at most \<open>limit\<close> of them, marks exactly those SENT, whether or not their delivery
  failed, and touches nothing else; if the commit fails, no row changes.\<close>

theorem tick_is_bulk_update:
  assumes "db_integrity d"
  shows "\<exists>due. due = take limit (sort_key (\<lambda>r. (instant (r_remind_at r), r_id r))
        (filter (\<lambda>r. r_status r = ''PENDING'' \<and> instant (r_remind_at r) \<le> now) (reminders d))) \<and>
    (let marked = d\<lparr>reminders := map (\<lambda>r. if r_id r \<in> r_id ` set due
           then r\<lparr>r_status := ''SENT'', r_updated_at := from_db E now\<rparr> else r) (reminders d)\<rparr>;
         log = map (\<lambda>r. (r\<lparr>r_status := ''SENT'', r_updated_at := utc now\<rparr>, the (task_get (r_task_id r) d))) due;
         counts = \<lparr>sent_count = length due, failed_count = length (filter (\<lambda>(r, t). send r t \<noteq> None) log),
                   skipped_count = 0, due_count = length due\<rparr>
     in run_once E send quiet now limit d =
          (if due = [] then (Inr counts, [], d)
           else (case commit_exn E marked of None \<Rightarrow> (Inr counts, log, marked) | Some e \<Rightarrow> (Inl e, log, d))))"
proof -
  let ?due = "find_due limit now d"
  let ?A = "r_id ` set ?due"
  have in_due: "r_id r \<in> ?A \<and> reminder_due now r \<longleftrightarrow> r_id r \<in> ?A" if "r \<in> set (reminders d)" for r
  proof -
    have "reminder_due now r" if h: "r_id r \<in> ?A"
    proof -
      obtain q where q: "q \<in> set ?due" "r_id q = r_id r" using h by auto
      then have "q \<in> set (reminders d)" "reminder_due now q" using find_due_members by blast+
      with q(2) \<open>r \<in> set (reminders d)\<close> assms show ?thesis
        unfolding db_integrity_def distinct_map inj_on_def by metis
    qed
    then show ?thesis by blast
  qed
  have "sent_if E now ?A r = (if r_id r \<in> ?A then r\<lparr>r_status := ''SENT'', r_updated_at := from_db E now\<rparr> else r)"
    if "r \<in> set (reminders d)" for r
    using in_due [OF that] by (simp add: sent_if_def)
  then have marked: "set_sent E now ?A d = d\<lparr>reminders := map (\<lambda>r. if r_id r \<in> ?A
      then r\<lparr>r_status := ''SENT'', r_updated_at := from_db E now\<rparr> else r) (reminders d)\<rparr>"
    by (simp add: set_sent_def cong: map_cong)
  have due: "?due = take limit (sort_key (\<lambda>r. (instant (r_remind_at r), r_id r))
        (filter (\<lambda>r. r_status r = ''PENDING'' \<and> instant (r_remind_at r) \<le> now) (reminders d)))"
    by (simp add: find_due_def reminder_due_def [abs_def])
  show ?thesis
    unfolding run_once_quiet [OF assms] Let_def marked notify_def [abs_def] claimed_row_def rem_status_value.simps provider_failures_def
    by (intro exI [of _ ?due] conjI due) simp
qed

lemma tick_is_bulk_update_witness:
  "reminders (snd (snd (run_once pg_env console_send quiet 600 10 sample_db))) =
     [(sample_reminder 2 1 500 RS_SENT)\<lparr>r_updated_at := utc 600\<rparr>]"
  using tick_is_bulk_update [OF integrity_sample_db, of 10 600 pg_env console_send]
  by (simp add: sample_simps Let_def)

text \<open>Whatever other transactions do meanwhile, the counters of a tick account for every due reminder:
  each is sent, skipped or failed without a claim; the provider is called once per sent reminder, and a
  failed delivery is counted twice, as sent and as failed.\<close>

lemma tick_accounts_for_all:
  assumes "service_tick E send other now limit s = (res, log, s')"
  shows "due_count res = length (find_due limit now (working s)) \<and> sent_count res = length log \<and>
    sent_count res + skipped_count res \<le> due_count res \<and>
    due_count res \<le> sent_count res + skipped_count res + failed_count res \<and>
    failed_count res + skipped_count res \<le> due_count res"
proof -
  let ?due = "find_due limit now (working s)"
  let ?start = "\<lparr>sent_count = 0, failed_count = 0, skipped_count = 0, due_count = length ?due\<rparr>"
  have "tick_loop E send other now 0 ?due ?start [] s = (res, log, s')"
    using assms by (simp add: service_tick_def Let_def)
  from tick_loop_account [OF _ this] show ?thesis by (simp add: tick_account_def)
qed

lemma tick_accounts_for_all_witness:
  "\<exists>res log s'. service_tick pg_env console_send (\<lambda>k d. d\<lparr>tasks := []\<rparr>) 600 10 sample_session = (res, log, s') \<and>
     failed_count res = 1 \<and> due_count res = 1 \<and> sent_count res = 0"
proof -
  obtain res log s' where t: "service_tick pg_env console_send (\<lambda>k d. d\<lparr>tasks := []\<rparr>) 600 10 sample_session = (res, log, s')"
    by (metis prod_cases3)
  have f: "find_due 10 600 (working sample_session) = [sample_reminder 2 1 500 RS_PENDING]"
    by (simp add: find_due_def reminder_due_def sample_simps)
  then have "failed_count res = 1 \<and> sent_count res = 0" using t
    by (simp add: service_tick_def task_get_def disturb_def sample_simps Let_def) auto
  with tick_accounts_for_all [OF t] f t show ?thesis by auto
qed

text \<open>However many workers try to claim one reminder, with whatever clocks, at most one of them gets
  it: the numbers of rows their conditional updates report add up to at most one.\<close>

lemma one_worker_claims:
  assumes "db_integrity d"
  shows "sum_list (fst (run_claims (mark_sent E i) nows d)) \<le> 1"
  using assms by (intro reminder_claim.one_winner) (simp add: db_integrity_def)

lemma one_worker_claims_witness: "sum_list (fst (run_claims (mark_sent pg_env 2) [600, 700, 800] sample_db)) \<le> 1"
  by (rule one_worker_claims [OF integrity_sample_db])

lemma worker_tick_state:
  assumes "db_integrity d" and "\<And>x. commit_exn E x = None"
  shows "worker_tick E send clk limit n (d, log) =
    (let due = find_due limit (clk n) d in (set_sent E (clk n) (r_id ` set due) d, log @ map (notify (clk n) d) due))"
  using run_once_quiet [OF assms(1), of E send "clk n" limit] assms(2)
  by (auto simp: worker_tick_def Let_def)

definition due_ids :: "int \<Rightarrow> db \<Rightarrow> uuid set" where
  "due_ids now d = r_id ` set (filter (reminder_due now) (reminders d))"

lemma due_ids_after:
  assumes "T \<le> now"
  shows "due_ids T (set_sent E now A d) = due_ids T d - A"
  by (auto simp: due_ids_def due_after_set_sent [OF assms] simp del: filter_filter)

lemma due_ids_claimed:
  assumes "db_integrity d"
  shows "due_ids T (set_sent E now (r_id ` set (find_due limit now d)) d) \<subseteq> due_ids T d - r_id ` set (find_due limit now d)"
proof -
  have here: "r_id q \<notin> r_id ` set (find_due limit now d) \<and> reminder_due T q"
    if q: "q \<in> set (reminders d)" and due: "reminder_due T (sent_if E now (r_id ` set (find_due limit now d)) q)" for q
  proof -
    have "reminder_due now q" if "r_id q \<in> r_id ` set (find_due limit now d)"
      using that find_due_members q assms unfolding db_integrity_def distinct_map inj_on_def by (metis imageE)
    then show ?thesis using due by (auto simp: sent_if_def reminder_due_def split: if_splits)
  qed
  show ?thesis
  proof
    fix i assume "i \<in> due_ids T (set_sent E now (r_id ` set (find_due limit now d)) d)"
    then obtain q where q: "q \<in> set (reminders d)" "i = r_id q"
      "reminder_due T (sent_if E now (r_id ` set (find_due limit now d)) q)"
      by (auto simp: due_ids_def set_sent_def)
    show "i \<in> due_ids T d - r_id ` set (find_due limit now d)"
      using here [OF q(1,3)] q(1,2) by (simp add: due_ids_def)
  qed
qed

text \<open>Ticks under a moving clock: what was due at \<open>T\<close>, and perhaps more, is notified, and nothing twice.\<close>

lemma ticks_drain:
  assumes "db_integrity d" and "\<And>x. commit_exn E x = None" and "\<And>k. T \<le> clk k"
    and "length (filter (reminder_due T) (reminders d)) \<le> m * limit"
  shows "\<exists>d' new. ticks (worker_tick E send clk limit) n m (d, log) = (d', log @ new) \<and>
    filter (reminder_due T) (reminders d') = [] \<and> distinct (map (r_id \<circ> fst) new) \<and>
    due_ids T d \<subseteq> (r_id \<circ> fst) ` set new \<and> (\<forall>x \<in> set new. \<exists>k. n \<le> k \<and> k < n + m \<and> r_id (fst x) \<in> due_ids (clk k) d)"
  using assms
proof (induction m arbitrary: d log n)
  case 0
  then show ?case by (auto simp: due_ids_def)
next
  case (Suc m)
  let ?now = "clk n"
  let ?due = "find_due limit ?now d"
  let ?A = "r_id ` set ?due"
  let ?d = "set_sent E ?now ?A d"
  let ?log = "map (notify ?now d) ?due"
  have ok: "db_integrity ?d" using Suc.prems(1) by (rule integrity_set_sent)
  have "length (filter (reminder_due T) (reminders ?d)) \<le> m * limit"
    using due_count_after [OF Suc.prems(1,3), of E n limit] Suc.prems(4) by simp
  from Suc.IH [OF ok Suc.prems(2,3) this, of "Suc n" "log @ ?log"] obtain d' new where
    r: "ticks (worker_tick E send clk limit) (Suc n) m (?d, log @ ?log) = (d', (log @ ?log) @ new)"
    "filter (reminder_due T) (reminders d') = []" "distinct (map (r_id \<circ> fst) new)" "due_ids T ?d \<subseteq> (r_id \<circ> fst) ` set new"
    and from_due: "\<forall>x \<in> set new. \<exists>k. Suc n \<le> k \<and> k < Suc n + m \<and> r_id (fst x) \<in> due_ids (clk k) ?d" by blast
  note claimed = due_ids_claimed [OF Suc.prems(1), of _ E ?now limit]
  have ids: "map (r_id \<circ> fst) ?log = map r_id ?due" by (simp add: notify_def)
  then have first: "(r_id \<circ> fst) ` set ?log = ?A" by (metis set_map)
  have fresh: "(r_id \<circ> fst) ` set new \<inter> ?A = {}" using from_due claimed by fastforce
  have "distinct (map (r_id \<circ> fst) ?log)" unfolding ids by (rule find_due_distinct [OF Suc.prems(1)])
  then have "distinct (map (r_id \<circ> fst) (?log @ new))"
    using r(3) first fresh by (simp only: map_append distinct_append set_map) blast
  moreover have "due_ids T d \<subseteq> (r_id \<circ> fst) ` set (?log @ new)"
    unfolding set_append image_Un first using r(4) due_ids_after [OF Suc.prems(3), of E n ?A d] by blast
  moreover have "\<forall>x \<in> set (?log @ new). \<exists>k. n \<le> k \<and> k < n + Suc m \<and> r_id (fst x) \<in> due_ids (clk k) d"
  proof
    fix x assume "x \<in> set (?log @ new)"
    then consider "x \<in> set ?log" | "x \<in> set new" by auto
    then show "\<exists>k. n \<le> k \<and> k < n + Suc m \<and> r_id (fst x) \<in> due_ids (clk k) d"
    proof cases
      case 1
      then have "r_id (fst x) \<in> due_ids ?now d" using find_due_members by (fastforce simp: notify_def due_ids_def)
      then show ?thesis by (intro exI [of _ n]) simp
    next
      case 2
      then obtain k where "Suc n \<le> k" "k < Suc n + m" "r_id (fst x) \<in> due_ids (clk k) ?d" using from_due by blast
      then show ?thesis using claimed by (intro exI [of _ k]) auto
    qed
  qed
  moreover have "ticks (worker_tick E send clk limit) n (Suc m) (d, log) = (d', log @ ?log @ new)"
    using r(1) worker_tick_state [OF Suc.prems(1,2)] by (simp add: Let_def)
  ultimately show ?case using r(2) by blast
qed

text \<open>C39: A commit that fails after the notifications went out leaves every row PENDING, so the next tick, whenever it
  comes, notifies the same reminders with the same tasks again, in the same order and before any reminder
  that has become due meanwhile: the claim is not durable when the provider is called.\<close>

theorem failed_commit_renotifies:
  assumes "db_integrity d" and "find_due limit now d \<noteq> []" and "now \<le> later"
    and "\<And>x. commit_exn E x = Some e" and "\<And>x. commit_exn E' x = None"
  shows "\<exists>log log' rest res d'. run_once E send quiet now limit d = (Inl e, log, d) \<and> log \<noteq> [] \<and>
    run_once E' send' quiet later limit d = (Inr res, log', d') \<and>
    map (\<lambda>(r, t). (r_id r, t)) log' = map (\<lambda>(r, t). (r_id r, t)) log @ rest"
proof -
  obtain rest where "find_due limit later d = find_due limit now d @ rest" using find_due_later [OF assms(3)] by blast
  then show ?thesis
    using assms run_once_quiet [OF assms(1), of E send now limit] run_once_quiet [OF assms(1), of E' send' later limit]
    by (auto simp: Let_def notify_def)
qed

lemma failed_commit_renotifies_witness:
  "\<exists>log log' rest res d'. run_once (pg_env\<lparr>commit_exn := \<lambda>_. Some (DbError ''lost'')\<rparr>) console_send quiet 600 10 sample_db
       = (Inl (DbError ''lost''), log, sample_db) \<and> log \<noteq> [] \<and>
    run_once pg_env console_send quiet 660 10 sample_db = (Inr res, log', d') \<and>
    map (\<lambda>(r, t). (r_id r, t)) log' = map (\<lambda>(r, t). (r_id r, t)) log @ rest"
  by (rule failed_commit_renotifies [OF integrity_sample_db])
    (simp_all add: find_due_def reminder_due_def sample_simps)

text \<open>C38: The worker stops: once shutdown is requested and stays requested, \<^verbatim>\<open>run_forever\<close> returns, having
  run a whole number of ticks, at most one per reading of the flag until then.\<close>

theorem worker_stops:
  assumes "stop m" and "\<And>j. m \<le> j \<Longrightarrow> stop j"
  shows "\<exists>c \<le> m. run_forever (worker_tick E send clk limit) tick_seconds stop 0 0 w
    = Some (c, ticks (worker_tick E send clk limit) 0 c w)"
  using run_forever_ticks [of stop m 0 "worker_tick E send clk limit" tick_seconds 0 w, OF assms] by simp

lemma worker_stops_witness:
  "\<exists>c \<le> 7. run_forever (worker_tick pg_env console_send (\<lambda>_. 600) 10) 60 (\<lambda>j. 7 \<le> j) 0 0 (sample_db, [])
    = Some (c, ticks (worker_tick pg_env console_send (\<lambda>_. 600) 10) 0 c (sample_db, []))"
  by (rule worker_stops) simp_all

end
