(* ===== verification/SystemRuns.thy ===== *)
theory SystemRuns
  imports AgentHandler Api Scheduler
begin

text \<open>
  The composed system: the HTTP endpoints, the chat and the notification worker over one database,
  one request or tick after the other. \<open>use_case\<close> is the abstract effect of one write of the
  application layer, \<open>system_step\<close> one request or tick; what holds along every run is proved by rule
  induction over them.
\<close>

subsection \<open>One write of the application layer\<close>

inductive use_case :: "db \<Rightarrow> db \<Rightarrow> bool" where
  idle: "use_case d d"
| task_created: "create_task E clk i name desc dl prio dur d = Inr (t, d') \<Longrightarrow> use_case d d'"
| task_updated: "update_task E clk i name udesc udl prio st udur d = Inr (t, d') \<Longrightarrow> use_case d d'"
| task_deleted: "delete_task i d = Inr (u, d') \<Longrightarrow> use_case d d'"
| reminder_created: "create_reminder E clk i tid at d = Inr (r, d') \<Longrightarrow> use_case d d'"
| reminder_updated: "update_reminder E clk i rat rst d = Inr (r, d') \<Longrightarrow> use_case d d'"
| reminder_deleted: "delete_reminder i d = Inr (u, d') \<Longrightarrow> use_case d d'"

lemma transact_use_case:
  assumes "clean s" and "\<And>x d'. f (committed s) = Inr (x, d') \<Longrightarrow> use_case (committed s) d'"
  shows "use_case (committed s) (committed (snd (transact E f s)))"
  using assms by (cases rule: transact_cases [of f s E]) (auto simp: clean_def rollback_def idle)

lemma dispatch_use_case:
  assumes "clean s"
  shows "use_case (committed s) (committed (snd (dispatch X c s)))"
  by (rule dispatch_session [of "\<lambda>s'. use_case (committed s) (committed s')"])
    (auto intro!: transact_use_case [OF assms] intro: use_case.intros)

lemma use_case_integrity: "use_case d d' \<Longrightarrow> db_integrity d \<Longrightarrow> db_integrity d'"
  by (induction rule: use_case.induct)
    (auto intro: integrity_create_task integrity_update_task integrity_delete_task
      integrity_create_reminder integrity_update_reminder integrity_delete_reminder)

lemma use_case_confirmations: "use_case d d' \<Longrightarrow> confirmations d' = confirmations d"
  by (induction rule: use_case.induct) (auto dest: use_cases_confirmations)

text \<open>A reminder that was sent stays as it is or goes; no write makes one SENT.\<close>

definition sent_stays :: "db \<Rightarrow> db \<Rightarrow> bool" where
  "sent_stays d d' \<longleftrightarrow> (\<forall>i r. reminder_get i d = Some r \<and> r_status r = ''SENT'' \<longrightarrow> reminder_get i d' \<in> {None, Some r})"

definition none_sent :: "db \<Rightarrow> db \<Rightarrow> bool" where
  "none_sent d d' \<longleftrightarrow> (\<forall>i r. reminder_get i d' = Some r \<and> r_status r = ''SENT'' \<longrightarrow> reminder_get i d = Some r)"

lemma reminder_get_erase: "reminder_get j (task_erase i d) = (case reminder_get j d of None \<Rightarrow> None
    | Some r \<Rightarrow> if r_task_id r = i then None else Some r)" if "distinct (map r_id (reminders d))"
proof -
  have "find_row r_id j (filter (\<lambda>r. r_task_id r \<noteq> i) rs) = (case find_row r_id j rs of None \<Rightarrow> None
    | Some r \<Rightarrow> if r_task_id r = i then None else Some r)" if "distinct (map r_id rs)" for rs
    using that
  proof (induction rs)
    case (Cons r rs)
    have "find_row r_id j rs = None" if "r_id r = j"
      using Cons.prems that by (auto simp: find_row_None_iff image_iff)
    then show ?case using Cons by (auto split: option.splits)
  qed simp
  then show ?thesis using that by (simp add: reminder_get_def task_erase_def)
qed

lemma use_case_sent:
  assumes "use_case d d'" and "db_integrity d"
  shows "sent_stays d d' \<and> none_sent d d'"
  using assms
proof (cases rule: use_case.cases)
  case (task_created E clk i name desc dl prio dur t)
  then have "reminders d' = reminders d" by (auto simp: create_task_Inr task_insert_def)
  then show ?thesis by (simp add: sent_stays_def none_sent_def reminder_get_def)
next
  case (task_updated E clk i name udesc udl prio st udur t)
  then have "reminders d' = reminders d" using update_task_InrD [OF task_updated] task_repo_update_Inr by blast
  then show ?thesis by (simp add: sent_stays_def none_sent_def reminder_get_def)
next
  case (task_deleted i u)
  moreover have "distinct (map r_id (reminders d))" using assms(2) by (simp add: db_integrity_def)
  ultimately show ?thesis
    by (auto simp: delete_task_Inr sent_stays_def none_sent_def reminder_get_erase split: option.splits if_splits)
next
  case (reminder_created E clk i tid at r)
  then have "reminder_get i d = None" "d' = reminder_insert r d" "r_id r = i" "r_status r = ''PENDING''"
    by (auto simp: create_reminder_Inr)
  then show ?thesis by (auto simp: sent_stays_def none_sent_def reminder_table.get_ins split: if_splits)
next
  case (reminder_updated E clk i rat rst r)
  obtain old where old: "reminder_get i d = Some old" "r_status old \<noteq> ''SENT''" "r_id r = i"
    "r_status r = r_status old \<or> r_status r \<in> assignable_statuses" "d' = d \<and> r = old \<or> d' = reminder_replace r d"
    using update_reminder_InrD [OF reminder_updated] by auto
  have "r_status r \<noteq> ''SENT''" using old(2,4) by (auto simp: assignable_statuses_def)
  then show ?thesis
    using old reminder_table.get_upd [of r d old] by (auto simp: sent_stays_def none_sent_def split: if_splits)
next
  case (reminder_deleted i u)
  then show ?thesis by (auto simp: delete_reminder_Inr sent_stays_def none_sent_def reminder_table.get_del split: if_splits)
qed (simp add: sent_stays_def none_sent_def)

subsection \<open>One request or tick\<close>

datatype api_call = PostTask uuid task_create_request | PatchTask uuid task_update_request | RemoveTask uuid
  | PostReminder uuid uuid pydatetime | PatchReminder uuid reminder_update_request | RemoveReminder uuid

fun api_session :: "db_env \<Rightarrow> (nat \<Rightarrow> int) \<Rightarrow> api_call \<Rightarrow> session \<Rightarrow> session" where
  \<comment> \<open>the session after a writing endpoint; a POST brings the identifier of the new row\<close>
  "api_session E clk (PostTask i payload) s = snd (post_task E clk i payload s)"
| "api_session E clk (PatchTask i payload) s = snd (patch_task E clk i payload s)"
| "api_session E clk (RemoveTask i) s = snd (remove_task E i s)"
| "api_session E clk (PostReminder i task_id at) s = snd (post_reminder E clk i task_id at s)"
| "api_session E clk (PatchReminder i payload) s = snd (patch_reminder E clk i payload s)"
| "api_session E clk (RemoveReminder i) s = snd (remove_reminder E i s)"

lemma api_use_case:
  assumes "clean s"
  shows "use_case (committed s) (committed (api_session E clk call s))"
proof -
  note v = validated_session [of "\<lambda>s'. use_case (committed s) (committed s')"]
  note t = transact_use_case [OF assms]
  show ?thesis
    by (cases call)
      (auto simp: post_task_def patch_task_def remove_task_def post_reminder_def patch_reminder_def remove_reminder_def
        module_create_task_def module_update_task_def module_delete_task_def module_create_reminder_def
        module_update_reminder_def module_delete_reminder_def intro!: v t idle intro: use_case.intros)
qed

inductive system_step :: "db \<Rightarrow> db \<Rightarrow> bool" where
  api: "system_step d (committed (api_session E clk call (fresh d)))"
| chat: "system_step d (snd (agent_chat H msg user d))"
| tick: "system_step d (snd (snd (run_once E send quiet now limit d)))"

text \<open>The rows after a chat: the confirmations move, and at most one command runs.\<close>

lemma chat_effect_parts:
  assumes "chat_effect H user d d'" and "db_integrity d"
  shows "\<exists>d1. db_integrity d1 \<and> conf_evolves d d1 \<and> tasks d1 = tasks d \<and> reminders d1 = reminders d \<and> use_case d1 d'"
  using assms
proof (cases rule: chat_effect.cases)
  case nothing
  then show ?thesis using assms(2) idle by blast
next
  case (stored command expires c)
  then have "conf_evolves d d'" "db_integrity d'" "tasks d' = tasks d" "reminders d' = reminders d"
    using conf_evolves_create integrity_create_confirmation [OF assms(2)]
    by (auto simp: confirmation_repo_create_Inr confirmation_insert_def)
  then show ?thesis using idle by blast
next
  case (settled i)
  then show ?thesis
    using conf_evolves_confirm_rows integrity_confirm_rows [OF assms(2)] idle by (metis confirm_rows_frame)
next
  case (confirmed i c command)
  let ?d1 = "confirm_rows (h_now_confirm H) i user d"
  have "use_case ?d1 d'" using dispatch_use_case [of "fresh ?d1"] confirmed(1) by simp
  then show ?thesis using conf_evolves_confirm_rows integrity_confirm_rows [OF assms(2)] by (metis confirm_rows_frame)
next
  case (executed command)
  have "use_case d d'" using dispatch_use_case [of "fresh d"] executed(1) by simp
  then show ?thesis using assms(2) by blast
qed

lemma chat_parts:
  assumes "db_integrity d"
  shows "\<exists>d1. db_integrity d1 \<and> conf_evolves d d1 \<and> tasks d1 = tasks d \<and> reminders d1 = reminders d \<and>
    use_case d1 (snd (agent_chat H msg user d))"
proof -
  obtain d0 where d0: "d0 \<in> after_cleanup H d" "chat_effect H user d0 (snd (agent_chat H msg user d))"
    using agent_chat_effect [OF assms] by blast
  have "db_integrity d0" "conf_evolves d d0" "tasks d0 = tasks d" "reminders d0 = reminders d"
    using d0(1) assms integrity_mark_expired conf_evolves_mark_expired by (auto simp: after_cleanup_def)
  with chat_effect_parts [OF d0(2)] show ?thesis using conf_evolves_trans by metis
qed

lemma tick_rows:
  assumes "db_integrity d"
  shows "snd (snd (run_once E send quiet now limit d)) \<in> {d, set_sent E now (r_id ` set (find_due limit now d)) d}"
  using run_once_quiet [OF assms, of E send now limit] by (auto simp: Let_def split: if_splits option.splits)

lemma step_integrity: "system_step d d' \<Longrightarrow> db_integrity d \<Longrightarrow> db_integrity d'"
proof (induction rule: system_step.induct)
  case (api d E clk call)
  then show ?case using use_case_integrity [OF api_use_case [of "fresh d"]] by simp
next
  case (chat d H msg user)
  then show ?case using chat_parts use_case_integrity by blast
next
  case (tick d E send now limit)
  then show ?case using tick_rows [OF tick] integrity_set_sent by (metis empty_iff insertE)
qed

lemma step_confirmations: "system_step d d' \<Longrightarrow> db_integrity d \<Longrightarrow> conf_evolves d d'"
proof (induction rule: system_step.induct)
  case (api d E clk call)
  then show ?case using use_case_confirmations [OF api_use_case [of "fresh d"]] conf_evolves_same by simp
next
  case (chat d H msg user)
  then obtain d1 where "conf_evolves d d1" "use_case d1 (snd (agent_chat H msg user d))" using chat_parts by blast
  then show ?case using use_case_confirmations conf_evolves_same conf_evolves_trans by metis
next
  case (tick d E send now limit)
  have "confirmations (set_sent E now A d) = confirmations d" for A by (simp add: set_sent_def)
  then show ?case using tick_rows [OF tick, of E send now limit] conf_evolves_same by auto
qed

text \<open>Who makes a reminder SENT.\<close>

lemma api_no_sent:
  assumes "db_integrity d"
  shows "sent_stays d (committed (api_session E clk call (fresh d))) \<and> none_sent d (committed (api_session E clk call (fresh d)))"
  using use_case_sent [OF api_use_case [of "fresh d"]] assms by simp

lemma chat_no_sent:
  assumes "db_integrity d"
  shows "sent_stays d (snd (agent_chat H msg user d)) \<and> none_sent d (snd (agent_chat H msg user d))"
proof -
  obtain d1 where d1: "db_integrity d1" "reminders d1 = reminders d" "use_case d1 (snd (agent_chat H msg user d))"
    using chat_parts [OF assms] by blast
  have "reminder_get i d1 = reminder_get i d" for i using d1(2) by (simp add: reminder_get_def)
  with use_case_sent [OF d1(3,1)] show ?thesis by (auto simp: sent_stays_def none_sent_def)
qed

lemma tick_sent:
  assumes "db_integrity d" and "run_once E send quiet now limit d = (res, log, d')"
    and "reminder_get i d' = Some r'" and "r_status r' = ''SENT''"
  shows "\<exists>r. reminder_get i d = Some r \<and> (r' = r \<or> r_status r = ''PENDING'' \<and> instant (r_remind_at r) \<le> now \<and>
    r' = r\<lparr>r_status := ''SENT'', r_updated_at := from_db E now\<rparr> \<and> claimed_row now r \<in> fst ` set log)"
proof -
  let ?due = "find_due limit now d"
  consider "d' = d" | "d' = set_sent E now (r_id ` set ?due) d" "log = map (notify now d) ?due"
    using assms(2) run_once_quiet [OF assms(1), of E send now limit] by (auto simp: Let_def split: if_splits option.splits)
  then show ?thesis
  proof cases
    case 1
    then show ?thesis using assms(3) by blast
  next
    case 2
    then obtain r where r: "reminder_get i d = Some r" "r' = sent_if E now (r_id ` set ?due) r"
      using assms(3) by (auto simp: reminder_get_set_sent)
    show ?thesis
    proof (cases "r_id r \<in> r_id ` set ?due \<and> reminder_due now r")
      case True
      then obtain q where "q \<in> set ?due" "r_id q = r_id r" by auto
      then have "q = r" using find_due_members reminder_table.get_SomeD [OF r(1)] assms(1)
        unfolding db_integrity_def distinct_map inj_on_def by metis
      with \<open>q \<in> set ?due\<close> have "claimed_row now r \<in> fst ` set log" unfolding 2(2) by (force simp: notify_def)
      then show ?thesis using r True by (auto simp: sent_if_def reminder_due_def)
    next
      case False
      then show ?thesis using r by (auto simp: sent_if_def)
    qed
  qed
qed

lemma step_sent_stays:
  assumes "system_step d d'" and "db_integrity d"
  shows "sent_stays d d'"
  using assms
proof (cases rule: system_step.cases)
  case (tick E send now limit)
  have "sent_if E now A r = r" if "r_status r = ''SENT''" for A r using that by (simp add: sent_if_def reminder_due_def)
  then show ?thesis using tick_rows [OF assms(2), of E send now limit] tick
    by (auto simp: sent_stays_def reminder_get_set_sent)
qed (use api_no_sent [OF assms(2)] chat_no_sent [OF assms(2)] in auto)

subsection \<open>Properties\<close>

lemma run_integrity: "system_step\<^sup>*\<^sup>* d d' \<Longrightarrow> db_integrity d \<Longrightarrow> db_integrity d'"
  by (induction rule: rtranclp_induct) (auto dest: step_integrity)

lemma run_confirmations: "system_step\<^sup>*\<^sup>* d d' \<Longrightarrow> db_integrity d \<Longrightarrow> conf_evolves d d'"
proof (induction rule: rtranclp_induct)
  case (step y z)
  then show ?case using step_confirmations run_integrity conf_evolves_trans by blast
qed simp

lemma delete_sample_step: "system_step\<^sup>*\<^sup>* sample_db (sample_db\<lparr>tasks := [], reminders := []\<rparr>)"
proof -
  have "committed (api_session pg_env (\<lambda>_. 0) (RemoveTask 1) (fresh sample_db)) = sample_db\<lparr>tasks := [], reminders := []\<rparr>"
    by (simp add: remove_task_def module_delete_task_def transact_def delete_task_def task_repo_delete_def task_get_def
        task_erase_def remove_row_def commit_def sample_simps fresh_def)
  then show ?thesis using system_step.api [of sample_db pg_env "\<lambda>_. 0" "RemoveTask 1"] by (metis r_into_rtranclp)
qed

text \<open>C2: Along every run of requests and ticks the stored rows stay well formed: identifiers are unique, every
  reminder belongs to a stored task, and every status of a reminder or confirmation is one of its enum,
  whatever the clients, the language model, the clock and the failures of commits.\<close>

theorem every_run_keeps_integrity:
  assumes "system_step\<^sup>*\<^sup>* d d'" and "db_integrity d"
  shows "distinct (map t_id (tasks d')) \<and> distinct (map r_id (reminders d')) \<and> distinct (map c_id (confirmations d')) \<and>
    r_task_id ` set (reminders d') \<subseteq> t_id ` set (tasks d') \<and> r_status ` set (reminders d') \<subseteq> range rem_status_value \<and>
    c_status ` set (confirmations d') \<subseteq> range conf_status_value"
  using run_integrity [OF assms] by (auto simp: db_integrity_def)

lemma every_run_keeps_integrity_witness:
  "system_step\<^sup>*\<^sup>* sample_db (sample_db\<lparr>tasks := [], reminders := []\<rparr>) \<and>
   r_task_id ` set (reminders (sample_db\<lparr>tasks := [], reminders := []\<rparr>)) \<subseteq> t_id ` set (tasks (sample_db\<lparr>tasks := [], reminders := []\<rparr>))"
  using every_run_keeps_integrity [OF delete_sample_step integrity_sample_db] delete_sample_step by blast

text \<open>C14: A confirmation has one life: along every run it is never removed and keeps its user, its command, its
  creation and its expiry; it can only go from PENDING to CONFIRMED or EXPIRED, and there it stays.\<close>

theorem confirmation_life:
  assumes "system_step\<^sup>*\<^sup>* d d'" and "db_integrity d" and "confirmation_get i d = Some c"
  shows "\<exists>c'. confirmation_get i d' = Some c' \<and> c_user_id c' = c_user_id c \<and> c_execution_command c' = c_execution_command c \<and>
    c_created_at c' = c_created_at c \<and> c_expires_at c' = c_expires_at c \<and>
    (c_status c' = c_status c \<or> c_status c = ''PENDING'' \<and> c_status c' \<in> {''CONFIRMED'', ''EXPIRED''})"
proof -
  obtain c' where "confirmation_get i d' = Some c'" "conf_next c c'"
    using run_confirmations [OF assms(1,2)] assms(3) by (auto simp: conf_evolves_def)
  then show ?thesis by (auto simp: conf_next_def)
qed

lemma confirmation_life_witness:
  "\<exists>d' c'. system_step\<^sup>*\<^sup>* (sample_db\<lparr>confirmations := [sample_confirmation 3 None ''{}'' 1000]\<rparr>) d' \<and>
     confirmation_get 3 d' = Some c' \<and> c_execution_command c' = ''{}''"
proof -
  let ?d = "sample_db\<lparr>confirmations := [sample_confirmation 3 None ''{}'' 1000]\<rparr>"
  have ok: "db_integrity ?d" using rangeI [of conf_status_value CS_PENDING] by (simp add: db_integrity_def sample_simps)
  have run: "system_step\<^sup>*\<^sup>* ?d (committed (api_session pg_env (\<lambda>_. 0) (RemoveTask 1) (fresh ?d)))"
    by (rule r_into_rtranclp, rule system_step.api)
  have "confirmation_get 3 ?d = Some (sample_confirmation 3 None ''{}'' 1000)"
    by (simp add: confirmation_get_def sample_simps)
  from confirmation_life [OF run ok this] run show ?thesis by (auto simp: sample_confirmation_def)
qed

text \<open>C20: SENT is final and only the worker gives it: a request or tick leaves a SENT reminder exactly as it is or
  deletes it; a reminder that is SENT after a request of the API or a chat was the same SENT reminder
  before; and after a tick it was the same one, or it was due before, nothing but its status and its time
  of change differ, and the provider has been called for it.\<close>

theorem sent_is_final:
  assumes "db_integrity d"
  shows "(\<forall>d' i r. system_step d d' \<and> reminder_get i d = Some r \<and> r_status r = ''SENT'' \<longrightarrow> reminder_get i d' \<in> {None, Some r}) \<and>
    (\<forall>E clk call i r. reminder_get i (committed (api_session E clk call (fresh d))) = Some r \<and> r_status r = ''SENT''
       \<longrightarrow> reminder_get i d = Some r) \<and>
    (\<forall>H msg user i r. reminder_get i (snd (agent_chat H msg user d)) = Some r \<and> r_status r = ''SENT''
       \<longrightarrow> reminder_get i d = Some r) \<and>
    (\<forall>E send now limit res log d' i r'. run_once E send quiet now limit d = (res, log, d') \<and>
       reminder_get i d' = Some r' \<and> r_status r' = ''SENT'' \<longrightarrow> (\<exists>r. reminder_get i d = Some r \<and>
       (r' = r \<or> r_status r = ''PENDING'' \<and> instant (r_remind_at r) \<le> now \<and> r' = r\<lparr>r_status := ''SENT'', r_updated_at := from_db E now\<rparr> \<and>
          claimed_row now r \<in> fst ` set log)))"
proof (intro conjI allI impI)
  fix E clk call i r
  assume "reminder_get i (committed (api_session E clk call (fresh d))) = Some r \<and> r_status r = ''SENT''"
  then show "reminder_get i d = Some r"
    using api_no_sent [OF assms, of E clk call] by (auto simp: none_sent_def)
next
  fix H msg user i r
  assume "reminder_get i (snd (agent_chat H msg user d)) = Some r \<and> r_status r = ''SENT''"
  then show "reminder_get i d = Some r"
    using chat_no_sent [OF assms, of H msg user] by (auto simp: none_sent_def)
next
  fix E send now limit res log d' i r'
  assume "run_once E send quiet now limit d = (res, log, d') \<and> reminder_get i d' = Some r' \<and> r_status r' = ''SENT''"
  then show "\<exists>r. reminder_get i d = Some r \<and> (r' = r \<or> r_status r = ''PENDING'' \<and> instant (r_remind_at r) \<le> now \<and>
      r' = r\<lparr>r_status := ''SENT'', r_updated_at := from_db E now\<rparr> \<and> claimed_row now r \<in> fst ` set log)"
    using tick_sent [OF assms] by blast
next
  fix d' i r
  assume a: "system_step d d' \<and> reminder_get i d = Some r \<and> r_status r = ''SENT''"
  then show "reminder_get i d' \<in> {None, Some r}" using step_sent_stays [OF _ assms] unfolding sent_stays_def by blast
qed

lemma sent_is_final_witness:
  "\<exists>d'. system_step (sample_db\<lparr>reminders := [sample_reminder 2 1 500 RS_SENT]\<rparr>) d' \<and>
     reminder_get 2 d' \<in> {None, Some (sample_reminder 2 1 500 RS_SENT)}"
proof -
  let ?d = "sample_db\<lparr>reminders := [sample_reminder 2 1 500 RS_SENT]\<rparr>"
  have ok: "db_integrity ?d" using rangeI [of rem_status_value RS_SENT] by (simp add: db_integrity_def sample_simps)
  have step: "system_step ?d (snd (snd (run_once pg_env console_send quiet 600 10 ?d)))" by (rule system_step.tick)
  have "reminder_get 2 ?d = Some (sample_reminder 2 1 500 RS_SENT)" by (simp add: reminder_get_def sample_simps)
  moreover have "r_status (sample_reminder 2 1 500 RS_SENT) = ''SENT''" by (simp add: sample_reminder_def)
  ultimately show ?thesis using sent_is_final [OF ok, THEN conjunct1] step by blast
qed

text \<open>What a command can remove.\<close>

lemma dispatch_keeps_tasks:
  assumes "clean s" and "task_get j (committed s) \<noteq> None" and "\<not> (cmd_action_type c = DELETE_TASK \<and> cmd_resource_id c = Some j)"
  shows "task_get j (committed (snd (dispatch X c s))) \<noteq> None"
proof (rule dispatch_session [of "\<lambda>s'. task_get j (committed s') \<noteq> None"])
  have w: "working s = committed s" using assms(1) by (simp add: clean_def)
  note t = transact_tasks [where Q = "\<lambda>d. task_get j d \<noteq> None", OF assms(1) _ assms(2), unfolded w]
  show "task_get j (committed (snd (transact (x_db X) (create_task (x_db X) (x_clock X) (x_new_id X) n ds dl p du) s))) \<noteq> None" for n ds dl p du
    using assms(2) bind_new_task_id by (intro t) (auto simp: create_task_Inr task_table.get_ins)
  show "task_get j (committed (snd (transact (x_db X) (update_task (x_db X) (x_clock X) i n ds dl p st du) s))) \<noteq> None" for i n ds dl p st du
  proof (rule t)
    fix x d' assume "update_task (x_db X) (x_clock X) i n ds dl p st du (committed s) = Inr (x, d')"
    from update_task_InrD [OF this] show "task_get j d' \<noteq> None"
      using assms(2) task_repo_update_Inr by (metis option.distinct(1))
  qed
  show "task_get j (committed (snd (transact (x_db X) (delete_task i) s))) \<noteq> None"
    if "cmd_action_type c = DELETE_TASK" "cmd_resource_id c = Some i" for i
    using assms(2,3) that by (intro t) (auto simp: delete_task_Inr task_table.get_del)
  show "task_get j (committed (snd (transact (x_db X) (create_reminder (x_db X) (x_clock X) (x_new_id X) i at) s))) \<noteq> None" for i at
    using assms(2) by (intro t) (auto simp: create_reminder_Inr reminder_insert_def task_get_def)
  show "task_get j (committed (snd (transact (x_db X) (update_reminder (x_db X) (x_clock X) i at st) s))) \<noteq> None" for i at st
    using assms(2) by (intro t) (auto dest!: update_reminder_InrD simp: reminder_replace_def task_get_def)
  show "task_get j (committed (snd (transact (x_db X) (delete_reminder i) s))) \<noteq> None" for i
    using assms(2) by (intro t) (auto simp: delete_reminder_Inr reminder_erase_def task_get_def)
qed (fact assms(2))

lemma dispatch_keeps_reminders:
  assumes "clean s" and "db_integrity (committed s)" and "reminder_get k (committed s) = Some q"
    and "\<not> (cmd_action_type c = DELETE_REMINDER \<and> cmd_resource_id c = Some k)"
    and "\<not> (cmd_action_type c = DELETE_TASK \<and> cmd_resource_id c = Some (r_task_id q))"
  shows "reminder_get k (committed (snd (dispatch X c s))) \<noteq> None"
proof (rule dispatch_session [of "\<lambda>s'. reminder_get k (committed s') \<noteq> None"])
  have w: "working s = committed s" using assms(1) by (simp add: clean_def)
  have some: "reminder_get k (committed s) \<noteq> None" using assms(3) by simp
  have dist: "distinct (map r_id (reminders (committed s)))" using assms(2) by (simp add: db_integrity_def)
  note t = transact_tasks [where Q = "\<lambda>d. reminder_get k d \<noteq> None", OF assms(1) _ some, unfolded w]
  show "reminder_get k (committed s) \<noteq> None" by (fact some)
  show "reminder_get k (committed (snd (transact (x_db X) (create_task (x_db X) (x_clock X) (x_new_id X) n ds dl p du) s))) \<noteq> None" for n ds dl p du
    using some by (intro t) (auto simp: create_task_Inr task_insert_def reminder_get_def)
  show "reminder_get k (committed (snd (transact (x_db X) (update_task (x_db X) (x_clock X) i n ds dl p st du) s))) \<noteq> None" for i n ds dl p st du
  proof (rule t)
    fix x d' assume "update_task (x_db X) (x_clock X) i n ds dl p st du (committed s) = Inr (x, d')"
    from update_task_InrD [OF this] have "reminders d' = reminders (committed s)" using task_repo_update_Inr by blast
    then show "reminder_get k d' \<noteq> None" using some by (simp add: reminder_get_def)
  qed
  show "reminder_get k (committed (snd (transact (x_db X) (delete_task i) s))) \<noteq> None"
    if "cmd_action_type c = DELETE_TASK" "cmd_resource_id c = Some i" for i
    using assms(3,5) that by (intro t) (auto simp: delete_task_Inr reminder_get_erase [OF dist])
  show "reminder_get k (committed (snd (transact (x_db X) (create_reminder (x_db X) (x_clock X) (x_new_id X) i at) s))) \<noteq> None" for i at
    using some by (intro t) (auto simp: create_reminder_Inr reminder_table.get_ins)
  show "reminder_get k (committed (snd (transact (x_db X) (update_reminder (x_db X) (x_clock X) i at st) s))) \<noteq> None" for i at st
  proof (rule t)
    fix x d' assume "update_reminder (x_db X) (x_clock X) i at st (committed s) = Inr (x, d')"
    from update_reminder_InrD [OF this] show "reminder_get k d' \<noteq> None"
      using some reminder_table.get_upd [of x "committed s"] by (auto split: if_splits)
  qed
  show "reminder_get k (committed (snd (transact (x_db X) (delete_reminder i) s))) \<noteq> None"
    if "cmd_action_type c = DELETE_REMINDER" "cmd_resource_id c = Some i" for i
    using assms(3,4) that by (intro t) (auto simp: delete_reminder_Inr reminder_table.get_del)
qed

definition confirmed_now :: "chat_env \<Rightarrow> uuid option \<Rightarrow> db \<Rightarrow> db \<Rightarrow> execution_command \<Rightarrow> bool" where
  \<comment> \<open>the command of a confirmation of this user that was pending and in time before, and is CONFIRMED now\<close>
  "confirmed_now H user d d' command \<longleftrightarrow> (\<exists>i c c'. confirmation_get i d = Some c \<and> c_user_id c = user \<and>
     c_status c = ''PENDING'' \<and> h_now_confirm H < instant (c_expires_at c) \<and>
     load_command (h_json H) (c_execution_command c) = Inr command \<and>
     confirmation_get i d' = Some c' \<and> c_status c' = ''CONFIRMED'')"

definition may_act :: "chat_env \<Rightarrow> uuid option \<Rightarrow> bool" where
  "may_act H user \<longleftrightarrow> single_user_mode (h_auth H) \<or>
     default_user_id (h_auth H) \<noteq> [] \<and> map_option uuid_str user = Some (default_user_id (h_auth H))"

text \<open>The chat as seen from the rows before it: what ran, and on whose authority.\<close>

lemma chat_cases:
  assumes "db_integrity d" and "agent_chat H msg user d = (r, d')"
  obtains (quiet) "tasks d' = tasks d" "reminders d' = reminders d"
      "\<And>i c. confirmation_get i d = None \<Longrightarrow> confirmation_get i d' = Some c \<Longrightarrow> may_act H user \<and> c_user_id c = user \<and> c_status c = ''PENDING''"
  | (confirmed) d1 command where "db_integrity d1" "tasks d1 = tasks d" "reminders d1 = reminders d"
      "confirmed_now H user d d' command" "d' = committed (snd (dispatch (h_exec H) command (fresh d1)))"
      "\<And>i. confirmation_get i d = None \<Longrightarrow> confirmation_get i d' = None"
  | (executed) d1 command where "db_integrity d1" "tasks d1 = tasks d" "reminders d1 = reminders d"
      "cmd_action_type command \<notin> destructive_actions" "may_act H user"
      "d' = committed (snd (dispatch (h_exec H) command (fresh d1)))" "\<And>i. confirmation_get i d = None \<Longrightarrow> confirmation_get i d' = None"
proof -
  obtain d0 where d0: "d0 \<in> after_cleanup H d" "chat_effect H user d0 d'"
    using agent_chat_effect [OF assms(1), of H user msg] assms(2) by auto
  have f: "db_integrity d0" "tasks d0 = tasks d" "reminders d0 = reminders d"
    using d0(1) assms(1) integrity_mark_expired by (auto simp: after_cleanup_def)
  have origin: "confirmation_get i d = Some c" if "confirmation_get i d0 = Some c" "c_status c = ''PENDING''" for i c
    using that d0(1) by (auto simp: after_cleanup_def get_mark_expired split: if_splits)
  have none: "confirmation_get i d = None \<longleftrightarrow> confirmation_get i d0 = None" for i
    using d0(1) by (auto simp: after_cleanup_def get_mark_expired)
  have auth: "az_status (authorize (h_auth H) user) = AS_AUTHORIZED \<longleftrightarrow> may_act H user"
    unfolding authorize_authorized may_act_def by (cases user) auto
  have get: "confirmation_get i (committed (snd (dispatch (h_exec H) command (fresh x)))) = confirmation_get i x" for i command x
    using dispatch_confirmations [of "fresh x"] by (simp add: confirmation_get_def)
  have rows: "confirmation_get i (confirm_rows now j user d0) = None \<longleftrightarrow> confirmation_get i d0 = None" for i j now
    by (auto simp: confirm_rows_get)
  from d0(2) show thesis
  proof (cases rule: chat_effect.cases)
    case nothing
    with f none show thesis by (intro quiet) auto
  next
    case (stored command expires c)
    let ?c = "new_confirmation (x_db (h_exec H)) (h_json H) (h_new_confirmation_id H) (h_now_create H) user command expires"
    have c: "confirmation_get (c_id ?c) d0 = None" "d' = confirmation_insert ?c d0"
      using stored by (auto simp: confirmation_repo_create_Inr)
    show thesis
    proof (rule quiet)
      show "tasks d' = tasks d" "reminders d' = reminders d" using c(2) f by (simp_all add: confirmation_insert_def)
      fix i x assume "confirmation_get i d = None" "confirmation_get i d' = Some x"
      then have "x = ?c" using c none by (auto simp: confirmation_table.get_ins split: if_splits)
      then show "may_act H user \<and> c_user_id x = user \<and> c_status x = ''PENDING''"
        using stored auth by (simp add: new_confirmation_def)
    qed
  next
    case (settled i)
    then have "confirmation_get j d' = None" if "confirmation_get j d = None" for j using that none rows by simp
    then show thesis using settled f by (intro quiet) auto
  next
    case (confirmed i c command)
    let ?d1 = "confirm_rows (h_now_confirm H) i user d0"
    have st: "c_user_id c = user" "c_status c = ''PENDING''" "h_now_confirm H < instant (c_expires_at c)"
    proof -
      obtain k where "c_status c = conf_status_value k"
        using f(1) confirmation_table.get_SomeD [OF confirmed(2)] by (auto simp: db_integrity_def)
      then show "c_user_id c = user" "c_status c = ''PENDING''" "h_now_confirm H < instant (c_expires_at c)"
        using confirmed(3) by (cases k; auto split: if_splits)+
    qed
    have "confirmation_get i ?d1 = Some (c\<lparr>c_status := ''CONFIRMED''\<rparr>)"
      using confirmed(2,3) st(2) by (simp add: confirm_rows_get settle_def del: confirm_verdict.simps)
    then have "confirmed_now H user d d' command"
      unfolding confirmed_now_def confirmed(1) get
      using origin [OF confirmed(2) st(2)] st confirmed(4) by (intro exI [of _ i] exI [of _ c] exI [of _ "c\<lparr>c_status := ''CONFIRMED''\<rparr>"]) simp
    then show thesis
      using confirmed(1) f integrity_confirm_rows [OF f(1)] none rows get
      by (intro that(2) [of ?d1 command]) simp_all
  next
    case (executed command)
    then show thesis using f none get auth by (intro that(3) [of d0 command]) simp_all
  qed
qed

text \<open>C1: A chat deletes nothing that was not confirmed: when a task disappears, a confirmation of this very user
  was pending and not expired, its stored command is the deletion of that task, and it is CONFIRMED now;
  when a reminder disappears, the command is its deletion or that of its task. No message and no answer
  of the language model can do more.\<close>

theorem chat_deletes_only_what_was_confirmed:
  assumes "db_integrity d" and "agent_chat H msg user d = (r, d')"
  shows "(task_get j d \<noteq> None \<and> task_get j d' = None \<longrightarrow>
      (\<exists>command. confirmed_now H user d d' command \<and> cmd_action_type command = DELETE_TASK \<and> cmd_resource_id command = Some j)) \<and>
    (reminder_get k d = Some q \<and> reminder_get k d' = None \<longrightarrow>
      (\<exists>command. confirmed_now H user d d' command \<and>
         (cmd_action_type command = DELETE_REMINDER \<and> cmd_resource_id command = Some k \<or>
          cmd_action_type command = DELETE_TASK \<and> cmd_resource_id command = Some (r_task_id q))))"
  using assms
proof (cases rule: chat_cases)
  case quiet
  then show ?thesis by (auto simp: task_get_def reminder_get_def)
next
  case (confirmed d1 command)
  have same: "task_get j d1 = task_get j d" "reminder_get k d1 = reminder_get k d"
    using confirmed(2,3) by (simp_all add: task_get_def reminder_get_def)
  have "cmd_action_type command = DELETE_TASK \<and> cmd_resource_id command = Some j" if "task_get j d \<noteq> None \<and> task_get j d' = None"
    by (rule ccontr) (use dispatch_keeps_tasks [of "fresh d1" j command "h_exec H"] that same confirmed(5) in simp)
  moreover have "cmd_action_type command = DELETE_REMINDER \<and> cmd_resource_id command = Some k \<or>
      cmd_action_type command = DELETE_TASK \<and> cmd_resource_id command = Some (r_task_id q)"
    if "reminder_get k d = Some q \<and> reminder_get k d' = None"
    by (rule ccontr) (use dispatch_keeps_reminders [of "fresh d1" k q command "h_exec H"] that same confirmed(1,5) in simp)
  ultimately show ?thesis using confirmed(4) by blast
next
  case (executed d1 command)
  have same: "task_get j d1 = task_get j d" "reminder_get k d1 = reminder_get k d"
    using executed(2,3) by (simp_all add: task_get_def reminder_get_def)
  have "cmd_action_type command \<noteq> DELETE_TASK" "cmd_action_type command \<noteq> DELETE_REMINDER"
    using executed(4) by (auto simp: destructive_actions_def)
  then show ?thesis
    using dispatch_keeps_tasks [of "fresh d1" j command "h_exec H"] dispatch_keeps_reminders [of "fresh d1" k q command "h_exec H"]
      executed same by auto
qed

text \<open>A chat changes tasks and reminders only with authority: either the actor is authorized (single-user mode,
  or the configured default user) or the user's own pending confirmation was confirmed by this message;
  and only an authorized actor gets a new confirmation stored, in the actor's name and PENDING.\<close>

lemma chat_authority:
  assumes "db_integrity d" and "agent_chat H msg user d = (r, d')"
  shows "((tasks d', reminders d') \<noteq> (tasks d, reminders d) \<longrightarrow> may_act H user \<or> (\<exists>command. confirmed_now H user d d' command)) \<and>
    (confirmation_get i d = None \<and> confirmation_get i d' = Some c \<longrightarrow>
      may_act H user \<and> c_user_id c = user \<and> c_status c = ''PENDING'')"
  using assms by (cases rule: chat_cases) auto

text \<open>The two messages of a deletion.\<close>

lemma cleanup_commits:
  assumes "\<And>d. commit_exn E d = None"
  shows "\<exists>n. cleanup_expired E now (fresh d) = (Inr n, fresh (snd (mark_expired now d)))"
  using assms mark_expired_none [of now d]
  by (cases "mark_expired now d") (auto simp: cleanup_expired_def commit_or_rollback_cases fresh_def)

lemma propose_deletion:
  assumes "\<And>d. commit_exn (x_db (h_exec H)) d = None" and "may_act H user"
    and "interpret_message (h_llm H) msg = Inr resp" and "ar_response_type resp = ACTION_PROPOSED"
    and "ar_proposal resp = Some p" and "ap_action_type p = DELETE_TASK"
    and "ap_resource p = Some \<lparr>ref_id = Some j, ref_natural_language = None\<rparr>"
    and "wall_ok (h_now_create H + h_ttl_seconds H * 1000000)" and "confirmation_get (h_new_confirmation_id H) d = None"
  defines "command \<equiv> \<lparr>cmd_action_type = DELETE_TASK, cmd_resource_id = Some j, cmd_parameters = ap_parameters p\<rparr>"
  defines "c \<equiv> new_confirmation (x_db (h_exec H)) (h_json H) (h_new_confirmation_id H) (h_now_create H) user command
      (utc (h_now_create H + h_ttl_seconds H * 1000000))"
  shows "\<exists>r. agent_chat H msg user d = (r, confirmation_insert c (snd (mark_expired (h_now_cleanup H) d))) \<and>
    ch_status r = AC_CONFIRMATION_REQUIRED \<and> ch_confirmation_id r = Some (h_new_confirmation_id H)"
proof -
  let ?d0 = "snd (mark_expired (h_now_cleanup H) d)" and ?E = "x_db (h_exec H)"
  obtain n where clean: "cleanup_expired ?E (h_now_cleanup H) (fresh d) = (Inr n, fresh ?d0)"
    using cleanup_commits [of ?E] assms(1) by blast
  have valid: "validate_proposal (h_texts H) p = Inr valid_result"
    using assms(6,7) by (simp add: validate_proposal_def no_resource_actions_def has_usable_reference_def update_actions_def)
  let ?act = "\<lparr>va_action_type = DELETE_TASK, va_resource_id = Some j, va_parameters = ap_parameters p\<rparr>"
  have res: "resolve_proposal ?E p ?d0 = resolved p (Some j)" "rr_action (resolved p (Some j)) = Some ?act"
    using assms(6,7) by (simp_all add: resolve_proposal_def resolved_def)
  have "az_status (authorize (h_auth H) user) = AS_AUTHORIZED"
    unfolding authorize_authorized using assms(2) by (cases user) (auto simp: may_act_def)
  then have dec: "dr_status (decide (h_auth H) ?act user) = DS_CONFIRMATION_REQUIRED" "dr_action (decide (h_auth H) ?act user) = ?act"
    using decide_status [of "h_auth H" ?act user] by (simp_all add: destructive_actions_def)
  have fresh_id: "confirmation_get (c_id c) ?d0 = None" using assms(9) by (simp add: get_mark_expired c_def new_confirmation_def)
  have cid: "c_id c = h_new_confirmation_id H" by (simp add: c_def new_confirmation_def)
  have cmd: "command_from_decision (decide (h_auth H) ?act user) = command"
    by (simp add: command_from_decision_def dec command_def)
  have create: "create_confirmation ?E (h_json H) (h_new_confirmation_id H) (h_now_create H) user command (h_ttl_seconds H) (fresh ?d0)
      = (Inr c, fresh (confirmation_insert c ?d0))"
  proof -
    have "shift (utc (h_now_create H)) (h_ttl_seconds H * 1000000) = Inr (utc (h_now_create H + h_ttl_seconds H * 1000000))"
      using assms(8) by (simp add: shift_def utc_def)
    moreover have "confirmation_repo_create c ?d0 = Inr (c, confirmation_insert c ?d0)"
      using fresh_id by (simp add: confirmation_repo_create_def)
    ultimately show ?thesis
      using transact_commits [of "confirmation_repo_create c" "fresh ?d0" c "confirmation_insert c ?d0" ?E] assms(1)
      by (simp add: create_confirmation_def c_def [symmetric] fresh_def)
  qed
  have handled: "handle_proposal H msg user p (fresh ?d0) = branch_on_decision H msg user (decide (h_auth H) ?act user) (fresh ?d0)"
    using valid res by (simp add: handle_proposal_def)
  obtain r where r: "handle_proposal H msg user p (fresh ?d0) = (Inr r, fresh (confirmation_insert c ?d0))"
    "ch_status r = AC_CONFIRMATION_REQUIRED" "ch_confirmation_id r = Some (h_new_confirmation_id H)"
    unfolding handled using dec create cid by (simp add: branch_on_decision_def cmd)
  have "process H msg user (fresh d) = (Inr r, fresh (confirmation_insert c ?d0))"
    using clean assms(3-5) r(1) by (simp add: process_def)
  then show ?thesis using r by (simp add: agent_chat_def fresh_def)
qed

lemma confirm_deletion:
  assumes "\<And>d. commit_exn (x_db (h_exec H)) d = None" and "db_integrity d"
    and "interpret_message (h_llm H) msg = Inr resp" and "ar_response_type resp = CONFIRMATION"
    and "ar_confirmation_id resp = Some i" and "confirmation_get i d = Some c" and "c_user_id c = user"
    and "c_status c = ''PENDING''" and "h_now_cleanup H \<le> instant (c_expires_at c)" and "h_now_confirm H < instant (c_expires_at c)"
    and "load_command (h_json H) (c_execution_command c) = Inr \<lparr>cmd_action_type = DELETE_TASK, cmd_resource_id = Some j, cmd_parameters = ps\<rparr>"
    and "task_get j d \<noteq> None"
  shows "\<exists>r d'. agent_chat H msg user d = (r, d') \<and> ch_status r = AC_EXECUTED \<and>
    tasks d' = filter (\<lambda>t. t_id t \<noteq> j) (tasks d) \<and> reminders d' = filter (\<lambda>r. r_task_id r \<noteq> j) (reminders d) \<and>
    confirmation_get i d' = Some (c\<lparr>c_status := ''CONFIRMED''\<rparr>)"
proof -
  let ?d0 = "snd (mark_expired (h_now_cleanup H) d)" and ?E = "x_db (h_exec H)"
  let ?d1 = "confirm_rows (h_now_confirm H) i user ?d0"
  let ?command = "\<lparr>cmd_action_type = DELETE_TASK, cmd_resource_id = Some j, cmd_parameters = ps\<rparr>"
  obtain n where clean0: "cleanup_expired ?E (h_now_cleanup H) (fresh d) = (Inr n, fresh ?d0)"
    using cleanup_commits [of ?E] assms(1) by blast
  have row: "confirmation_get i ?d0 = Some c" using assms(6,9) by (simp add: get_mark_expired confirmation_overdue_def)
  have verdict: "confirm_verdict (h_now_confirm H) user (Some c) = CO_CONFIRMED" using assms(7,8,10) by simp
  have settled: "settle CO_CONFIRMED c = c\<lparr>c_status := ''CONFIRMED''\<rparr>" using assms(8) by (simp add: settle_def)
  have conf: "confirm ?E (h_now_confirm H) i user (fresh ?d0) =
      (Inr \<lparr>cr_outcome = CO_CONFIRMED, cr_confirmation = Some (c\<lparr>c_status := ''CONFIRMED''\<rparr>)\<rparr>, fresh ?d1)"
    using confirm_commits [of "fresh ?d0" ?E "h_now_confirm H" i user] assms(1,2) integrity_mark_expired row verdict settled
    by (simp add: Let_def fresh_def [symmetric] del: confirm_verdict.simps)
  have get1: "confirmation_get i ?d1 = Some (c\<lparr>c_status := ''CONFIRMED''\<rparr>)"
    using row verdict settled by (simp add: confirm_rows_get del: confirm_verdict.simps)
  have exists: "task_get j ?d1 \<noteq> None" using assms(12) by (simp add: task_get_def)
  have disp: "dispatch (h_exec H) ?command (fresh ?d1) = (Inr NoEntity, fresh (task_erase j ?d1))"
    using transact_commits [of "delete_task j" "fresh ?d1" "()" "task_erase j ?d1" ?E] exists assms(1)
    by (simp add: dispatch_def with_target_def as_entity_def module_delete_task_def delete_task_Inr fresh_def)
  have "handle_confirmation H msg user (Some i) (fresh ?d0) = run_command H (decision_for ?command) ?command msg (Some i) (fresh ?d1)"
    using conf assms(11) by (simp add: handle_confirmation_def confirm_and_run_def)
  then obtain r where r: "handle_confirmation H msg user (Some i) (fresh ?d0) = (Inr r, fresh (task_erase j ?d1))" "ch_status r = AC_EXECUTED"
    using disp by (simp add: run_command_def execute_def decision_for_def executed_def bare_result_def response_message_def agent_status_for_def)
  have "process H msg user (fresh d) = (Inr r, fresh (task_erase j ?d1))"
    using clean0 assms(3-5) r(1) by (simp add: process_def)
  then have "agent_chat H msg user d = (r, task_erase j ?d1)" by (simp add: agent_chat_def fresh_def)
  moreover have "confirmation_get i (task_erase j ?d1) = confirmation_get i ?d1" by (simp add: confirmation_get_def task_erase_def)
  ultimately show ?thesis using r(2) get1 by (simp add: task_erase_def remove_row_def)
qed

definition sample_output :: "interpretation_type \<Rightarrow> action_type option \<Rightarrow> uuid \<Rightarrow> interpretation_output" where
  "sample_output ty act i = \<lparr>io_response_type = ty, io_action_type = act, io_resource_id = Some (uuid_str i),
     io_resource_description = None, io_parameters = [], io_message = ''ok''\<rparr>"

definition sample_chat :: "interpretation_output \<Rightarrow> chat_env" where
  \<comment> \<open>a single user, commits that succeed, a codec that knows the deletion of task 1\<close>
  "sample_chat out = \<lparr>h_exec = production_env pg_env (\<lambda>_. 100) 9 480, h_auth = \<lparr>default_user_id = [], single_user_mode = True\<rparr>,
     h_ttl_seconds = 300, h_json = \<lparr>dump_command = (\<lambda>_. ''delete 1''),
       load_command = (\<lambda>_. Inr \<lparr>cmd_action_type = DELETE_TASK, cmd_resource_id = Some 1, cmd_parameters = []\<rparr>)\<rparr>,
     h_texts = sample_texts, h_llm = (\<lambda>_. Inr out), h_response_llm = (\<lambda>_ _. Inr []), h_new_confirmation_id = 3,
     h_now_cleanup = 100, h_now_confirm = 100, h_now_create = 100\<rparr>"

lemma sample_chat_commits: "commit_exn (x_db (h_exec (sample_chat out))) d = None"
  by (simp add: sample_chat_def production_env_def)

lemma sample_chat_interprets: "interpret_message (h_llm (sample_chat out)) ''go'' = Inr (to_agent_response out)"
  by (simp add: interpret_message_def sample_chat_def pylen_def)

text \<open>C5: A deletion by chat takes two messages: the first, a proposal with the task's identifier by an actor who may
  act, deletes nothing and stores the command; the second, the confirmation with the reference in time,
  deletes exactly that task with its reminders and answers EXECUTED. The only assumption on the JSON
  codec is that this one command reads back as it was written.\<close>

theorem deletion_takes_two_messages:
  assumes "db_integrity d" and "task_get j d \<noteq> None"
    and "\<And>x. commit_exn (x_db (h_exec H)) x = None" and "\<And>x. commit_exn (x_db (h_exec H')) x = None"
    and "may_act H user" and "wall_ok (h_now_create H + h_ttl_seconds H * 1000000)"
    and "confirmation_get (h_new_confirmation_id H) d = None"
    and "interpret_message (h_llm H) msg = Inr \<lparr>ar_response_type = ACTION_PROPOSED, ar_message = text,
        ar_proposal = Some \<lparr>ap_action_type = DELETE_TASK, ap_resource = Some \<lparr>ref_id = Some j, ref_natural_language = None\<rparr>,
          ap_parameters = ps, ap_status = PS_PROPOSED\<rparr>, ar_confirmation_id = None\<rparr>"
    and "interpret_message (h_llm H') msg' = Inr \<lparr>ar_response_type = CONFIRMATION, ar_message = text',
        ar_proposal = None, ar_confirmation_id = Some (h_new_confirmation_id H)\<rparr>"
    and "load_command (h_json H') (dump_command (h_json H) \<lparr>cmd_action_type = DELETE_TASK, cmd_resource_id = Some j, cmd_parameters = ps\<rparr>)
        = Inr \<lparr>cmd_action_type = DELETE_TASK, cmd_resource_id = Some j, cmd_parameters = ps\<rparr>"
    and "h_now_cleanup H' \<le> h_now_create H + h_ttl_seconds H * 1000000" and "h_now_confirm H' < h_now_create H + h_ttl_seconds H * 1000000"
  shows "\<exists>r1 d1 r2 d2. agent_chat H msg user d = (r1, d1) \<and> ch_status r1 = AC_CONFIRMATION_REQUIRED \<and>
    ch_confirmation_id r1 = Some (h_new_confirmation_id H) \<and> tasks d1 = tasks d \<and> reminders d1 = reminders d \<and>
    agent_chat H' msg' user d1 = (r2, d2) \<and> ch_status r2 = AC_EXECUTED \<and>
    tasks d2 = filter (\<lambda>t. t_id t \<noteq> j) (tasks d) \<and> reminders d2 = filter (\<lambda>r. r_task_id r \<noteq> j) (reminders d)"
proof -
  let ?command = "\<lparr>cmd_action_type = DELETE_TASK, cmd_resource_id = Some j, cmd_parameters = ps\<rparr>"
  let ?E = "x_db (h_exec H)"
  let ?p = "\<lparr>ap_action_type = DELETE_TASK, ap_resource = Some \<lparr>ref_id = Some j, ref_natural_language = None\<rparr>,
          ap_parameters = ps, ap_status = PS_PROPOSED\<rparr>"
  define c where "c = new_confirmation ?E (h_json H) (h_new_confirmation_id H) (h_now_create H) user ?command
      (utc (h_now_create H + h_ttl_seconds H * 1000000))"
  define d1 where "d1 = confirmation_insert c (snd (mark_expired (h_now_cleanup H) d))"
  obtain r1 where r1: "agent_chat H msg user d = (r1, d1)" "ch_status r1 = AC_CONFIRMATION_REQUIRED"
    "ch_confirmation_id r1 = Some (h_new_confirmation_id H)"
    using propose_deletion [OF assms(3,5,8), of ?p j d] assms(6,7) by (auto simp: c_def d1_def)
  have c: "c_id c = h_new_confirmation_id H" "c_user_id c = user" "c_status c = ''PENDING''"
    "instant (c_expires_at c) = h_now_create H + h_ttl_seconds H * 1000000"
    "c_execution_command c = dump_command (h_json H) ?command"
    by (simp_all add: c_def new_confirmation_def)
  have absent: "confirmation_get (c_id c) (snd (mark_expired (h_now_cleanup H) d)) = None"
    using assms(7) c(1) by (simp add: get_mark_expired)
  have frame: "tasks d1 = tasks d" "reminders d1 = reminders d" by (simp_all add: d1_def confirmation_insert_def)
  have ok: "db_integrity d1"
    unfolding d1_def using absent c(3) rangeI [of conf_status_value CS_PENDING] integrity_mark_expired [OF assms(1)]
    by (intro integrity_confirmation_insert) simp_all
  have row: "confirmation_get (h_new_confirmation_id H) d1 = Some c"
    unfolding d1_def using confirmation_table.get_ins [OF absent, of "h_new_confirmation_id H"] c(1) by simp
  have task: "task_get j d1 \<noteq> None" using assms(2) frame by (simp add: task_get_def)
  obtain r2 d2 where "agent_chat H' msg' user d1 = (r2, d2)" "ch_status r2 = AC_EXECUTED"
    "tasks d2 = filter (\<lambda>t. t_id t \<noteq> j) (tasks d1)" "reminders d2 = filter (\<lambda>r. r_task_id r \<noteq> j) (reminders d1)"
    using confirm_deletion [OF assms(4) ok assms(9) _ _ row c(2,3) _ _ _ task] assms(10-12) c(4,5) by auto
  with r1 frame show ?thesis by auto
qed

lemma deletion_takes_two_messages_witness:
  "\<exists>r1 d1 r2 d2. agent_chat (sample_chat (sample_output IR_ACTION_PROPOSED (Some DELETE_TASK) 1)) ''go'' None sample_db = (r1, d1) \<and>
     tasks d1 = tasks sample_db \<and> agent_chat (sample_chat (sample_output IR_CONFIRMATION None 3)) ''go'' None d1 = (r2, d2) \<and>
     ch_status r2 = AC_EXECUTED \<and> tasks d2 = []"
proof -
  let ?H = "sample_chat (sample_output IR_ACTION_PROPOSED (Some DELETE_TASK) 1)" and ?H' = "sample_chat (sample_output IR_CONFIRMATION None 3)"
  have p: "interpret_message (h_llm ?H) ''go'' = Inr \<lparr>ar_response_type = ACTION_PROPOSED, ar_message = ''ok'',
        ar_proposal = Some \<lparr>ap_action_type = DELETE_TASK, ap_resource = Some \<lparr>ref_id = Some 1, ref_natural_language = None\<rparr>,
          ap_parameters = [], ap_status = PS_PROPOSED\<rparr>, ar_confirmation_id = None\<rparr>"
    by (simp add: sample_chat_interprets to_agent_response_def interpret_action_def propose_def untargeted_actions_def
        build_resource_reference_def sample_output_def uuid_of_str)
  have "h_new_confirmation_id ?H = 3" by (simp add: sample_chat_def)
  then have q: "interpret_message (h_llm ?H') ''go'' = Inr \<lparr>ar_response_type = CONFIRMATION, ar_message = ''ok'',
        ar_proposal = None, ar_confirmation_id = Some (h_new_confirmation_id ?H)\<rparr>"
    by (simp add: sample_chat_interprets to_agent_response_def interpret_confirmation_def plain_response_def sample_output_def uuid_of_str)
  have "\<exists>r1 d1 r2 d2. agent_chat ?H ''go'' None sample_db = (r1, d1) \<and> ch_status r1 = AC_CONFIRMATION_REQUIRED \<and>
    ch_confirmation_id r1 = Some (h_new_confirmation_id ?H) \<and> tasks d1 = tasks sample_db \<and> reminders d1 = reminders sample_db \<and>
    agent_chat ?H' ''go'' None d1 = (r2, d2) \<and> ch_status r2 = AC_EXECUTED \<and>
    tasks d2 = filter (\<lambda>t. t_id t \<noteq> 1) (tasks sample_db) \<and> reminders d2 = filter (\<lambda>r. r_task_id r \<noteq> 1) (reminders sample_db)"
    by (rule deletion_takes_two_messages [OF integrity_sample_db _ sample_chat_commits sample_chat_commits _ _ _ p q])
      (simp_all add: may_act_def sample_chat_def task_get_def confirmation_get_def sample_simps wall_ok_def MAX_ORD_def DAY_US_def)
  then show ?thesis by (auto simp: sample_simps)
qed

lemma sample_deletion:
  "\<exists>r d'. agent_chat (sample_chat (sample_output IR_CONFIRMATION None 3)) ''go'' None
      (sample_db\<lparr>confirmations := [sample_confirmation 3 None ''delete 1'' 1000]\<rparr>) = (r, d') \<and> tasks d' = []"
proof -
  let ?H = "sample_chat (sample_output IR_CONFIRMATION None 3)" and ?c = "sample_confirmation 3 None ''delete 1'' 1000"
  let ?d = "sample_db\<lparr>confirmations := [?c]\<rparr>"
  have "db_integrity ?d" using rangeI [of conf_status_value CS_PENDING] by (simp add: db_integrity_def sample_simps)
  moreover have "interpret_message (h_llm ?H) ''go'' = Inr \<lparr>ar_response_type = CONFIRMATION, ar_message = ''ok'',
        ar_proposal = None, ar_confirmation_id = Some 3\<rparr>"
    by (simp add: sample_chat_interprets to_agent_response_def interpret_confirmation_def plain_response_def sample_output_def uuid_of_str)
  ultimately have "\<exists>r d'. agent_chat ?H ''go'' None ?d = (r, d') \<and> ch_status r = AC_EXECUTED \<and>
    tasks d' = filter (\<lambda>t. t_id t \<noteq> 1) (tasks ?d) \<and> reminders d' = filter (\<lambda>r. r_task_id r \<noteq> 1) (reminders ?d) \<and>
    confirmation_get 3 d' = Some (?c\<lparr>c_status := ''CONFIRMED''\<rparr>)"
    by (rule confirm_deletion [OF sample_chat_commits, where ps = "[]"])
      (simp_all add: confirmation_get_def task_get_def sample_simps sample_chat_def)
  then show ?thesis by (auto simp: sample_simps)
qed

lemma integrity_sample_deletion: "db_integrity (sample_db\<lparr>confirmations := [sample_confirmation 3 None ''delete 1'' 1000]\<rparr>)"
  using rangeI [of conf_status_value CS_PENDING] by (simp add: db_integrity_def sample_simps)

lemma chat_deletes_only_what_was_confirmed_witness:
  "\<exists>d' command. confirmed_now (sample_chat (sample_output IR_CONFIRMATION None 3)) None
     (sample_db\<lparr>confirmations := [sample_confirmation 3 None ''delete 1'' 1000]\<rparr>) d' command \<and>
     cmd_action_type command = DELETE_TASK \<and> cmd_resource_id command = Some 1"
proof -
  let ?H = "sample_chat (sample_output IR_CONFIRMATION None 3)" and ?d = "sample_db\<lparr>confirmations := [sample_confirmation 3 None ''delete 1'' 1000]\<rparr>"
  obtain r d' where c: "agent_chat ?H ''go'' None ?d = (r, d')" "tasks d' = []" using sample_deletion by blast
  have "task_get 1 ?d \<noteq> None" "task_get 1 d' = None" using c(2) by (simp_all add: task_get_def sample_simps)
  with chat_deletes_only_what_was_confirmed [OF integrity_sample_deletion c(1)] show ?thesis by blast
qed

text \<open>The chat can store what the analysis cannot read: a task created by a command whose priority is a text
  outside the enum is stored with it, and from then on every analysis over rows that include it fails.\<close>

lemma agent_priority_breaks_analysis:
  assumes "binds_plain (x_db X)" and "cmd_action_type c = CREATE_TASK"
    and "map_of (cmd_parameters c) ''priority'' = Some (PStr p)" and "plain_text p" and "p \<notin> range priority_value"
    and "dispatch X c s = (Inr (TaskEntity t), s')"
  shows "t_priority t = p \<and> t \<in> set (tasks (committed s')) \<and> (t \<in> set ts \<longrightarrow> (\<exists>e. analyze b (map OrmTask ts) bo = Inl e))"
proof -
  obtain name desc dl du where m: "module_create_task (x_db X) (x_clock X) (x_new_id X) name desc dl (PStr p) du s = (Inr t, s')"
    using assms(2,3,6) by (auto simp: dispatch_def Let_def with_value_def raises_def as_entity_def split: sum.splits prod.splits)
  obtain d where d: "create_task (x_db X) (x_clock X) (x_new_id X) name desc dl (PStr p) du (working s) = Inr (t, d)"
    and s': "s' = \<lparr>committed = d, working = d\<rparr>"
    using transact_Inr [OF m [unfolded module_create_task_def]] by blast
  have t: "bind_new_task (x_db X) (x_new_id X) \<lparr>n_name = name, n_description = desc, n_deadline = dl, n_priority = PStr p,
        n_status = PStr (status_value TS_TODO), n_duration = du\<rparr> (x_clock X 1) (x_clock X 2) = Inr t" "d = task_insert t (working s)"
    using d unfolding create_task_Inr by blast+
  have st: "t_priority t = p" "t_status t = ''TODO''"
    using t(1) binds_plainD(6) [OF assms(1)] assms(4) plain_values(2) [of TS_TODO]
    by (auto simp: bind_new_task_def then_do_eq_Inr)
  have "\<exists>e. analyze b (map OrmTask ts) bo = Inl e" if "t \<in> set ts"
  proof -
    have "\<not> list_all (\<lambda>t. t_priority t \<in> range priority_value) (active_tasks ts)"
      using that st assms(5) by (auto simp: list_all_iff active_tasks_def)
    then obtain e where "map_res to_summary (map OrmTask (active_tasks ts)) = Inl e" using active_summaries_fail by blast
    then show ?thesis by (simp add: analyze_def filter_active_orm Let_def)
  qed
  then show ?thesis using st s' t(2) by (simp add: task_insert_def)
qed

lemma agent_priority_breaks_analysis_witness:
  "\<exists>t s'. dispatch (production_env pg_env (\<lambda>_. 100) 9 480) \<lparr>cmd_action_type = CREATE_TASK, cmd_resource_id = None,
      cmd_parameters = [(''taskName'', PStr ''Plan''), (''deadline'', PDatetime (Aware (utc 900))), (''priority'', PStr ''URGENT'')]\<rparr> sample_session
       = (Inr (TaskEntity t), s') \<and> (\<exists>e. analyze 480 (map OrmTask [sample_task 1 1000, t]) None = Inl e)"
proof -
  let ?X = "production_env pg_env (\<lambda>_. 100) 9 480"
  let ?c = "\<lparr>cmd_action_type = CREATE_TASK, cmd_resource_id = None,
      cmd_parameters = [(''taskName'', PStr ''Plan''), (''deadline'', PDatetime (Aware (utc 900))), (''priority'', PStr ''URGENT'')]\<rparr>"
  obtain t s' where d: "dispatch ?X ?c sample_session = (Inr (TaskEntity t), s')"
    by (simp add: dispatch_def Let_def with_value_def as_entity_def production_env_def dict_item_def dict_get_def to_datetime_def
        require_aware_utc_def astimezone_utc_def wall_ok_def MAX_ORD_def DAY_US_def module_create_task_def transact_def create_task_def
        task_repo_create_def bind_new_task_def plain_text_def pylen_def sample_simps task_get_def commit_def)
  have "binds_plain (x_db ?X)" by (simp add: production_env_def binds_plain_pg_env)
  moreover have "''URGENT'' \<notin> range priority_value"
  proof
    assume "''URGENT'' \<in> range priority_value"
    then obtain k where "''URGENT'' = priority_value k" by blast
    then show False by (cases k) simp_all
  qed
  ultimately have "t_priority t = ''URGENT'' \<and> t \<in> set (tasks (committed s')) \<and>
      (t \<in> set [sample_task 1 1000, t] \<longrightarrow> (\<exists>e. analyze 480 (map OrmTask [sample_task 1 1000, t]) None = Inl e))"
    by (intro agent_priority_breaks_analysis [OF _ _ _ _ _ d]) (simp_all add: plain_text_def)
  then show ?thesis using d by simp
qed

text \<open>C16: Nothing happens behind the user's back: when the answer of a chat is anything but EXECUTED, also when it is
  ERROR after an exception anywhere in the pipeline, no task and no reminder changed.\<close>

theorem only_executed_changes_rows:
  assumes "db_integrity d" and "agent_chat H msg user d = (r, d')" and "ch_status r \<noteq> AC_EXECUTED"
  shows "tasks d' = tasks d \<and> reminders d' = reminders d"
proof -
  obtain res s0 where c: "cleanup_expired (x_db (h_exec H)) (h_now_cleanup H) (fresh d) = (res, s0)" by fastforce
  have s0: "s0 = fresh (committed s0)" "committed s0 \<in> {d, snd (mark_expired (h_now_cleanup H) d)}"
    using cleanup_committed [of "fresh d" "x_db (h_exec H)" "h_now_cleanup H"] c clean_fresh by auto
  have kept: "rows_kept d (committed s0)" and ok: "db_integrity (committed s0)"
    using s0(2) assms(1) integrity_mark_expired by (auto simp: rows_kept_def)
  let ?p = "process H msg user (fresh d)"
  have un: "unanswered ?p" and d': "d' = committed (snd ?p)"
    using assms(2,3) by (auto simp: agent_chat_def fresh_def unanswered_def split: prod.splits sum.splits)
  have "(\<exists>reference. ?p = handle_confirmation H msg user reference s0) \<or> (\<exists>p. ?p = handle_proposal H msg user p s0) \<or> snd ?p = s0"
    using c by (auto simp: process_def split: sum.splits option.splits)
  then consider (confirming) reference where "?p = handle_confirmation H msg user reference s0"
    | (proposed) p where "?p = handle_proposal H msg user p s0" | (same) "snd ?p = s0" by blast
  then have "rows_kept (committed s0) d'"
  proof cases
    case confirming
    then show ?thesis using handle_confirmation_silent [OF ok] un d' s0(1) by metis
  next
    case proposed
    then show ?thesis using handle_proposal_silent un d' s0(1) by metis
  next
    case same
    then show ?thesis using d' by simp
  qed
  then show ?thesis using kept rows_kept_trans by (auto simp: rows_kept_def)
qed

lemma sample_conversation:
  "agent_chat (sample_chat (sample_output IR_CONVERSATION None 3)) ''go'' None sample_db = (plain_chat AC_CONVERSATION ''ok'', sample_db)"
proof -
  let ?H = "sample_chat (sample_output IR_CONVERSATION None 3)"
  have "interpret_message (h_llm ?H) ''go'' = Inr (plain_response CONVERSATION ''ok'')"
    by (simp add: sample_chat_interprets to_agent_response_def sample_output_def)
  moreover have "cleanup_expired (x_db (h_exec ?H)) (h_now_cleanup ?H) (fresh sample_db) = (Inr 0, fresh sample_db)"
    by (simp add: cleanup_expired_def mark_expired_def sample_simps fresh_def)
  ultimately have "process ?H ''go'' None (fresh sample_db) = (Inr (plain_chat AC_CONVERSATION ''ok''), fresh sample_db)"
    by (simp add: process_def plain_response_def interpreter_status_map_def)
  then show ?thesis by (simp add: agent_chat_def fresh_def)
qed

lemma only_executed_changes_rows_witness:
  "tasks (snd (agent_chat (sample_chat (sample_output IR_CONVERSATION None 3)) ''go'' None sample_db)) = tasks sample_db"
  using only_executed_changes_rows [OF integrity_sample_db sample_conversation] by (simp add: sample_conversation plain_chat_def)

text \<open>C3: Every chat is one abstract step: after the housekeeping of expired confirmations, the effect on the stored
  rows is one of: nothing; a destructive command stored for an authorized actor; a confirmation settled;
  an own pending confirmation settled and its stored command dispatched; or one command that is not
  destructive dispatched for an authorized actor.\<close>

theorem chat_refines_abstract_step:
  assumes "db_integrity d"
  shows "\<exists>d0 \<in> after_cleanup H d. chat_effect H user d0 (snd (agent_chat H msg user d))"
  using assms by (rule agent_chat_effect)

lemma chat_refines_abstract_step_witness:
  "\<exists>d0 \<in> after_cleanup (sample_chat (sample_output IR_CONVERSATION None 3)) sample_db.
     chat_effect (sample_chat (sample_output IR_CONVERSATION None 3)) None d0 sample_db"
  using chat_refines_abstract_step [OF integrity_sample_db, of "sample_chat (sample_output IR_CONVERSATION None 3)" None "''go''"]
  by (simp add: sample_conversation)

end
