(* ===== verification/StructuredGeneration.thy ===== *)
theory StructuredGeneration
  imports ResponseGenerator
begin

text \<open>
  \<^verbatim>\<open>adapters/structured_generation.py\<close> and \<^verbatim>\<open>schemas/agent_response_generation.py\<close>: one call of
  the model service, its answer taken apart and validated. The call (\<open>call\<close>, of a package outside
  the repository) and pydantic's reading of the answer (\<open>validate\<close>) are arguments; every exception of
  either comes out as \<open>LLMGenerationError\<close>.
\<close>

datatype json = JNull | JBool bool | JNumber int | JString string | JArray "json list" | JObject "(string \<times> json) list"

definition json_item :: "string \<Rightarrow> json \<Rightarrow> exn + json" where
  \<comment> \<open>v[key]\<close>
  "json_item k v = (case v of
     JObject kvs \<Rightarrow> (case map_of kvs k of None \<Rightarrow> Inl (KeyError k) | Some x \<Rightarrow> Inr x)
   | _ \<Rightarrow> Inl (TypeError ''indices must be integers or slices, not str''))"

definition json_first :: "json \<Rightarrow> exn + json" where
  \<comment> \<open>v[0]; of a text it is a text again, which the next access refuses\<close>
  "json_first v = (case v of
     JArray xs \<Rightarrow> (if xs = [] then Inl (IndexError ''list index out of range'') else Inr (hd xs))
   | JString s \<Rightarrow> (if s = [] then Inl (IndexError ''string index out of range'') else Inr (JString (take 1 s)))
   | JObject kvs \<Rightarrow> Inl (KeyError ''0'')
   | _ \<Rightarrow> Inl (TypeError ''object is not subscriptable''))"

definition raw_text :: "json \<Rightarrow> exn + json" where
  "raw_text response =
     then_do (json_item ''output'' response) (\<lambda>x. then_do (json_item ''message'' x) (\<lambda>x.
     then_do (json_item ''content'' x) (\<lambda>x. then_do (json_first x) (json_item ''text''))))"

type_synonym model_call = "string \<Rightarrow> string \<Rightarrow> exn + json"

definition generate :: "texts \<Rightarrow> model_call \<Rightarrow> (json \<Rightarrow> exn + 'a) \<Rightarrow> string \<Rightarrow> string \<Rightarrow> exn + 'a" where
  "generate T call validate system_prompt user_prompt =
     (case then_do (call system_prompt user_prompt) (\<lambda>response. then_do (raw_text response) validate) of
        Inr x \<Rightarrow> Inr x
      | Inl (LLMGenerationError m) \<Rightarrow> Inl (LLMGenerationError m)
      | Inl e \<Rightarrow> Inl (LLMGenerationError (str_exn T e)))"

subsection \<open>AgentResponseOutput\<close>

definition space2 :: "(nat \<times> nat) list" where
  \<comment> \<open>the white space of \<^verbatim>\<open>str.strip\<close> that is two bytes of UTF-8: U+0085, U+00A0\<close>
  "space2 = [(0xC2, 0x85), (0xC2, 0xA0)]"

definition space3 :: "(nat \<times> nat \<times> nat) list" where
  \<comment> \<open>three bytes: U+1680, U+2000 to U+200A, U+2028, U+2029, U+202F, U+205F, U+3000\<close>
  "space3 = (0xE1, 0x9A, 0x80) # map (\<lambda>b. (0xE2, 0x80, b)) ([0x80..<0x8B] @ [0xA8, 0xA9, 0xAF])
     @ [(0xE2, 0x81, 0x9F), (0xE3, 0x80, 0x80)]"

fun blank_bytes :: "nat list \<Rightarrow> bool" where
  "blank_bytes [] = True"
| "blank_bytes (a # bs) =
     (if a = 32 \<or> (9 \<le> a \<and> a \<le> 13) \<or> (28 \<le> a \<and> a \<le> 31) then blank_bytes bs
      else (case bs of
              [] \<Rightarrow> False
            | b # cs \<Rightarrow> if (a, b) \<in> set space2 then blank_bytes cs
                       else (case cs of [] \<Rightarrow> False | c # ds \<Rightarrow> (a, b, c) \<in> set space3 \<and> blank_bytes ds)))"

definition validated_response :: "string \<Rightarrow> exn + string" where
  \<comment> \<open>the field constraints and \<^verbatim>\<open>validate_not_whitespace_only\<close>\<close>
  "validated_response v =
     (if pylen v < 1 then Inl (ValidationError ''String should have at least 1 character'')
      else if pylen v > 1000 then Inl (ValidationError ''String should have at most 1000 characters'')
      else if blank_bytes (map of_char v) then Inl (ValidationError ''response cannot be empty or whitespace-only'')
      else Inr v)"

definition bedrock_response_llm :: "texts \<Rightarrow> model_call \<Rightarrow> (json \<Rightarrow> exn + string) \<Rightarrow> response_llm" where
  \<comment> \<open>\<^verbatim>\<open>generate(output_type=AgentResponseOutput).response\<close>, where \<open>read\<close> is the reading of the JSON object\<close>
  "bedrock_response_llm T call read = generate T call (\<lambda>raw. then_do (read raw) validated_response)"

definition bedrock_llm :: "texts \<Rightarrow> model_call \<Rightarrow> (json \<Rightarrow> exn + interpretation_output) \<Rightarrow> string \<Rightarrow> llm" where
  \<comment> \<open>the interpreter's use of it, with its system prompt\<close>
  "bedrock_llm T call validate system_prompt = generate T call validate system_prompt"

lemma generate_raises_only_llm: "generate T call validate sp up = Inl e \<Longrightarrow> \<exists>m. e = LLMGenerationError m"
  by (auto simp: generate_def split: sum.splits exn.splits)

lemma generate_validated: "generate T call validate sp up = Inr x \<Longrightarrow> \<exists>raw. validate raw = Inr x"
  by (auto simp: generate_def then_do_eq_Inr split: sum.splits exn.splits)

subsection \<open>Properties\<close>

text \<open>An executed analysis always gets its words: with the model service behind the adapter, whatever it
  answers or raises, wording a result never fails; the text is the result's own message, the template, or a
  validated answer of the model, which has between 1 and 1000 characters and is not only white space.\<close>

lemma wording_never_fails:
  "\<exists>text. generate_response (bedrock_response_llm T call read) enable_llm res msg hint = Inr text \<and>
     (text = er_message res \<or> text = fallback_template res \<or>
      1 \<le> pylen text \<and> pylen text \<le> 1000 \<and> \<not> blank_bytes (map of_char text) \<and>
      er_action_type res \<in> {ANALYZE_WORKLOAD, SUGGEST_RESCHEDULING} \<and> enable_llm)"
proof (cases "generate_response (bedrock_response_llm T call read) enable_llm res msg hint")
  case (Inl e)
  from generate_response_Inl [OF Inl] obtain p where
    "bedrock_response_llm T call read p msg = Inl e" "\<forall>m. e \<noteq> LLMGenerationError m" by blast
  then show ?thesis using generate_raises_only_llm by (fastforce simp: bedrock_response_llm_def)
next
  case (Inr words)
  have "1 \<le> pylen words \<and> pylen words \<le> 1000 \<and> \<not> blank_bytes (map of_char words)"
    if "bedrock_response_llm T call read p msg = Inr words" for p
    using that by (auto simp: bedrock_response_llm_def then_do_eq_Inr validated_response_def dest!: generate_validated split: if_splits)
  then show ?thesis
    using Inr by (auto simp: generate_response_def analysis_actions_def Let_def split: if_splits sum.splits exn.splits)
qed

end
