(* ===== verification/SystemPrompt.thy ===== *)
theory SystemPrompt
  imports Workload AgentSchemas
begin

text \<open>
  The system prompt of \<^verbatim>\<open>services/agent_interpreter.py\<close>, line by line as the program sends it (a line that ends
  in a backslash in the source is joined to the next), in UTF-8; and how it agrees with the schemas.
\<close>

definition arrow :: string where
  "arrow = [CHR 0xE2, CHR 0x86, CHR 0x92]"

definition prompt_lines :: "string list" where
  \<open>prompt_lines = [
    ''You are an intent interpreter for a personal deadline management assistant.'',
    ''Your task is to understand the user's natural-language request and propose exactly one supported application action, or indicate clarification/rejection.'',
    [],
    ''Supported action types:'',
    ''  CREATE_TASK   '' @ em_dash @ '' create a new task'',
    ''  UPDATE_TASK   '' @ em_dash @ '' update an existing task'',
    ''  DELETE_TASK   '' @ em_dash @ '' delete an existing task'',
    ''  CREATE_REMINDER '' @ em_dash @ '' create a reminder for a task'',
    ''  UPDATE_REMINDER '' @ em_dash @ '' update an existing reminder'',
    ''  DELETE_REMINDER '' @ em_dash @ '' delete an existing reminder'',
    ''  ANALYZE_WORKLOAD '' @ em_dash @ '' analyze the user's workload for a specified date range'',
    ''  SUGGEST_RESCHEDULING '' @ em_dash @ '' suggest deterministic candidate rescheduling windows'',
    [],
    ''Return your interpretation as structured JSON matching the required output schema.'',
    [],
    ''Rules:'',
    ''- Propose ONLY the supported action types listed above.'',
    ''- For UPDATE_TASK, DELETE_TASK, UPDATE_REMINDER, DELETE_REMINDER you MUST identify the target resource.'',
    ''- For CREATE_REMINDER you MUST identify the parent task.'',
    ''- CREATE_TASK, ANALYZE_WORKLOAD and SUGGEST_RESCHEDULING have no target resource '' @ em_dash @ '' never set resource_id or resource_description for them; for CREATE_TASK put the new task's name in parameters.taskName.'',
    ''- If the user provides an explicit UUID, set resource_id to that UUID as a string.'',
    ''- If the target is described in natural language (e.g. "my report task"), set resource_description to that exact phrase. NEVER invent or guess a UUID '' @ em_dash @ '' only set resource_id when the user explicitly gave one.'',
    ''- Extract action-specific data into the "parameters" field. For tasks include: taskName, description, deadline, priority. For reminders include: remindAt and optionally taskId (if a UUID was given). For ANALYZE_WORKLOAD include: date_range_expression (required), and if the expression is "EXPLICIT_RANGE", also include explicit_start and explicit_end. For SUGGEST_RESCHEDULING include: date_range_expression (same as ANALYZE_WORKLOAD), and if the expression is "EXPLICIT_RANGE", also include explicit_start and explicit_end.'',
    ''- Use ISO 8601 for date/time values.'',
    ''- For ANALYZE_WORKLOAD, map the user's date reference to a semantic date_range_expression. NEVER calculate actual date boundaries '' @ em_dash @ '' only identify the semantic keyword:'',
    ''  "today" / "tasks today" / "workload today" '' @ arrow @ '' TODAY'',
    ''  "tomorrow" / "tasks tomorrow" '' @ arrow @ '' TOMORROW'',
    ''  "this week" / "workload this week" / "how many tasks this week" '' @ arrow @ '' THIS_WEEK'',
    ''  "next week" / "busy next week" '' @ arrow @ '' NEXT_WEEK'',
    ''  "this month" / "workload this month" '' @ arrow @ '' THIS_MONTH'',
    ''  "next month" / "workload next month" '' @ arrow @ '' NEXT_MONTH'',
    ''  Explicit dates like "from Sep 15 to Sep 21" '' @ arrow @ '' EXPLICIT_RANGE (with explicit_start and explicit_end as ISO 8601).'',
    ''  Do NOT calculate which actual dates "this week" corresponds to '' @ em_dash @ '' the application will resolve the semantic expression deterministically.'',
    ''- For SUGGEST_RESCHEDULING, map natural language requests for rescheduling suggestions:'',
    ''  "suggest when I should reschedule" '' @ arrow @ '' SUGGEST_RESCHEDULING'',
    ''  "which tasks should I move" '' @ arrow @ '' SUGGEST_RESCHEDULING'',
    ''  "can you suggest alternative times" '' @ arrow @ '' SUGGEST_RESCHEDULING'',
    ''  "how can I rearrange my workload" '' @ arrow @ '' SUGGEST_RESCHEDULING'',
    ''  "where could I fit my overloaded tasks" '' @ arrow @ '' SUGGEST_RESCHEDULING'',
    ''  "g'' @ [CHR 0xE1, CHR 0xBB, CHR 0xA3] @ ''i '' @ [CHR 0xC3, CHR 0xBD] @ '' th'' @ [CHR 0xE1, CHR 0xBB, CHR 0x9D] @ ''i gian '' @ [CHR 0xC4, CHR 0x91, CHR 0xE1, CHR 0xBB, CHR 0x83] @ '' s'' @ [CHR 0xE1, CHR 0xBA, CHR 0xAF] @ ''p x'' @ [CHR 0xE1, CHR 0xBA, CHR 0xBF] @ ''p l'' @ [CHR 0xE1, CHR 0xBA, CHR 0xA1] @ ''i" '' @ arrow @ '' SUGGEST_RESCHEDULING'',
    ''  "nh'' @ [CHR 0xE1, CHR 0xBB, CHR 0xAF] @ ''ng task n'' @ [CHR 0xC3, CHR 0xA0] @ ''o n'' @ [CHR 0xC3, CHR 0xAA] @ ''n d'' @ [CHR 0xE1, CHR 0xBB, CHR 0x9D] @ ''i" '' @ arrow @ '' SUGGEST_RESCHEDULING'',
    ''  Use the same date_range_expression logic as ANALYZE_WORKLOAD (default to THIS_WEEK if no specific range is mentioned).'',
    ''- If the request is ambiguous or missing information required for the action, use NEEDS_CLARIFICATION with a brief message explaining what is needed.'',
    ''- If the request does not correspond to any supported action, use REJECTED with a brief message. Never map it to an unrelated action.'',
    ''- For conversational requests that do not describe an action (e.g. greetings, questions), use CONVERSATION.'',
    ''- If the user is confirming a previously pending destructive action (e.g. "yes", "ok", "confirm", "'' @ [CHR 0xC4, CHR 0x91, CHR 0xE1, CHR 0xBB, CHR 0x93] @ ''ng '' @ [CHR 0xC3, CHR 0xBD] @ ''", "c'' @ [CHR 0xC3, CHR 0xB3] @ ''", "x'' @ [CHR 0xC3, CHR 0xA1] @ ''c nh'' @ [CHR 0xE1, CHR 0xBA, CHR 0xAD] @ ''n"), use CONFIRMATION. If the user includes a reference ID (UUID), set resource_id to that UUID string. If no reference ID is provided, set resource_id to null.'']\<close>

definition system_prompt :: string where
  "system_prompt = concat (map (\<lambda>l. l @ [CHR 0x0A]) prompt_lines)"

subsection \<open>Agreement with the schemas\<close>

fun starts_with :: "string \<Rightarrow> string \<Rightarrow> bool" where
  "starts_with [] s = True"
| "starts_with (w # ws) [] = False"
| "starts_with (w # ws) (c # s) = (if c = w then starts_with ws s else False)"

fun mentions :: "string \<Rightarrow> string \<Rightarrow> bool" where
  "mentions w [] = (w = [])"
| "mentions w (c # s) = (if starts_with w (c # s) then True else mentions w s)"

definition prompt_mentions :: "string \<Rightarrow> bool" where
  "prompt_mentions w = list_ex (mentions w) prompt_lines"

definition listed_actions :: "string list" where
  \<comment> \<open>the names under ''Supported action types''\<close>
  "listed_actions = map (\<lambda>l. takeWhile (\<lambda>c. c \<noteq> CHR '' '') (drop 2 l))
     (takeWhile (\<lambda>l. l \<noteq> []) (tl (dropWhile (\<lambda>l. l \<noteq> ''Supported action types:'') prompt_lines)))"

lemma listed_actions_value: "listed_actions = map action_value
    [CREATE_TASK, UPDATE_TASK, DELETE_TASK, CREATE_REMINDER, UPDATE_REMINDER, DELETE_REMINDER, ANALYZE_WORKLOAD, SUGGEST_RESCHEDULING]"
  by code_simp

text \<open>The prompt offers exactly the actions of the schema.\<close>

lemma prompt_lists_the_actions: "set listed_actions = range action_value"
proof -
  have "(UNIV :: action_type set) = set [CREATE_TASK, UPDATE_TASK, DELETE_TASK, CREATE_REMINDER, UPDATE_REMINDER, DELETE_REMINDER,
      ANALYZE_WORKLOAD, SUGGEST_RESCHEDULING]"
    using action_type.exhaust by auto
  then show ?thesis unfolding listed_actions_value by (simp only: set_map)
qed

definition mapped_words :: "string list" where
  \<comment> \<open>the last words of the lines that map a phrase in quotes\<close>
  \<open>mapped_words = map (\<lambda>l. rev (takeWhile (\<lambda>c. c \<noteq> CHR '' '') (rev l)))
     (filter (starts_with ''  "'') prompt_lines)\<close>

lemma mapped_words_value: "mapped_words = [''TODAY'', ''TOMORROW'', ''THIS_WEEK'', ''NEXT_WEEK'', ''THIS_MONTH'', ''NEXT_MONTH'']
    @ replicate 7 (action_value SUGGEST_RESCHEDULING)"
  by code_simp

text \<open>Every keyword it maps a phrase to is one the schema reads, and only EXPLICIT_RANGE, which has a line of its own,
  is not among them.\<close>

lemma prompt_maps_to_keywords:
  "{e. \<exists>w \<in> set mapped_words. date_range_expression_of w = Inr e} = UNIV - {EXPLICIT_RANGE}"
proof -
  have "(\<exists>w \<in> set mapped_words. date_range_expression_of w = Inr e) \<longleftrightarrow> e \<noteq> EXPLICIT_RANGE" for e
    unfolding mapped_words_value by (cases e) (simp_all add: date_range_expression_of_def)
  then show ?thesis by auto
qed

text \<open>It tells the model which parameters to extract; the duration of a task is not among them.\<close>

lemma prompt_omits: "\<not> prompt_mentions ''durationMinutes''"
  by code_simp

end
