(* ===== verification/Config.thy ===== *)
theory Config
  imports Prelude
begin

text \<open>
  \<^verbatim>\<open>config.py\<close>: the settings, their bounds, and their reading from the environment. The
  connection string built when \<^verbatim>\<open>DATABASE_URL\<close> is absent comes from another package and is an
  argument. White space and digits outside ASCII, which \<^verbatim>\<open>int\<close> also reads, are not read here.
\<close>

record settings =
  database_url :: string
  environment :: string
  bedrock_model_id :: string
  aws_default_region :: string
  pending_confirmation_ttl_seconds :: int
  scheduler_tick_seconds :: int
  scheduler_batch_size :: int
  cfg_default_user_id :: string
  cfg_single_user_mode :: bool
  daily_working_minutes :: int

definition check_settings :: "settings \<Rightarrow> exn + settings" where
  \<comment> \<open>\<^verbatim>\<open>__post_init__\<close>\<close>
  "check_settings s =
     (if scheduler_tick_seconds s < 5
      then Inl (ValueError (''scheduler_tick_seconds must be >= 5, got '' @ str_int (scheduler_tick_seconds s)))
      else if \<not> (1 \<le> scheduler_batch_size s \<and> scheduler_batch_size s \<le> 1000)
      then Inl (ValueError (''scheduler_batch_size must be between 1 and 1000, got '' @ str_int (scheduler_batch_size s)))
      else if \<not> (0 < daily_working_minutes s \<and> daily_working_minutes s \<le> 1440)
      then Inl (ValueError (''daily_working_minutes must be between 1 and 1440 (minutes in a day), got ''
             @ str_int (daily_working_minutes s)))
      else Inr s)"

subsection \<open>int(text)\<close>

definition blank :: "char \<Rightarrow> bool" where
  "blank c = (let n = (of_char c :: nat) in n = 32 \<or> (9 \<le> n \<and> n \<le> 13) \<or> (28 \<le> n \<and> n \<le> 31))"

fun dec_run :: "bool \<Rightarrow> int \<Rightarrow> string \<Rightarrow> int option" where
  \<comment> \<open>digits with single underscores between them; the flag says the last character was a digit\<close>
  "dec_run dig a [] = (if dig then Some a else None)"
| "dec_run dig a (c # cs) =
     (if c = CHR ''_'' then (if dig then dec_run False a cs else None)
      else if is_digit c then dec_run True (10 * a + digit_val c) cs else None)"

definition py_int :: "string \<Rightarrow> exn + int" where
  "py_int s =
     (let t = rev (dropWhile blank (rev (dropWhile blank s)));
          v = (if take 1 t = ''-'' then map_option uminus (dec_run False 0 (drop 1 t))
               else if take 1 t = ''+'' then dec_run False 0 (drop 1 t) else dec_run False 0 t)
      in case v of
           None \<Rightarrow> Inl (ValueError ''invalid literal for int() with base 10'')
         | Some i \<Rightarrow> if length (filter is_digit t) > 4300
                     then Inl (ValueError ''Exceeds the limit (4300 digits) for integer string conversion'') else Inr i)"

subsection \<open>load_config\<close>

type_synonym environ = "string \<Rightarrow> string option"

definition getenv :: "environ \<Rightarrow> string \<Rightarrow> string \<Rightarrow> string" where
  "getenv env key fallback = (case env key of None \<Rightarrow> fallback | Some v \<Rightarrow> v)"

definition truthy_texts :: "string list" where
  "truthy_texts = [''1'', ''true'', ''yes'', ''on'']"

definition load_config :: "(environ \<Rightarrow> exn + string) \<Rightarrow> environ \<Rightarrow> exn + settings" where
  "load_config build_connection_string env =
     then_do (case env ''DATABASE_URL'' of
                Some url \<Rightarrow> if url = [] then build_connection_string env else Inr url
              | None \<Rightarrow> build_connection_string env) (\<lambda>url.
     then_do (py_int (getenv env ''PENDING_CONFIRMATION_TTL_SECONDS'' ''300'')) (\<lambda>ttl.
     then_do (py_int (getenv env ''SCHEDULER_TICK_SECONDS'' ''60'')) (\<lambda>tick.
     then_do (py_int (getenv env ''SCHEDULER_BATCH_SIZE'' ''100'')) (\<lambda>batch.
     then_do (py_int (getenv env ''DAILY_WORKING_MINUTES'' ''480'')) (\<lambda>minutes.
       check_settings \<lparr>database_url = url, environment = getenv env ''ENVIRONMENT'' ''development'',
         bedrock_model_id = getenv env ''BEDROCK_MODEL_ID'' [], aws_default_region = getenv env ''AWS_DEFAULT_REGION'' [],
         pending_confirmation_ttl_seconds = ttl, scheduler_tick_seconds = tick, scheduler_batch_size = batch,
         cfg_default_user_id = getenv env ''DEFAULT_USER_ID'' ''00000000-0000-0000-0000-000000000001'',
         cfg_single_user_mode = map to_lower (getenv env ''SINGLE_USER_MODE'' ''false'') \<in> set truthy_texts,
         daily_working_minutes = minutes\<rparr>)))))"

lemma check_settings_Inr:
  "check_settings s = Inr t \<longleftrightarrow> t = s \<and> 5 \<le> scheduler_tick_seconds s \<and>
     1 \<le> scheduler_batch_size s \<and> scheduler_batch_size s \<le> 1000 \<and>
     0 < daily_working_minutes s \<and> daily_working_minutes s \<le> 1440"
  by (auto simp: check_settings_def)

lemma load_config_Inr:
  "load_config f env = Inr s \<Longrightarrow> check_settings s = Inr s \<and> (\<forall>url. env ''DATABASE_URL'' = Some url \<and> url \<noteq> [] \<longrightarrow> database_url s = url)"
  by (auto simp: load_config_def then_do_eq_Inr check_settings_Inr)

lemma load_config_single_user:
  assumes "load_config build env = Inr s"
  shows "cfg_single_user_mode s \<longleftrightarrow> (\<exists>v. env ''SINGLE_USER_MODE'' = Some v \<and> map to_lower v \<in> {''1'', ''true'', ''yes'', ''on''})"
proof -
  have "cfg_single_user_mode s \<longleftrightarrow> map to_lower (getenv env ''SINGLE_USER_MODE'' ''false'') \<in> set truthy_texts"
    using assms by (auto simp: load_config_def then_do_eq_Inr check_settings_Inr)
  moreover have "map to_lower ''false'' \<notin> set truthy_texts" by code_simp
  ultimately show ?thesis
    by (cases "env ''SINGLE_USER_MODE''") (auto simp: getenv_def truthy_texts_def)
qed

subsection \<open>Properties\<close>

text \<open>Settings that load are safe: whatever the environment, \<^verbatim>\<open>load_config\<close> raises or gives a tick of at least
  5 seconds, a batch of 1 to 1000 and a working day of 1 to 1440 minutes; a database address in the
  environment is used as it is; and single-user mode is on only for an explicit yes.\<close>

lemma loaded_settings_in_bounds:
  assumes "load_config build env = Inr s"
  shows "5 \<le> scheduler_tick_seconds s \<and> 1 \<le> scheduler_batch_size s \<and> scheduler_batch_size s \<le> 1000 \<and>
    1 \<le> daily_working_minutes s \<and> daily_working_minutes s \<le> 1440 \<and>
    (\<forall>url. env ''DATABASE_URL'' = Some url \<and> url \<noteq> [] \<longrightarrow> database_url s = url) \<and>
    (cfg_single_user_mode s \<longleftrightarrow> (\<exists>v. env ''SINGLE_USER_MODE'' = Some v \<and> map to_lower v \<in> {''1'', ''true'', ''yes'', ''on''}))"
  using load_config_Inr [OF assms] check_settings_Inr [of s s] load_config_single_user [OF assms] by auto

lemma loaded_settings_in_bounds_witness:
  "\<exists>s. load_config (\<lambda>_. Inr ''postgresql://db'') (map_of [(''SCHEDULER_TICK_SECONDS'', ''30''), (''SINGLE_USER_MODE'', ''Yes'')]) = Inr s \<and>
     scheduler_tick_seconds s = 30 \<and> cfg_single_user_mode s \<and> daily_working_minutes s \<le> 1440"
proof -
  let ?env = "map_of [(''SCHEDULER_TICK_SECONDS'', ''30''), (''SINGLE_USER_MODE'', ''Yes'')]"
  have i: "py_int ''300'' = Inr 300" "py_int ''30'' = Inr 30" "py_int ''100'' = Inr 100" "py_int ''480'' = Inr 480" by code_simp+
  obtain s where s: "load_config (\<lambda>_. Inr ''postgresql://db'') ?env = Inr s" "scheduler_tick_seconds s = 30"
    by (simp add: load_config_def getenv_def i check_settings_def)
  have "map to_lower ''Yes'' = ''yes''" by code_simp
  then show ?thesis using loaded_settings_in_bounds [OF s(1)] s by auto
qed

end
