(* ===== verification/Observability.thy ===== *)
theory Observability
  imports PyUuid
begin

text \<open>
  \<^verbatim>\<open>observability.py\<close>: the correlation identifier of a request. A caller may supply one; only
  the canonical text form of a UUID is accepted, and the response carries exactly one such header.
  A fresh identifier (\<^verbatim>\<open>uuid4()\<close>) is an argument. Then the log: the formatters, and their installation.
\<close>

definition is_hex :: "char \<Rightarrow> bool" where
  "is_hex c = (hex_val c \<noteq> None)"

definition uuid_text :: "string \<Rightarrow> bool" where
  \<comment> \<open>\<^verbatim>\<open>_UUID_TEXT.fullmatch\<close>: groups of 8, 4, 4, 4 and 12 hexadecimal digits\<close>
  "uuid_text s \<longleftrightarrow> length s = 36 \<and>
     (\<forall>i \<in> set [0..<36]. if i \<in> {8, 13, 18, 23} then s ! i = CHR ''-'' else is_hex (s ! i))"

definition valid_correlation_id :: "string option \<Rightarrow> string option" where
  "valid_correlation_id v = (case v of
     None \<Rightarrow> None
   | Some s \<Rightarrow> if s = [] \<or> pylen s \<noteq> 36 \<or> \<not> uuid_text s then None
              else (case uuid_of s of Inl _ \<Rightarrow> None | Inr _ \<Rightarrow> Some s))"

definition resolve_correlation_id :: "uuid \<Rightarrow> string option \<Rightarrow> string" where
  "resolve_correlation_id new v = (case valid_correlation_id v of None \<Rightarrow> uuid_str new | Some s \<Rightarrow> s)"

definition correlation_header :: string where
  "correlation_header = ''x-correlation-id''"

definition decode_ascii :: "string \<Rightarrow> string" where
  \<comment> \<open>\<^verbatim>\<open>bytes.decode("ascii", errors="ignore")\<close>\<close>
  "decode_ascii s = filter (\<lambda>c. (of_char c :: nat) < 128) s"

definition supplied_id :: "(string \<times> string) list \<Rightarrow> string option" where
  \<comment> \<open>the headers as a dictionary keyed in lower case: the last one wins; an empty one is none\<close>
  "supplied_id headers =
     (case map_of (rev (map (\<lambda>(k, v). (map to_lower k, v)) headers)) correlation_header of
        None \<Rightarrow> None | Some v \<Rightarrow> if v = [] then None else Some (decode_ascii v))"

definition request_correlation_id :: "uuid \<Rightarrow> (string \<times> string) list \<Rightarrow> string" where
  "request_correlation_id new headers = resolve_correlation_id new (supplied_id headers)"

definition stamp_response :: "string \<Rightarrow> (string \<times> string) list \<Rightarrow> (string \<times> string) list" where
  \<comment> \<open>\<^verbatim>\<open>send_wrapper\<close>: whatever the application set is replaced\<close>
  "stamp_response cid headers =
     filter (\<lambda>(k, v). map to_lower k \<noteq> correlation_header) headers @ [(correlation_header, cid)]"

subsection \<open>CorrelationMiddleware\<close>

text \<open>An application is what it does with a request: the messages it sends, in order, and the exception it
  ends with, if any. The middleware gives the messages that go out, the fields of its own log line and the
  exception again.\<close>

datatype asgi_message = ResponseStart int "(string \<times> string) list" | OtherMessage string

fun send_wrapper :: "string \<Rightarrow> asgi_message \<Rightarrow> asgi_message" where
  "send_wrapper cid (ResponseStart status headers) = ResponseStart status (stamp_response cid headers)"
| "send_wrapper cid (OtherMessage body) = OtherMessage body"

fun response_status :: "int option \<Rightarrow> asgi_message list \<Rightarrow> int option" where
  \<comment> \<open>the status of the last start that was sent\<close>
  "response_status st [] = st"
| "response_status st (ResponseStart status headers # ms) = response_status (Some status) ms"
| "response_status st (OtherMessage body # ms) = response_status st ms"

record request_line =
  rl_event_name :: string
  rl_http_method :: string
  rl_http_path :: string
  rl_status_code :: "int option"
  rl_duration_ms :: string
  rl_correlation_id :: string

definition middleware ::
  "uuid \<Rightarrow> string \<Rightarrow> string \<Rightarrow> string \<Rightarrow> (string \<times> string) list \<Rightarrow> string \<Rightarrow> asgi_message list \<times> exn option
     \<Rightarrow> asgi_message list \<times> request_line option \<times> exn option" where
  "middleware new scope_type http_method http_path headers duration app =
     (if scope_type \<noteq> ''http'' then (fst app, None, snd app)
      else (let cid = request_correlation_id new headers in
            (map (send_wrapper cid) (fst app),
             (if snd app = None
              then Some \<lparr>rl_event_name = ''request.completed'', rl_http_method = http_method, rl_http_path = http_path,
                         rl_status_code = response_status None (fst app), rl_duration_ms = duration, rl_correlation_id = cid\<rparr>
              else None),
             snd app)))"

subsection \<open>StructuredFormatter\<close>

definition safe_fields :: "string list" where
  "safe_fields = [''event_name'', ''correlation_id'', ''http_method'', ''http_path'', ''status_code'', ''duration_ms'']"

record 'v log_record =
  lr_levelname :: 'v
  lr_name :: 'v
  lr_message :: 'v
  lr_exception :: "'v option"
  lr_attributes :: "string \<Rightarrow> 'v option"

definition record_factory :: "'v \<Rightarrow> 'v log_record \<Rightarrow> 'v log_record" where
  \<comment> \<open>the current correlation identifier, unless the record brings one; an absent attribute is None\<close>
  "record_factory cid r = (if lr_attributes r ''correlation_id'' = None
     then r\<lparr>lr_attributes := (lr_attributes r)(''correlation_id'' \<mapsto> cid)\<rparr> else r)"

definition structured_payload :: "'v \<Rightarrow> 'v log_record \<Rightarrow> (string \<times> 'v) list" where
  \<comment> \<open>the entries of the JSON object, in order; a value None is left out\<close>
  "structured_payload now r =
     [(''timestamp'', now), (''level'', lr_levelname r), (''logger'', lr_name r), (''message'', lr_message r)]
     @ concat (map (\<lambda>k. case lr_attributes r k of None \<Rightarrow> [] | Some v \<Rightarrow> [(k, v)]) safe_fields)
     @ (case lr_exception r of None \<Rightarrow> [] | Some e \<Rightarrow> [(''exception'', e)])"

subsection \<open>Installing them\<close>

definition readable_format :: "string \<Rightarrow> string log_record \<Rightarrow> string" where
  \<comment> \<open>\<open>base\<close> is what the formatter of the standard library makes of the record\<close>
  "readable_format base r =
     (let attribute = (\<lambda>k. case lr_attributes r k of None \<Rightarrow> ''-'' | Some v \<Rightarrow> v) in
      base @ '' event='' @ attribute ''event_name'' @ '' correlation_id='' @ attribute ''correlation_id'')"

datatype log_formatter = OtherFormatter string | StructuredLog | ReadableLog string

record log_handler =
  lh_formatter :: log_formatter
  lh_installed :: bool

record 'v logging_state =
  lg_factory :: "'v \<Rightarrow> 'v log_record \<Rightarrow> 'v log_record"
  lg_factory_installed :: bool
  lg_handlers :: "log_handler list"

definition install_formatter :: "string \<Rightarrow> log_handler \<Rightarrow> log_handler" where
  "install_formatter environment h =
     (if lh_installed h then h
      else h\<lparr>lh_formatter := (if map to_lower environment = ''production'' then StructuredLog
                 else ReadableLog ''%(asctime)s %(levelname)s %(name)s: %(message)s''),
             lh_installed := True\<rparr>)"

definition configure_logging :: "string \<Rightarrow> 'v logging_state \<Rightarrow> 'v logging_state" where
  \<comment> \<open>a factory makes a record of the current correlation identifier; the old one runs first\<close>
  "configure_logging environment st =
     st\<lparr>lg_factory := (if lg_factory_installed st then lg_factory st else (\<lambda>cid r. record_factory cid (lg_factory st cid r))),
        lg_factory_installed := True,
        lg_handlers := map (install_formatter environment) (lg_handlers st)\<rparr>"

text \<open>Installing is done once: a second call changes nothing, also for another environment; and then every record
  has a correlation identifier.\<close>

lemma configure_logging_once: "configure_logging e' (configure_logging e st) = configure_logging e st"
  by (simp add: configure_logging_def install_formatter_def)

lemma configured_records_correlated:
  "\<not> lg_factory_installed st \<Longrightarrow> lr_attributes (lg_factory (configure_logging e st) cid r) ''correlation_id'' \<noteq> None"
  by (simp add: configure_logging_def record_factory_def)

text \<open>Only the listed attributes reach the log: a record formats the same whatever its other ones are.\<close>

lemma payload_ignores_other_attributes:
  "(\<And>k. k \<in> set safe_fields \<Longrightarrow> f k = lr_attributes r k) \<Longrightarrow>
     structured_payload now (r\<lparr>lr_attributes := f\<rparr>) = structured_payload now r"
  by (simp add: structured_payload_def cong: map_cong)

lemma payload_keys:
  "set (map fst (structured_payload now r)) \<subseteq>
     {''timestamp'', ''level'', ''logger'', ''message'', ''exception''} \<union> set safe_fields"
  by (auto simp: structured_payload_def split: option.splits)

text \<open>Every message goes out, in order; a start carries the identifier, anything else is untouched; and only a
  request that ended without an exception is logged as completed.\<close>

lemma middleware_http:
  assumes "middleware new ''http'' http_method http_path headers duration (ms, e) = (sent, line, e')"
  shows "e' = e \<and> length sent = length ms \<and> (line = None \<longleftrightarrow> e \<noteq> None) \<and>
    list_all2 (\<lambda>m m'. case m of
        ResponseStart st hs \<Rightarrow> m' = ResponseStart st (stamp_response (request_correlation_id new headers) hs)
      | OtherMessage b \<Rightarrow> m' = m) ms sent"
  using assms by (auto simp: middleware_def Let_def list_all2_conv_all_nth split: asgi_message.split if_splits)

lemma lower_hex_is_hex: "c \<in> set lower_hex \<Longrightarrow> is_hex c"
  by (auto simp: lower_hex_def is_hex_def hex_val_def Let_def)

lemma nth_dashed:
  assumes "length h = 32" and "i < 36"
  shows "dashed h ! i = (if i \<in> {8, 13, 18, 23} then CHR ''-''
    else if i < 8 then h ! i else if i < 13 then h ! (i - 1) else if i < 18 then h ! (i - 2)
    else if i < 23 then h ! (i - 3) else h ! (i - 4))"
proof -
  have "i < 8 \<or> i = 8 \<or> 8 < i \<and> i < 13 \<or> i = 13 \<or> 13 < i \<and> i < 18 \<or> i = 18 \<or> 18 < i \<and> i < 23 \<or> i = 23 \<or> 23 < i"
    by linarith
  then show ?thesis using assms
    by (elim disjE conjE) (simp_all add: dashed_def nth_append nth_Cons' less_diff_conv2 not_less)
qed

lemma uuid_text_str: "uuid_text (uuid_str u)"
proof -
  have len: "length (uuid_hex u) = 32" by (simp add: uuid_hex_def)
  have "is_hex (uuid_hex u ! i)" if "i < 32" for i
  proof -
    have "uuid_hex u ! i \<in> set (uuid_hex u)" using that len by simp
    then have "uuid_hex u ! i \<in> set lower_hex" using set_hex_digits by (auto simp: uuid_hex_def)
    then show ?thesis by (rule lower_hex_is_hex)
  qed
  then have "is_hex (dashed (uuid_hex u) ! i)" if "i < 36" "i \<notin> {8, 13, 18, 23}" for i
    using that len by (auto simp: nth_dashed [OF len])
  moreover have "dashed (uuid_hex u) ! i = CHR ''-''" if "i \<in> {8, 13, 18, 23}" for i
    using that len by (auto simp: nth_dashed [OF len])
  moreover have "length (dashed (uuid_hex u)) = 36" using len by (simp add: dashed_def)
  ultimately show ?thesis by (auto simp: uuid_text_def uuid_str_def)
qed

lemma valid_correlation_id_Some:
  "valid_correlation_id v = Some s \<Longrightarrow> v = Some s \<and> uuid_text s \<and> (\<exists>u. uuid_of s = Inr u)"
  by (auto simp: valid_correlation_id_def split: option.splits if_splits sum.splits)

subsection \<open>Properties\<close>

text \<open>The correlation identifier is well formed and unique in the response: whatever headers came in, the
  identifier is the text of a UUID; a supplied one is taken over unchanged exactly if it is such a text; and
  the response carries exactly one such header, with it, after the application's other headers in order.\<close>

lemma one_valid_correlation_header:
  "uuid_text (request_correlation_id new headers) \<and>
   (request_correlation_id new headers = (case supplied_id headers of None \<Rightarrow> uuid_str new
      | Some s \<Rightarrow> if pylen s = 36 \<and> uuid_text s \<and> \<not> isl (uuid_of s) then s else uuid_str new)) \<and>
   filter (\<lambda>(k, v). map to_lower k = correlation_header) (stamp_response (request_correlation_id new headers) out)
     = [(correlation_header, request_correlation_id new headers)] \<and>
   filter (\<lambda>(k, v). map to_lower k \<noteq> correlation_header) (stamp_response (request_correlation_id new headers) out)
     = filter (\<lambda>(k, v). map to_lower k \<noteq> correlation_header) out"
proof -
  have low: "map to_lower correlation_header = correlation_header" by code_simp
  have empty: "\<not> uuid_text []" by (simp add: uuid_text_def)
  have wf: "uuid_text (request_correlation_id new headers)"
    unfolding request_correlation_id_def resolve_correlation_id_def
    using uuid_text_str valid_correlation_id_Some [of "supplied_id headers"] by (auto split: option.split)
  have taken: "request_correlation_id new headers = (case supplied_id headers of None \<Rightarrow> uuid_str new
      | Some s \<Rightarrow> if pylen s = 36 \<and> uuid_text s \<and> \<not> isl (uuid_of s) then s else uuid_str new)"
    unfolding request_correlation_id_def resolve_correlation_id_def valid_correlation_id_def
    by (auto simp: empty split: option.split sum.split)
  define cid where "cid = request_correlation_id new headers"
  have "filter (\<lambda>(k, v). map to_lower k = correlation_header) (filter (\<lambda>(k, v). map to_lower k \<noteq> correlation_header) out) = []"
    by (induction out) auto
  moreover have "filter (\<lambda>(k, v). map to_lower k \<noteq> correlation_header) (filter (\<lambda>(k, v). map to_lower k \<noteq> correlation_header) out)
      = filter (\<lambda>(k, v). map to_lower k \<noteq> correlation_header) out"
    by (induction out) auto
  ultimately show ?thesis
    using wf taken unfolding cid_def [symmetric] stamp_response_def by (simp add: low)
qed

end
