(* ===== verification/Deployment.thy ===== *)
theory Deployment
  imports SystemRuns StructuredGeneration SystemPrompt Config Observability
begin

text \<open>
  The program as it is started: \<^verbatim>\<open>dependencies.py\<close> builds the objects of a chat request from the
  loaded settings, and \<^verbatim>\<open>scheduler.main\<close> runs the worker with them. What comes from outside, the model
  service, the database behind an address, the codecs and the clocks, is the record \<open>deployment\<close>.
\<close>

subsection \<open>dependencies.py\<close>

record deployment =
  dp_bedrock :: "exn + model_call"
  dp_read_interpretation :: "json \<Rightarrow> exn + interpretation_output"
  dp_read_response :: "json \<Rightarrow> exn + string"
  dp_json :: json_codec
  dp_texts :: texts
  dp_db :: db_env
  dp_clock :: "nat \<Rightarrow> int"
  dp_new_row :: uuid
  dp_new_confirmation :: uuid
  dp_now_cleanup :: int
  dp_now_confirm :: int
  dp_now_create :: int

definition get_llm :: "deployment \<Rightarrow> exn + model_call" where
  \<comment> \<open>\<^verbatim>\<open>GenaiCoreBedrockAdapter()\<close>: a \<^verbatim>\<open>ValueError\<close> of the client becomes \<open>LLMGenerationError\<close>\<close>
  "get_llm dp = (case dp_bedrock dp of
     Inr call \<Rightarrow> Inr call
   | Inl e \<Rightarrow> Inl (if is_value_error e then LLMGenerationError (str_exn (dp_texts dp) e) else e))"

definition get_authorization_service :: "settings \<Rightarrow> auth_settings" where
  "get_authorization_service s =
     \<lparr>default_user_id = cfg_default_user_id s, single_user_mode = cfg_single_user_mode s\<rparr>"

definition chat_dependencies :: "settings \<Rightarrow> deployment \<Rightarrow> model_call \<Rightarrow> chat_env" where
  "chat_dependencies s dp call =
     \<lparr>h_exec = production_env (dp_db dp) (dp_clock dp) (dp_new_row dp) (daily_working_minutes s),
      h_auth = get_authorization_service s, h_ttl_seconds = pending_confirmation_ttl_seconds s,
      h_json = dp_json dp, h_texts = dp_texts dp,
      h_llm = bedrock_llm (dp_texts dp) call (dp_read_interpretation dp) system_prompt,
      h_response_llm = bedrock_response_llm (dp_texts dp) call (dp_read_response dp),
      h_new_confirmation_id = dp_new_confirmation dp, h_now_cleanup = dp_now_cleanup dp,
      h_now_confirm = dp_now_confirm dp, h_now_create = dp_now_create dp\<rparr>"

subsection \<open>POST /agent/chat\<close>

definition post_chat ::
  "settings \<Rightarrow> deployment \<Rightarrow> string \<Rightarrow> uuid option \<Rightarrow> db \<Rightarrow> (unit http_response + chat_response) \<times> db" where
  \<comment> \<open>dependencies first, then the body (\<^verbatim>\<open>AgentChatRequest\<close>), then the handler\<close>
  "post_chat s dp msg user d =
     (case get_llm dp of
        Inl e \<Rightarrow> (Inl (exception_response e), d)
      | Inr call \<Rightarrow>
          if pylen msg < 1
          then (Inl (validation_response [([''body'', ''message''], ''String should have at least 1 character'')]), d)
          else (case agent_chat (chat_dependencies s dp call) msg user d of (r, d') \<Rightarrow> (Inr r, d')))"

subsection \<open>scheduler.main\<close>

definition scheduler_main ::
  "(environ \<Rightarrow> exn + string) \<Rightarrow> (string \<Rightarrow> exn + db_env) \<Rightarrow> environ \<Rightarrow> (nat \<Rightarrow> int) \<Rightarrow> (nat \<Rightarrow> bool) \<Rightarrow> db
     \<Rightarrow> exn + (nat \<times> db \<times> notification list) option" where
  \<comment> \<open>\<open>connect\<close> is \<^verbatim>\<open>create_engine\<close> of an address; a failing \<^verbatim>\<open>dispose\<close> is logged only\<close>
  "scheduler_main build connect env clk stop d =
     then_do (load_config build env) (\<lambda>s.
     then_do (connect (database_url s)) (\<lambda>E.
       Inr (run_forever (worker_tick E console_send clk (nat (scheduler_batch_size s)))
              (nat (scheduler_tick_seconds s)) stop 0 0 (d, []))))"

subsection \<open>How far the worker gets before it is stopped\<close>

text \<open>One round reads the flag twice and once per half second of sleep, so a flag that is first seen set at
  reading \<open>m\<close> leaves time for at least \<open>m div (2 + 2 * tick_seconds)\<close> ticks.\<close>

lemma sleep_undisturbed: "(\<And>j. j < k + rem \<Longrightarrow> \<not> stop j) \<Longrightarrow> sleep_slices stop k rem = (k + rem, rem)"
  by (induction rem arbitrary: k) auto

lemma run_forever_progress:
  assumes "\<And>j. stop j \<longleftrightarrow> m \<le> j" and "k + q * (2 + 2 * ts) \<le> m"
  shows "\<exists>c \<ge> q. run_forever tick ts stop k n w = Some (n + c, ticks tick n c w)"
  using assms(2)
proof (induction q arbitrary: k n w)
  case 0
  have "stop m" "\<And>j. m \<le> j \<Longrightarrow> stop j" using assms(1) by simp_all
  from run_forever_ticks [of stop m k tick ts n w, OF this] show ?case by blast
next
  case (Suc q)
  let ?k = "Suc (Suc k) + 2 * ts"
  have le: "?k + q * (2 + 2 * ts) \<le> m" using Suc.prems by simp
  then have "\<not> stop k" "\<not> stop (Suc k)" using assms(1) by auto
  moreover have "fst (sleep_slices stop (Suc (Suc k)) (2 * ts)) = ?k"
    using le assms(1) by (subst sleep_undisturbed) auto
  moreover obtain c where "c \<ge> q"
    "run_forever tick ts stop ?k (Suc n) (tick n w) = Some (Suc n + c, ticks tick (Suc n) c (tick n w))"
    using Suc.IH [OF le] by blast
  ultimately show ?case
    by (intro exI [of _ "Suc c"]) (simp add: run_forever.simps [of _ _ _ k] Let_def)
qed


subsection \<open>A sample deployment\<close>

definition sample_deployment :: deployment where
  \<comment> \<open>the model answers with a deletion of task 1\<close>
  "sample_deployment = \<lparr>dp_bedrock = Inr (\<lambda>_ _. Inr (JObject [(''output'', JObject [(''message'',
        JObject [(''content'', JArray [JObject [(''text'', JString ''...'')]])])])])),
     dp_read_interpretation = \<lambda>_. Inr (sample_output IR_ACTION_PROPOSED (Some DELETE_TASK) 1),
     dp_read_response = \<lambda>_. Inr ''ok'', dp_json = h_json (sample_chat (sample_output IR_CONFIRMATION None 3)), dp_texts = sample_texts,
     dp_db = pg_env, dp_clock = \<lambda>_. 100, dp_new_row = 8, dp_new_confirmation = 9,
     dp_now_cleanup = 100, dp_now_confirm = 100, dp_now_create = 100\<rparr>"

lemma default_settings: "\<exists>s. load_config (\<lambda>_. Inr ''postgresql://db'') Map.empty = Inr s \<and> scheduler_tick_seconds s = 60 \<and>
    cfg_default_user_id s = ''00000000-0000-0000-0000-000000000001''"
proof -
  have i: "py_int ''300'' = Inr 300" "py_int ''60'' = Inr 60" "py_int ''100'' = Inr 100" "py_int ''480'' = Inr 480" by code_simp+
  show ?thesis by (simp add: load_config_def getenv_def i check_settings_def)
qed

subsection \<open>Properties\<close>

text \<open>C6: A stranger changes nothing in the deployed program: with settings loaded from an environment that does
  not say yes to single-user mode, a chat from anyone but the configured default user, who owns no
  confirmation yet, leaves every task and reminder as it was and stores no confirmation, whatever the
  message says and the model answers; so the next chat finds the same situation.\<close>

theorem stranger_changes_nothing:
  assumes "load_config build env = Inr s" and "\<forall>v. env ''SINGLE_USER_MODE'' = Some v \<longrightarrow> map to_lower v \<notin> {''1'', ''true'', ''yes'', ''on''}"
    and "map_option uuid_str user \<noteq> Some (cfg_default_user_id s)"
    and "db_integrity d" and "\<forall>i c. confirmation_get i d = Some c \<longrightarrow> c_user_id c \<noteq> user"
    and "post_chat s dp msg user d = (r, d')"
  shows "tasks d' = tasks d \<and> reminders d' = reminders d \<and> db_integrity d' \<and>
    (\<forall>i c. confirmation_get i d' = Some c \<longrightarrow> c_user_id c \<noteq> user)"
proof (cases "\<exists>call. get_llm dp = Inr call \<and> \<not> pylen msg < 1")
  case False
  then have "d' = d" using assms(6) by (auto simp: post_chat_def split: sum.splits if_splits)
  then show ?thesis using assms(4,5) by simp
next
  case True
  then obtain call r0 where c: "agent_chat (chat_dependencies s dp call) msg user d = (r0, d')"
    using assms(6) by (auto simp: post_chat_def split: prod.splits if_splits)
  have "\<not> cfg_single_user_mode s"
  proof
    assume "cfg_single_user_mode s"
    then obtain v where v: "env ''SINGLE_USER_MODE'' = Some v" "map to_lower v \<in> {''1'', ''true'', ''yes'', ''on''}"
      unfolding load_config_single_user [OF assms(1)] by (elim exE conjE)
    from v(1) have "map to_lower v \<notin> {''1'', ''true'', ''yes'', ''on''}" by (rule assms(2) [THEN spec, THEN mp])
    from this v(2) show False by (rule notE)
  qed
  then have no: "\<not> may_act (chat_dependencies s dp call) user"
    using assms(3) by (auto simp: may_act_def chat_dependencies_def get_authorization_service_def)
  have unconfirmed: "\<not> confirmed_now (chat_dependencies s dp call) user d d' command" for command
    using assms(5) by (auto simp: confirmed_now_def)
  note auth = chat_authority [OF assms(4) c]
  have rows: "tasks d' = tasks d \<and> reminders d' = reminders d"
    using auth [THEN conjunct1] no unconfirmed by simp
  have step: "system_step d d'" using system_step.chat [of d "chat_dependencies s dp call" msg user] c by simp
  have "c_user_id x \<noteq> user" if "confirmation_get i d' = Some x" for i x
  proof (cases "confirmation_get i d")
    case None
    then show ?thesis using auth [THEN conjunct2, of i x] that no by simp
  next
    case (Some y)
    then have "c_user_id x = c_user_id y"
      using step_confirmations [OF step assms(4)] that by (fastforce simp: conf_evolves_def conf_next_def)
    then show ?thesis using assms(5) Some by simp
  qed
  then show ?thesis using rows step_integrity [OF step assms(4)] by blast
qed

lemma stranger_changes_nothing_witness:
  "\<exists>s r d'. load_config (\<lambda>_. Inr ''postgresql://db'') Map.empty = Inr s \<and>
     post_chat s sample_deployment ''delete task 1'' (Some 7) sample_db = (r, d') \<and> tasks d' = tasks sample_db"
proof -
  obtain s where s: "load_config (\<lambda>_. Inr ''postgresql://db'') Map.empty = Inr s"
    "cfg_default_user_id s = ''00000000-0000-0000-0000-000000000001''"
    using default_settings by blast
  obtain r d' where c: "post_chat s sample_deployment ''delete task 1'' (Some 7) sample_db = (r, d')" by fastforce
  have u: "uuid_str 7 = ''00000000-0000-0000-0000-000000000007''" by code_simp
  have none: "confirmation_get i sample_db = None" for i by (simp add: confirmation_get_def sample_simps)
  have "tasks d' = tasks sample_db"
    using stranger_changes_nothing [OF s(1) _ _ integrity_sample_db _ c] s(2) u none by simp
  then show ?thesis using s(1) c by blast
qed

text \<open>C13: The deployed worker drains its backlog and stops: with settings that load, a database that answers, commits
  that succeed and nobody else writing, a worker that is left running for as many rounds as reminders were
  due at the start (whatever the configured batch and tick, and however the clock moves from there) has
  notified each of those reminders when it returns, and none of them is due any more; no reminder was
  notified twice, and none before it was due at one of the ticks.\<close>

theorem deployed_worker_drains:
  assumes "load_config build env = Inr s" and "connect (database_url s) = Inr E"
    and "db_integrity d" and "\<And>x. commit_exn E x = None" and "\<And>j. stop j \<longleftrightarrow> m \<le> j" and "\<And>k. start \<le> clk k"
    and "length (filter (reminder_due start) (reminders d)) * (2 + 2 * nat (scheduler_tick_seconds s)) \<le> m"
  shows "\<exists>n d' log. scheduler_main build connect env clk stop d = Inr (Some (n, d', log)) \<and>
    {r \<in> set (reminders d'). r_status r = ''PENDING'' \<and> instant (r_remind_at r) \<le> start} = {} \<and>
    r_id ` {r \<in> set (reminders d). r_status r = ''PENDING'' \<and> instant (r_remind_at r) \<le> start} \<subseteq> (r_id \<circ> fst) ` set log \<and>
    distinct (map (r_id \<circ> fst) log) \<and>
    (\<forall>x \<in> set log. \<exists>k < n. \<exists>r \<in> set (reminders d). r_id r = r_id (fst x) \<and> r_status r = ''PENDING'' \<and> instant (r_remind_at r) \<le> clk k)"
proof -
  let ?limit = "nat (scheduler_batch_size s)" and ?due = "length (filter (reminder_due start) (reminders d))"
  let ?tick = "worker_tick E console_send clk ?limit"
  have "0 < ?limit" using load_config_Inr [OF assms(1)] check_settings_Inr [of s s] by simp
  obtain c where c: "?due \<le> c" "run_forever ?tick (nat (scheduler_tick_seconds s)) stop 0 0 (d, []) = Some (c, ticks ?tick 0 c (d, []))"
    using run_forever_progress [OF assms(5), of 0 ?due "nat (scheduler_tick_seconds s)" ?tick 0 "(d, [])"] assms(7) by auto
  have "?due \<le> c * ?limit" using c(1) \<open>0 < ?limit\<close> by (metis le_trans mult_le_mono1 mult_le_mono2 Suc_leI mult_1_right One_nat_def)
  from ticks_drain [where clk = clk and send = console_send and n = 0 and log = "[]", OF assms(3,4,6) this] obtain d' log where
    t: "ticks ?tick 0 c (d, []) = (d', log)" "filter (reminder_due start) (reminders d') = []"
    "distinct (map (r_id \<circ> fst) log)" "due_ids start d \<subseteq> (r_id \<circ> fst) ` set log"
    "\<forall>x \<in> set log. \<exists>k. 0 \<le> k \<and> k < 0 + c \<and> r_id (fst x) \<in> due_ids (clk k) d" by auto
  have "scheduler_main build connect env clk stop d = Inr (Some (c, d', log))"
    using c(2) t(1) by (simp add: scheduler_main_def assms(1,2))
  moreover have "{r \<in> set (reminders d'). r_status r = ''PENDING'' \<and> instant (r_remind_at r) \<le> start} = {}"
    using t(2) by (auto simp: filter_empty_conv reminder_due_def)
  moreover have "r_id ` {r \<in> set (reminders d). r_status r = ''PENDING'' \<and> instant (r_remind_at r) \<le> start} \<subseteq> (r_id \<circ> fst) ` set log"
    using t(4) by (simp add: due_ids_def reminder_due_def)
  moreover have "\<forall>x \<in> set log. \<exists>k < c. \<exists>r \<in> set (reminders d). r_id r = r_id (fst x) \<and> r_status r = ''PENDING'' \<and> instant (r_remind_at r) \<le> clk k"
    using t(5) by (fastforce simp: due_ids_def reminder_due_def)
  ultimately show ?thesis using t(3) by blast
qed

lemma deployed_worker_drains_witness:
  "\<exists>n d' log. scheduler_main (\<lambda>_. Inr ''postgresql://db'') (\<lambda>_. Inr pg_env) Map.empty (\<lambda>k. 600 + int k) (\<lambda>j. 122 \<le> j) sample_db
      = Inr (Some (n, d', log)) \<and> 2 \<in> (r_id \<circ> fst) ` set log \<and> distinct (map (r_id \<circ> fst) log)"
proof -
  obtain s where s: "load_config (\<lambda>_. Inr ''postgresql://db'') Map.empty = Inr s" "scheduler_tick_seconds s = 60"
    using default_settings by blast
  have ok: "length (filter (reminder_due 600) (reminders sample_db)) * (2 + 2 * nat (scheduler_tick_seconds s)) \<le> 122"
    by (simp add: s(2) sample_simps reminder_due_def)
  have ids: "r_id ` {r \<in> set (reminders sample_db). r_status r = ''PENDING'' \<and> instant (r_remind_at r) \<le> 600} = {2}"
    unfolding set_filter [symmetric] by (simp add: sample_simps)
  show ?thesis
    using deployed_worker_drains [OF s(1), where connect = "\<lambda>_. Inr pg_env" and E = pg_env and d = sample_db and m = 122
        and stop = "\<lambda>j. 122 \<le> j" and start = 600 and clk = "\<lambda>k. 600 + int k", OF _ integrity_sample_db _ _ _ ok]
    unfolding ids by simp blast
qed

end
