(* ===== verification/HttpApp.thy ===== *)
theory HttpApp
  imports Deployment
begin

text \<open>
  \<^verbatim>\<open>main.create_app\<close> as one function of a request: the routes the handlers register, the answers as the
  response schemas give them, the exception handlers, and the correlation middleware around the routes.
  An unhandled exception leaves the middleware and is answered outside of it, as Starlette documents for
  a handler of \<^verbatim>\<open>Exception\<close>. Reading JSON into typed fields (pydantic), the text of an answer and its own
  headers, and what FastAPI answers on other paths are fields of \<open>world\<close>.
\<close>

subsection \<open>Response schemas\<close>

record task_data =
  td_task_id :: uuid
  td_task_name :: string
  td_description :: "string option"
  td_deadline :: datetime
  td_duration_minutes :: "int option"
  td_priority :: string
  td_status :: string
  td_created_at :: datetime
  td_updated_at :: datetime

definition task_data_of :: "task \<Rightarrow> task_data" where
  \<comment> \<open>\<^verbatim>\<open>TaskResponseData.from_domain\<close>\<close>
  "task_data_of t = \<lparr>td_task_id = t_id t, td_task_name = t_name t, td_description = t_description t,
     td_deadline = t_deadline t, td_duration_minutes = t_duration t, td_priority = t_priority t,
     td_status = t_status t, td_created_at = t_created_at t, td_updated_at = t_updated_at t\<rparr>"

record reminder_data =
  rd_reminder_id :: uuid
  rd_task_id :: uuid
  rd_remind_at :: datetime
  rd_status :: string
  rd_created_at :: datetime
  rd_updated_at :: datetime

definition reminder_data_of :: "reminder \<Rightarrow> reminder_data" where
  "reminder_data_of r = \<lparr>rd_reminder_id = r_id r, rd_task_id = r_task_id r, rd_remind_at = r_remind_at r,
     rd_status = r_status r, rd_created_at = r_created_at r, rd_updated_at = r_updated_at r\<rparr>"

datatype content = TaskContent string task_data | TasksContent string "task_data list"
  | ReminderContent string reminder_data | RemindersContent string "reminder_data list"
  | ErrorContent string string string | ChatContent chat_response | HealthContent "(string \<times> string) list"
  | DetailContent string | EmptyContent

definition content_of :: "(string \<Rightarrow> 'a \<Rightarrow> content) \<Rightarrow> 'a http_response \<Rightarrow> content" where
  "content_of f r = (case rp_error r of
     Some (code, detail) \<Rightarrow> ErrorContent (rp_message r) code detail
   | None \<Rightarrow> (case rp_data r of None \<Rightarrow> EmptyContent | Some x \<Rightarrow> f (rp_message r) x))"

subsection \<open>Routes\<close>

datatype route = R_HEALTH | R_READY | R_CREATE_TASK | R_GET_TASK | R_LIST_TASKS | R_UPDATE_TASK | R_DELETE_TASK
  | R_CREATE_REMINDER | R_LIST_REMINDERS | R_UPDATE_REMINDER | R_DELETE_REMINDER | R_CHAT

definition task_routes :: "(route \<times> string \<times> string list) list" where
  "task_routes =
     [(R_CREATE_TASK, ''POST'', [''api'', ''v1'', ''tasks'']),
      (R_GET_TASK, ''GET'', [''api'', ''v1'', ''tasks'', ''{taskId}'']),
      (R_LIST_TASKS, ''GET'', [''api'', ''v1'', ''tasks'']),
      (R_UPDATE_TASK, ''PATCH'', [''api'', ''v1'', ''tasks'', ''{taskId}'']),
      (R_DELETE_TASK, ''DELETE'', [''api'', ''v1'', ''tasks'', ''{taskId}''])]"

definition reminder_routes :: "(route \<times> string \<times> string list) list" where
  "reminder_routes =
     [(R_CREATE_REMINDER, ''POST'', [''api'', ''v1'', ''tasks'', ''{taskId}'', ''reminders'']),
      (R_LIST_REMINDERS, ''GET'', [''api'', ''v1'', ''tasks'', ''{taskId}'', ''reminders'']),
      (R_UPDATE_REMINDER, ''PATCH'', [''api'', ''v1'', ''reminders'', ''{reminderId}'']),
      (R_DELETE_REMINDER, ''DELETE'', [''api'', ''v1'', ''reminders'', ''{reminderId}''])]"

definition routes :: "(route \<times> string \<times> string list) list" where
  \<comment> \<open>in the order of the \<^verbatim>\<open>include_router\<close> calls\<close>
  "routes = [(R_HEALTH, ''GET'', [''health'']), (R_READY, ''GET'', [''health'', ''ready''])]
     @ task_routes @ reminder_routes @ [(R_CHAT, ''POST'', [''api'', ''v1'', ''agent'', ''chat''])]"

fun split_on :: "char \<Rightarrow> string \<Rightarrow> string list" where
  "split_on c [] = [[]]"
| "split_on c (x # xs) = (if x = c then [] # split_on c xs
     else (case split_on c xs of [] \<Rightarrow> [[x]] | y # ys \<Rightarrow> (x # y) # ys))"

definition path_segments :: "string \<Rightarrow> string list option" where
  "path_segments p = (case p of [] \<Rightarrow> None | c # cs \<Rightarrow> if c = CHR ''/'' then Some (split_on (CHR ''/'') cs) else None)"

definition is_parameter :: "string \<Rightarrow> bool" where
  "is_parameter t \<longleftrightarrow> take 1 t = ''{''"

fun path_matches :: "string list \<Rightarrow> string list \<Rightarrow> bool" where
  \<comment> \<open>a parameter takes any one segment that is not empty\<close>
  "path_matches [] [] = True"
| "path_matches (t # ts) (s # ss) = ((if is_parameter t then s \<noteq> [] else s = t) \<and> path_matches ts ss)"
| "path_matches _ _ = False"

definition path_parameter :: "string list \<Rightarrow> string list \<Rightarrow> string" where
  \<comment> \<open>every template has at most one\<close>
  "path_parameter template segs = (case filter (\<lambda>(t, s). is_parameter t) (zip template segs) of [] \<Rightarrow> [] | (t, s) # _ \<Rightarrow> s)"

datatype routed = NoRoute | WrongMethod | Routed route string

definition find_route :: "string \<Rightarrow> string \<Rightarrow> routed" where
  "find_route http_method path =
     (case path_segments path of
        None \<Rightarrow> NoRoute
      | Some segs \<Rightarrow>
          (let fits = filter (\<lambda>(r, m, t). path_matches t segs) routes in
           case find (\<lambda>(r, m, t). m = http_method) fits of
             Some (r, m, t) \<Rightarrow> Routed r (path_parameter t segs)
           | None \<Rightarrow> if fits = [] then NoRoute else WrongMethod))"

subsection \<open>The world of a request\<close>

type_synonym errors = "(string list \<times> string) list"

record http_request =
  rq_method :: string
  rq_path :: string
  rq_headers :: "(string \<times> string) list"
  rq_body :: string

record parsers =
  \<comment> \<open>what is read as JSON depends on the content type too\<close>
  ps_json :: "http_request \<Rightarrow> errors + json"
  ps_uuid :: "string \<Rightarrow> errors + uuid"
  ps_task_create :: "json \<Rightarrow> errors + task_create_request"
  ps_task_update :: "json \<Rightarrow> errors + task_update_request"
  ps_reminder_create :: "json \<Rightarrow> errors + pydatetime"
  ps_reminder_update :: "json \<Rightarrow> errors + reminder_update_request"
  ps_chat :: "json \<Rightarrow> errors + string \<times> uuid option"

record world =
  w_settings :: settings
  w_deployment :: deployment
  w_parsers :: parsers
  w_open_session :: "exn + unit"
  w_probe :: "exn + unit"
  w_close_session :: "exn + unit"
  w_new_correlation_id :: uuid
  w_duration_ms :: string
  w_headers_of :: "content \<Rightarrow> (string \<times> string) list"
  w_text_of :: "content \<Rightarrow> string"
  w_fallback :: "http_request \<Rightarrow> int \<times> content"

definition path_only :: "errors + uuid \<Rightarrow> (uuid \<Rightarrow> 'a endpoint) \<Rightarrow> 'a endpoint" where
  "path_only i f s = (case i of Inl es \<Rightarrow> (validation_response es, s) | Inr i \<Rightarrow> f i s)"

definition body_only :: "errors + 'p \<Rightarrow> ('p \<Rightarrow> 'a endpoint) \<Rightarrow> 'a endpoint" where
  "body_only p f s = (case p of Inl es \<Rightarrow> (validation_response es, s) | Inr p \<Rightarrow> f p s)"

definition path_and_body ::
  "errors + uuid \<Rightarrow> errors + 'p \<Rightarrow> ('p \<Rightarrow> checked) \<Rightarrow> (uuid \<Rightarrow> 'p \<Rightarrow> 'a endpoint) \<Rightarrow> 'a endpoint" where
  \<comment> \<open>the errors of both are reported together; an exception of a validator is not an error of the body\<close>
  "path_and_body i p checks f s = (case i of
     Inr i \<Rightarrow> body_only p (f i) s
   | Inl es \<Rightarrow> (case p of
        Inl bs \<Rightarrow> (validation_response (es @ bs), s)
      | Inr p \<Rightarrow> (case checks p of
           Inl e \<Rightarrow> (exception_response e, s)
         | Inr (x, bs) \<Rightarrow> (validation_response (es @ bs), s))))"

definition with_json :: "world \<Rightarrow> http_request \<Rightarrow> (json \<Rightarrow> 'a endpoint) \<Rightarrow> 'a endpoint" where
  \<comment> \<open>a body that is not JSON is refused before anything else is looked at\<close>
  "with_json W rq f s = body_only (ps_json (w_parsers W) rq) f s"

definition in_session :: "(string \<Rightarrow> 'a \<Rightarrow> content) \<Rightarrow> 'a endpoint \<Rightarrow> db \<Rightarrow> (int \<times> content) \<times> db" where
  \<comment> \<open>\<^verbatim>\<open>get_uow\<close>: a session of its own, closed without a commit\<close>
  "in_session f ep d = (case ep (fresh d) of (r, s) \<Rightarrow> ((rp_status r, content_of f r), committed s))"

fun run_route :: "world \<Rightarrow> http_request \<Rightarrow> route \<Rightarrow> string \<Rightarrow> db \<Rightarrow> (int \<times> content) \<times> db" where
  "run_route W rq R_HEALTH seg d = ((fst health_check, HealthContent (snd health_check)), d)"
| "run_route W rq R_READY seg d =
     (case readiness_check (w_open_session W) (w_probe W) (w_close_session W) of
        Inl e \<Rightarrow> ((rp_status (exception_response e :: unit http_response), content_of (\<lambda>m x. EmptyContent) (exception_response e :: unit http_response)), d)
      | Inr (st, kvs) \<Rightarrow> ((st, HealthContent kvs), d))"
| "run_route W rq R_CREATE_TASK seg d =
     (let dp = w_deployment W in
      in_session (\<lambda>m t. TaskContent m (task_data_of t))
        (with_json W rq (\<lambda>j. body_only (ps_task_create (w_parsers W) j) (post_task (dp_db dp) (dp_clock dp) (dp_new_row dp)))) d)"
| "run_route W rq R_GET_TASK seg d =
     in_session (\<lambda>m t. TaskContent m (task_data_of t)) (path_only (ps_uuid (w_parsers W) seg) read_task) d"
| "run_route W rq R_LIST_TASKS seg d = in_session (\<lambda>m ts. TasksContent m (map task_data_of ts)) read_tasks d"
| "run_route W rq R_UPDATE_TASK seg d =
     (let dp = w_deployment W in
      in_session (\<lambda>m t. TaskContent m (task_data_of t))
        (with_json W rq (\<lambda>j. path_and_body (ps_uuid (w_parsers W) seg) (ps_task_update (w_parsers W) j) task_update_checks
           (patch_task (dp_db dp) (dp_clock dp)))) d)"
| "run_route W rq R_DELETE_TASK seg d =
     in_session (\<lambda>m u. EmptyContent) (path_only (ps_uuid (w_parsers W) seg) (remove_task (dp_db (w_deployment W)))) d"
| "run_route W rq R_CREATE_REMINDER seg d =
     (let dp = w_deployment W in
      in_session (\<lambda>m r. ReminderContent m (reminder_data_of r))
        (with_json W rq (\<lambda>j. path_and_body (ps_uuid (w_parsers W) seg) (ps_reminder_create (w_parsers W) j) (aware_field ''remindAt'')
           (post_reminder (dp_db dp) (dp_clock dp) (dp_new_row dp)))) d)"
| "run_route W rq R_LIST_REMINDERS seg d =
     in_session (\<lambda>m rs. RemindersContent m (map reminder_data_of rs)) (path_only (ps_uuid (w_parsers W) seg) read_task_reminders) d"
| "run_route W rq R_UPDATE_REMINDER seg d =
     (let dp = w_deployment W in
      in_session (\<lambda>m r. ReminderContent m (reminder_data_of r))
        (with_json W rq (\<lambda>j. path_and_body (ps_uuid (w_parsers W) seg) (ps_reminder_update (w_parsers W) j) reminder_update_checks
           (patch_reminder (dp_db dp) (dp_clock dp)))) d)"
| "run_route W rq R_DELETE_REMINDER seg d =
     in_session (\<lambda>m u. EmptyContent) (path_only (ps_uuid (w_parsers W) seg) (remove_reminder (dp_db (w_deployment W)))) d"
| "run_route W rq R_CHAT seg d =
     (let refuse = (\<lambda>r :: unit http_response. ((rp_status r, content_of (\<lambda>m x. EmptyContent) r), d)) in
      case ps_json (w_parsers W) rq of
        Inl es \<Rightarrow> refuse (validation_response es)
      | Inr j \<Rightarrow> (case ps_chat (w_parsers W) j of
           Inl es \<Rightarrow> (case get_llm (w_deployment W) of
               Inl e \<Rightarrow> refuse (exception_response e) | Inr call \<Rightarrow> refuse (validation_response es))
         | Inr (msg, user) \<Rightarrow> (case post_chat (w_settings W) (w_deployment W) msg user d of
               (Inl r, d') \<Rightarrow> ((rp_status r, content_of (\<lambda>m x. EmptyContent) r), d')
             | (Inr r, d') \<Rightarrow> ((200, ChatContent r), d'))))"

subsection \<open>Middleware and the handler of unhandled exceptions\<close>

definition answer_request :: "world \<Rightarrow> http_request \<Rightarrow> db \<Rightarrow> (int \<times> content) \<times> db" where
  "answer_request W rq d = (case find_route (rq_method rq) (rq_path rq) of
     Routed r seg \<Rightarrow> run_route W rq r seg d
   | WrongMethod \<Rightarrow> ((405, DetailContent ''Method Not Allowed''), d)
   | NoRoute \<Rightarrow> (w_fallback W rq, d))"

definition set_header :: "string \<Rightarrow> string \<Rightarrow> (string \<times> string) list \<Rightarrow> (string \<times> string) list" where
  \<comment> \<open>\<^verbatim>\<open>response.headers[k] = v\<close> of a lower-case name: the first is replaced, others removed, or one is added\<close>
  "set_header k v hs =
     (let other = (\<lambda>(a, b). a \<noteq> k) in
      if list_all other hs then hs @ [(k, v)]
      else takeWhile other hs @ (k, v) # filter other (dropWhile other hs))"

definition wire :: "world \<Rightarrow> int \<times> content \<Rightarrow> asgi_message list" where
  "wire W = (\<lambda>(st, c). [ResponseStart st (w_headers_of W c), OtherMessage (w_text_of W c)])"

definition unhandled_response :: "world \<Rightarrow> string \<Rightarrow> int \<times> content \<Rightarrow> asgi_message list" where
  \<comment> \<open>\<^verbatim>\<open>unhandled_exception_handler\<close>: the identifier is set on the answer itself\<close>
  "unhandled_response W cid = (\<lambda>(st, c).
     [ResponseStart st (set_header correlation_header cid (w_headers_of W c)), OtherMessage (w_text_of W c)])"

definition serve :: "world \<Rightarrow> http_request \<Rightarrow> db \<Rightarrow> (asgi_message list \<times> request_line option) \<times> db" where
  \<comment> \<open>500 is given by the handler of \<^verbatim>\<open>Exception\<close> only: there the application raised, and the middleware
      sends nothing and logs nothing\<close>
  "serve W rq d =
     (case answer_request W rq d of (reply, d') \<Rightarrow>
        let cid = request_correlation_id (w_new_correlation_id W) (rq_headers rq);
            app = (if fst reply = 500 then ([], Some (DbError ''raised'')) else (wire W reply, None)) in
        (case middleware (w_new_correlation_id W) ''http'' (rq_method rq) (rq_path rq) (rq_headers rq) (w_duration_ms W) app of
           (sent, line, raised) \<Rightarrow> ((if raised = None then sent else unhandled_response W cid reply, line), d')))"

definition status_of :: "asgi_message list \<Rightarrow> int option" where
  "status_of = response_status None"

lemma set_header_once:
  assumes "list_all (\<lambda>(k, v). map to_lower k = k) hs"
  shows "filter (\<lambda>(k, v). map to_lower k = correlation_header) (set_header correlation_header cid hs) = [(correlation_header, cid)]"
proof -
  have low: "map to_lower correlation_header = correlation_header" by code_simp
  have plain: "filter (\<lambda>(k, v). map to_lower k = correlation_header) hs = filter (\<lambda>(k, v). k = correlation_header) hs"
    if "list_all (\<lambda>(k, v). map to_lower k = k) hs" for hs :: "(string \<times> string) list"
    using that by (induction hs) auto
  have other: "filter (\<lambda>(k, v). map to_lower k = correlation_header) hs = []"
    if "list_all (\<lambda>(k, v). map to_lower k = k) hs" "list_all (\<lambda>(k, v). k \<noteq> correlation_header) hs" for hs :: "(string \<times> string) list"
    using that by (induction hs) auto
  have tw: "list_all (\<lambda>(k, v). map to_lower k = k) (takeWhile P hs)" "list_all P (takeWhile P hs)" for P
    using assms by (auto simp: list_all_iff dest!: set_takeWhileD)
  have fd: "list_all (\<lambda>(k, v). map to_lower k = k) (filter P (dropWhile P hs))" "list_all P (filter P (dropWhile P hs))" for P
    using assms by (auto simp: list_all_iff dest!: set_dropWhileD)
  show ?thesis
    using assms other [OF assms] other [OF tw] other [OF fd] by (simp add: set_header_def Let_def low)
qed

subsection \<open>Facts about answers\<close>

text \<open>Which answers an endpoint may give: a success below 400, or an error of 400 or more that changed nothing.\<close>

definition honest :: "'a endpoint \<Rightarrow> bool" where
  "honest ep \<longleftrightarrow> (\<forall>s. case ep s of (r, s') \<Rightarrow>
     (rp_status r < 400 \<longleftrightarrow> rp_success r) \<and> (\<not> rp_success r \<longrightarrow> committed s' = committed s))"

lemma exception_status: "400 \<le> rp_status (exception_response e)"
  by (cases e rule: exception_response.cases) simp_all

lemma validation_status [simp]: "rp_status (validation_response es) = 400"
  by (simp add: validation_response_def Let_def)

lemma honest_refusal: "honest (\<lambda>s. (validation_response es, s))" "honest (\<lambda>s. (exception_response e, s))"
  using exception_status [of e] by (auto simp: honest_def not_less)

lemma honest_answer:
  assumes "code < 400" and "\<And>s. \<not> (\<exists>x. fst (f s) = Inr x) \<Longrightarrow> committed (snd (f s)) = committed s"
  shows "honest (\<lambda>s. answer code msg (f s))"
proof -
  have "case answer code msg (f s) of (r, s') \<Rightarrow>
      (rp_status r < 400 \<longleftrightarrow> rp_success r) \<and> (\<not> rp_success r \<longrightarrow> committed s' = committed s)" for s
    using assms(1) assms(2) [of s] exception_status by (cases "f s") (auto simp: answer_def not_less split: sum.splits)
  then show ?thesis by (simp add: honest_def)
qed

lemma honest_no_content:
  assumes "\<And>s. \<not> (\<exists>x. fst (f s) = Inr x) \<Longrightarrow> committed (snd (f s)) = committed s"
  shows "honest (\<lambda>s. no_content (f s))"
proof -
  have "case no_content (f s) of (r, s') \<Rightarrow>
      (rp_status r < 400 \<longleftrightarrow> rp_success r) \<and> (\<not> rp_success r \<longrightarrow> committed s' = committed s)" for s
    using assms [of s] exception_status by (cases "f s") (auto simp: no_content_def not_less split: sum.splits)
  then show ?thesis by (simp add: honest_def)
qed

lemma honest_cases:
  assumes "\<And>s. \<exists>ep'. honest ep' \<and> ep s = ep' s"
  shows "honest ep"
  unfolding honest_def
proof
  fix s
  obtain ep' where "honest ep'" "ep s = ep' s" using assms by blast
  then show "case ep s of (r, s') \<Rightarrow> (rp_status r < 400 \<longleftrightarrow> rp_success r) \<and> (\<not> rp_success r \<longrightarrow> committed s' = committed s)"
    by (simp add: honest_def)
qed

lemma honest_validated: "(\<And>x. honest (f x)) \<Longrightarrow> honest (validated v f)"
  by (rule honest_cases) (auto simp: validated_def intro: honest_refusal split: sum.split)

lemma honest_body_only: "(\<And>p. honest (f p)) \<Longrightarrow> honest (body_only p f)"
  by (rule honest_cases) (auto simp: body_only_def intro: honest_refusal split: sum.split)

lemma honest_with_json: "(\<And>j. honest (f j)) \<Longrightarrow> honest (with_json W rq f)"
  unfolding with_json_def [abs_def] by (rule honest_body_only)

lemma honest_path_only: "(\<And>i. honest (f i)) \<Longrightarrow> honest (path_only i f)"
  by (rule honest_cases) (auto simp: path_only_def intro: honest_refusal split: sum.split)

lemma honest_path_and_body: "(\<And>i p. honest (f i p)) \<Longrightarrow> honest (path_and_body i p checks f)"
  by (rule honest_cases) (auto simp: path_and_body_def intro: honest_refusal honest_body_only split: sum.split)

lemmas honest_intros = honest_answer honest_no_content honest_validated honest_body_only honest_with_json
  honest_path_only honest_path_and_body


subsection \<open>What a route does to the rows\<close>

lemma honest_api:
  "honest (post_task E clk i tc)" "honest (patch_task E clk i tu)" "honest (remove_task E i)"
  "honest (post_reminder E clk i j at)" "honest (patch_reminder E clk i ru)" "honest (remove_reminder E i)"
  "honest (read_task i)" "honest read_tasks" "honest (read_task_reminders i)"
proof -
  note unfolds = post_task_def [abs_def] patch_task_def [abs_def] remove_task_def [abs_def] post_reminder_def [abs_def]
    patch_reminder_def [abs_def] remove_reminder_def [abs_def] read_task_def [abs_def] read_tasks_def [abs_def]
    read_task_reminders_def [abs_def] module_create_task_def [abs_def] module_update_task_def [abs_def]
    module_delete_task_def [abs_def] module_create_reminder_def [abs_def] module_update_reminder_def [abs_def]
    module_delete_reminder_def [abs_def]
  show "honest (post_task E clk i tc)" "honest (patch_task E clk i tu)" "honest (remove_task E i)"
    "honest (post_reminder E clk i j at)" "honest (patch_reminder E clk i ru)" "honest (remove_reminder E i)"
    "honest (read_task i)" "honest read_tasks" "honest (read_task_reminders i)"
    unfolding unfolds by (intro honest_intros; simp add: transact_failed_unchanged)+
qed

text \<open>The layers around an endpoint either refuse and leave the session, or are the endpoint on some input.\<close>

definition wraps :: "('x \<Rightarrow> 'a endpoint) \<Rightarrow> 'a endpoint \<Rightarrow> bool" where
  "wraps g ep \<longleftrightarrow> (\<forall>s. snd (ep s) = s \<or> (\<exists>x. ep s = g x s))"

lemma wraps_self: "wraps g (g x)"
  by (auto simp: wraps_def)

lemma wraps_pair: "wraps (case_prod g) (g x y)"
  by (auto simp: wraps_def)

lemma wraps_body_only: "(\<And>p. wraps g (f p)) \<Longrightarrow> wraps g (body_only p f)"
  by (auto simp: wraps_def body_only_def split: sum.split)

lemma wraps_with_json: "(\<And>j. wraps g (f j)) \<Longrightarrow> wraps g (with_json W rq f)"
  unfolding with_json_def [abs_def] by (rule wraps_body_only)

lemma wraps_path_only: "(\<And>i. wraps g (f i)) \<Longrightarrow> wraps g (path_only i f)"
  by (auto simp: wraps_def path_only_def split: sum.split)

lemma wraps_path_and_body: "(\<And>i p. wraps g (f i p)) \<Longrightarrow> wraps g (path_and_body i p checks f)"
  using wraps_body_only [of g "f j" p for j]
  by (auto simp: wraps_def path_and_body_def split: sum.split)

lemmas wraps_intros = wraps_body_only wraps_with_json wraps_path_only wraps_path_and_body

lemma in_session_refused:
  assumes "honest ep" and "in_session f ep d = ((st, c), d')" and "400 \<le> st"
  shows "d' = d"
proof -
  obtain r s' where ep: "ep (fresh d) = (r, s')" by fastforce
  then have "st = rp_status r" "d' = committed s'" using assms(2) by (auto simp: in_session_def)
  moreover have "(rp_status r < 400) = rp_success r" "\<not> rp_success r \<longrightarrow> committed s' = committed (fresh d)"
    using assms(1) [unfolded honest_def, THEN spec, of "fresh d"] ep by auto
  ultimately show ?thesis using assms(3) by auto
qed

lemma in_session_wraps:
  assumes "wraps g ep" and "in_session f ep d = ((st, c), d')"
  shows "d' = d \<or> (\<exists>x. d' = committed (snd (g x (fresh d))))"
proof -
  obtain r s' where ep: "ep (fresh d) = (r, s')" by fastforce
  then have "d' = committed s'" using assms(2) by (auto simp: in_session_def)
  moreover have "s' = fresh d \<or> (\<exists>x. s' = snd (g x (fresh d)))"
    using assms(1) [unfolded wraps_def, THEN spec, of "fresh d"] ep by (metis snd_conv)
  ultimately show ?thesis by auto
qed

definition safe_routes :: "route set" where
  "safe_routes = {R_HEALTH, R_READY, R_GET_TASK, R_LIST_TASKS, R_LIST_REMINDERS}"

lemma fresh_committed [simp]: "committed (fresh d) = d"
  by (simp add: fresh_def)

lemma post_chat_effect:
  assumes "post_chat s dp msg user d = (r, d')"
  shows "(\<forall>x. r = Inl x \<longrightarrow> d' = d) \<and> (d' = d \<or> system_step d d')"
proof (cases "\<exists>x. r = Inl x")
  case True
  then show ?thesis using assms by (auto simp: post_chat_def split: sum.splits if_splits prod.splits)
next
  case False
  then obtain call r0 where "agent_chat (chat_dependencies s dp call) msg user d = (r0, d')"
    using assms by (auto simp: post_chat_def split: sum.splits if_splits prod.splits)
  then show ?thesis using system_step.chat [of d "chat_dependencies s dp call" msg user] False by auto
qed

lemma refused_route:
  assumes "run_route W rq r seg d = ((st, c), d')" and "400 \<le> st"
  shows "d' = d"
proof (cases r)
  case R_HEALTH
  then show ?thesis using assms by (simp add: health_check_def)
next
  case R_READY
  then show ?thesis using assms by (auto split: sum.splits)
next
  case R_CHAT
  then show ?thesis using assms
    by (auto simp: Let_def split: sum.splits prod.splits dest!: post_chat_effect)
qed (use assms in \<open>auto simp: Let_def elim!: in_session_refused [rotated] intro!: honest_intros honest_api\<close>)

lemma safe_route:
  assumes "run_route W rq r seg d = ((st, c), d')" and "r \<in> safe_routes"
  shows "d' = d"
proof -
  have reads: "snd (read_task i s) = s" "snd (read_tasks s) = s" "snd (read_task_reminders i s) = s" for i s
    by (simp_all add: read_task_def read_tasks_def read_task_reminders_def)
  have only: "in_session f ep d = ((st, c), d') \<Longrightarrow> wraps g ep \<Longrightarrow> (\<And>x s. snd (g x s) = s) \<Longrightarrow> d' = d"
    for f :: "string \<Rightarrow> 'a \<Rightarrow> content" and ep and g :: "'x \<Rightarrow> 'a endpoint"
    using in_session_wraps [of g ep f d st c d'] by auto
  show ?thesis
  proof (cases r)
    case R_READY
    then show ?thesis using assms by (auto split: sum.splits)
  next
    case R_GET_TASK
    then show ?thesis using assms(1) by (auto elim!: only [where g = read_task] intro: wraps_intros wraps_self reads)
  next
    case R_LIST_TASKS
    then show ?thesis using assms(1) by (auto elim!: only [where g = "\<lambda>_ :: unit. read_tasks"] simp: wraps_def reads)
  next
    case R_LIST_REMINDERS
    then show ?thesis using assms(1) by (auto elim!: only [where g = read_task_reminders] intro: wraps_intros wraps_self reads)
  qed (use assms in \<open>auto simp: safe_routes_def\<close>)
qed

lemma route_step:
  assumes "run_route W rq r seg d = ((st, c), d')"
  shows "d' = d \<or> system_step d d'"
proof (cases "r \<in> safe_routes")
  case True
  then show ?thesis using safe_route [OF assms] by simp
next
  case False
  define E clk new where "E = dp_db (w_deployment W)" and "clk = dp_clock (w_deployment W)" and "new = dp_new_row (w_deployment W)"
  note w = in_session_wraps
  have api: "system_step d (committed (snd (post_task E clk new tc (fresh d))))"
    "system_step d (committed (snd (patch_task E clk i tu (fresh d))))"
    "system_step d (committed (snd (remove_task E i (fresh d))))"
    "system_step d (committed (snd (post_reminder E clk new i at (fresh d))))"
    "system_step d (committed (snd (patch_reminder E clk i ru (fresh d))))"
    "system_step d (committed (snd (remove_reminder E i (fresh d))))" for tc tu i at ru
    using system_step.api [of d E clk "PostTask new tc"] system_step.api [of d E clk "PatchTask i tu"]
      system_step.api [of d E clk "RemoveTask i"] system_step.api [of d E clk "PostReminder new i at"]
      system_step.api [of d E clk "PatchReminder i ru"] system_step.api [of d E clk "RemoveReminder i"] by simp_all
  show ?thesis
  proof (cases r)
    case R_CREATE_TASK
    with assms have "d' = d \<or> (\<exists>x. d' = committed (snd (post_task E clk new x (fresh d))))"
      unfolding E_def clk_def new_def
      by (intro w [where g = "post_task (dp_db (w_deployment W)) (dp_clock (w_deployment W)) (dp_new_row (w_deployment W))"])
        (auto simp: Let_def intro!: wraps_intros wraps_self)
    then show ?thesis using api by blast
  next
    case R_UPDATE_TASK
    with assms have "d' = d \<or> (\<exists>x. d' = committed (snd (case_prod (patch_task E clk) x (fresh d))))"
      unfolding E_def clk_def
      by (intro w [where g = "case_prod (patch_task (dp_db (w_deployment W)) (dp_clock (w_deployment W)))"])
        (auto simp: Let_def intro!: wraps_intros wraps_pair)
    then show ?thesis using api by auto
  next
    case R_DELETE_TASK
    with assms have "d' = d \<or> (\<exists>x. d' = committed (snd (remove_task E x (fresh d))))"
      unfolding E_def by (intro w [where g = "remove_task (dp_db (w_deployment W))"]) (auto intro!: wraps_intros wraps_self)
    then show ?thesis using api by blast
  next
    case R_CREATE_REMINDER
    with assms have "d' = d \<or> (\<exists>x. d' = committed (snd (case_prod (post_reminder E clk new) x (fresh d))))"
      unfolding E_def clk_def new_def
      by (intro w [where g = "case_prod (post_reminder (dp_db (w_deployment W)) (dp_clock (w_deployment W)) (dp_new_row (w_deployment W)))"])
        (auto simp: Let_def intro!: wraps_intros wraps_pair)
    then show ?thesis using api by auto
  next
    case R_UPDATE_REMINDER
    with assms have "d' = d \<or> (\<exists>x. d' = committed (snd (case_prod (patch_reminder E clk) x (fresh d))))"
      unfolding E_def clk_def
      by (intro w [where g = "case_prod (patch_reminder (dp_db (w_deployment W)) (dp_clock (w_deployment W)))"])
        (auto simp: Let_def intro!: wraps_intros wraps_pair)
    then show ?thesis using api by auto
  next
    case R_DELETE_REMINDER
    with assms have "d' = d \<or> (\<exists>x. d' = committed (snd (remove_reminder E x (fresh d))))"
      unfolding E_def by (intro w [where g = "remove_reminder (dp_db (w_deployment W))"]) (auto intro!: wraps_intros wraps_self)
    then show ?thesis using api by blast
  next
    case R_CHAT
    then show ?thesis using assms by (auto simp: Let_def split: sum.splits prod.splits dest!: post_chat_effect)
  qed (use False in \<open>simp_all add: safe_routes_def\<close>)
qed

lemma path_matches_Cons: "path_matches (t # ts) segs \<longleftrightarrow>
    (\<exists>s ss. segs = s # ss \<and> (if is_parameter t then s \<noteq> [] else s = t) \<and> path_matches ts ss)"
  by (cases segs) simp_all

lemma path_matches_Nil: "path_matches [] segs \<longleftrightarrow> segs = []"
  by (cases segs) simp_all

text \<open>No path and method fit two routes, so the order of registration does not matter.\<close>

fun clash :: "string list \<Rightarrow> string list \<Rightarrow> bool" where
  "clash [] [] = False"
| "clash (t # ts) (u # us) = (\<not> is_parameter t \<and> \<not> is_parameter u \<and> t \<noteq> u \<or> clash ts us)"
| "clash _ _ = True"

lemma clash_no_path: "clash t u \<Longrightarrow> path_matches t segs \<Longrightarrow> \<not> path_matches u segs"
  by (induction t u arbitrary: segs rule: clash.induct)
    (auto simp: path_matches_Cons path_matches_Nil split: if_splits)

lemma routes_unambiguous:
  assumes "(r, m, t) \<in> set routes" "(r', m, t') \<in> set routes" "path_matches t segs" "path_matches t' segs"
  shows "r = r' \<and> t = t'"
proof -
  have "list_all (\<lambda>(r, m, t). list_all (\<lambda>(r', m', t'). m = m' \<longrightarrow> r = r' \<and> t = t' \<or> clash t t') routes) routes"
    by code_simp
  then have "r = r' \<and> t = t' \<or> clash t t'" using assms(1,2) by (fastforce simp: list_all_iff)
  then show ?thesis using clash_no_path assms(3,4) by blast
qed

lemma find_Some_holds: "find P xs = Some x \<Longrightarrow> P x"
  by (auto simp: find_Some_iff)

lemma find_route_Routed:
  assumes "find_route http_method path = Routed r seg"
  shows "\<exists>t segs. path_segments path = Some segs \<and> (r, http_method, t) \<in> set routes \<and> path_matches t segs"
proof -
  obtain segs m t where f: "path_segments path = Some segs"
    "find (\<lambda>(r, m, t). m = http_method) (filter (\<lambda>(r, m, t). path_matches t segs) routes) = Some (r, m, t)"
    using assms by (auto simp: find_route_def Let_def split: option.splits if_splits)
  have "m = http_method" using find_Some_holds [OF f(2)] by simp
  moreover have "(r, m, t) \<in> set (filter (\<lambda>(r, m, t). path_matches t segs) routes)"
    using f(2) unfolding find_Some_iff by (metis nth_mem)
  ultimately show ?thesis using f(1) by auto
qed

lemma get_routes: "(r, ''GET'', t) \<in> set routes \<Longrightarrow> r \<in> safe_routes"
  by (auto simp: routes_def task_routes_def reminder_routes_def safe_routes_def)

lemma answer_request_effect:
  assumes "answer_request W rq d = ((st, c), d')"
  shows "(rq_method rq = ''GET'' \<or> 400 \<le> st \<longrightarrow> d' = d) \<and> (d' = d \<or> system_step d d')"
proof (cases "find_route (rq_method rq) (rq_path rq)")
  case (Routed r seg)
  then have run: "run_route W rq r seg d = ((st, c), d')" using assms by (simp add: answer_request_def)
  have "r \<in> safe_routes" if "rq_method rq = ''GET''"
    using find_route_Routed [OF Routed] that get_routes by auto
  then show ?thesis using refused_route [OF run] safe_route [OF run] route_step [OF run] by blast
qed (use assms in \<open>auto simp: answer_request_def\<close>)

lemma serve_Inr:
  assumes "serve W rq d = ((sent, line), d')"
  obtains st c where "answer_request W rq d = ((st, c), d')"
    "sent = (if st = 500 then unhandled_response W (request_correlation_id (w_new_correlation_id W) (rq_headers rq)) (st, c)
             else map (send_wrapper (request_correlation_id (w_new_correlation_id W) (rq_headers rq))) (wire W (st, c)))"
    "line = None \<longleftrightarrow> st = 500"
proof -
  obtain st c e where a: "answer_request W rq d = ((st, c), e)" by (metis surj_pair)
  show thesis
    using assms by (intro that [of st c]) (auto simp: serve_def a middleware_def Let_def split: if_splits)
qed

lemma status_of_serve:
  assumes "serve W rq d = ((sent, line), d')" and "status_of sent = Some st"
  shows "\<exists>c. answer_request W rq d = ((st, c), d')"
  using assms(1)
proof (cases rule: serve_Inr)
  case (1 st' c)
  then have "status_of sent = Some st'" by (auto simp: status_of_def unhandled_response_def wire_def)
  then show ?thesis using 1(1) assms(2) by auto
qed

subsection \<open>A sample\<close>

definition sample_world :: "settings \<Rightarrow> world" where
  \<comment> \<open>every identifier in a path reads as 9, every field of a body is refused\<close>
  "sample_world s = \<lparr>w_settings = s, w_deployment = sample_deployment,
     w_parsers = \<lparr>ps_json = \<lambda>_. Inr (JObject []), ps_uuid = \<lambda>_. Inr 9,
       ps_task_create = \<lambda>_. Inl [([''body'', ''taskName''], ''Field required'')], ps_task_update = \<lambda>_. Inl [],
       ps_reminder_create = \<lambda>_. Inl [([''body'', ''remindAt''], ''Field required'')],
       ps_reminder_update = \<lambda>_. Inl [], ps_chat = \<lambda>_. Inl [([''body'', ''message''], ''Field required'')]\<rparr>,
     w_open_session = Inr (), w_probe = Inl (DbError ''down''), w_close_session = Inr (), w_new_correlation_id = 5,
     w_duration_ms = ''1.0'', w_headers_of = \<lambda>_. [(''content-type'', ''application/json'')], w_text_of = \<lambda>_. ''{}'',
     w_fallback = \<lambda>_. (404, DetailContent ''Not Found'')\<rparr>"

definition sample_request :: "string \<Rightarrow> string \<Rightarrow> http_request" where
  "sample_request http_method path = \<lparr>rq_method = http_method, rq_path = path, rq_headers = [], rq_body = ''{}''\<rparr>"

subsection \<open>Properties\<close>

inductive program_step :: "db \<Rightarrow> db \<Rightarrow> bool" where
  request: "program_step d (snd (serve W rq d))"
| worker: "program_step d (snd (snd (run_once E send quiet now limit d)))"

lemma program_step_system:
  assumes "program_step d d'"
  shows "d' = d \<or> system_step d d'"
  using assms
proof (cases rule: program_step.cases)
  case (request W rq)
  obtain sent line where "serve W rq d = ((sent, line), d')" using request by (metis surjective_pairing)
  then show ?thesis by (cases rule: serve_Inr) (use answer_request_effect in blast)
next
  case (worker E send now limit)
  then show ?thesis using system_step.tick [of d E send now limit] by simp
qed

lemma program_run: "program_step\<^sup>*\<^sup>* d d' \<Longrightarrow> system_step\<^sup>*\<^sup>* d d'"
proof (induction rule: rtranclp_induct)
  case (step y z)
  then show ?case using program_step_system [of y z] by (auto intro: rtranclp.rtrancl_into_rtrancl)
qed simp

text \<open>C4: Every run of the program is a run of the system: whatever HTTP requests come in, on any path, with any method
  and body, between ticks of the worker, the stored rows go through steps of the system only; so what
  holds along its runs holds for the program.\<close>

theorem program_refines_system:
  assumes "program_step\<^sup>*\<^sup>* d d'"
  shows "system_step\<^sup>*\<^sup>* d d' \<and> (db_integrity d \<longrightarrow> db_integrity d')"
  using program_run [OF assms] run_integrity by blast

lemma program_refines_system_witness:
  "\<exists>s. load_config (\<lambda>_. Inr ''postgresql://db'') Map.empty = Inr s \<and>
     system_step\<^sup>*\<^sup>* sample_db (snd (serve (sample_world s) (sample_request ''DELETE'' ''/api/v1/tasks/1'') sample_db)) \<and>
     db_integrity (snd (serve (sample_world s) (sample_request ''DELETE'' ''/api/v1/tasks/1'') sample_db))"
proof -
  obtain s where s: "load_config (\<lambda>_. Inr ''postgresql://db'') Map.empty = Inr s"
    using default_settings by blast
  have "system_step\<^sup>*\<^sup>* sample_db (snd (serve (sample_world s) (sample_request ''DELETE'' ''/api/v1/tasks/1'') sample_db)) \<and>
     db_integrity (snd (serve (sample_world s) (sample_request ''DELETE'' ''/api/v1/tasks/1'') sample_db))"
    using program_refines_system [OF r_into_rtranclp,
        OF program_step.request [of sample_db "sample_world s" "sample_request ''DELETE'' ''/api/v1/tasks/1''"]]
      integrity_sample_db by blast
  then show ?thesis using s by blast
qed

text \<open>C7: Reading is safe and a refusal is complete: a request with method GET, and any request answered with a status
  of 400 or more, leaves every stored row as it was.\<close>

theorem reads_and_refusals_change_nothing:
  assumes "serve W rq d = ((sent, line), d')" and "status_of sent = Some st" and "rq_method rq = ''GET'' \<or> 400 \<le> st"
  shows "d' = d"
  using status_of_serve [OF assms(1,2)] answer_request_effect assms(3) by blast

lemma reads_and_refusals_change_nothing_witness:
  "\<exists>s sent line d'. load_config (\<lambda>_. Inr ''postgresql://db'') Map.empty = Inr s \<and>
     serve (sample_world s) (sample_request ''DELETE'' ''/api/v1/reminders/9'') sample_db = ((sent, line), d') \<and>
     status_of sent = Some 404 \<and> d' = sample_db"
proof -
  obtain s where s: "load_config (\<lambda>_. Inr ''postgresql://db'') Map.empty = Inr s"
    using default_settings by blast
  obtain sent line d' where e: "serve (sample_world s) (sample_request ''DELETE'' ''/api/v1/reminders/9'') sample_db = ((sent, line), d')"
    by (metis surj_pair)
  have f: "find_route ''DELETE'' ''/api/v1/reminders/9'' = Routed R_DELETE_REMINDER ''9''" by code_simp
  obtain c where "run_route (sample_world s) (sample_request ''DELETE'' ''/api/v1/reminders/9'') R_DELETE_REMINDER ''9'' sample_db
      = ((404, c), sample_db)"
    by (simp add: in_session_def path_only_def sample_world_def fresh_def remove_reminder_def no_content_def
        module_delete_reminder_def delete_reminder_def transact_def rollback_def reminder_get_def content_of_def sample_simps Let_def)
  then have "status_of sent = Some 404"
    using e by (auto simp: serve_def answer_request_def f sample_request_def Let_def middleware_def wire_def status_of_def)
  then show ?thesis using s e reads_and_refusals_change_nothing [OF e, of 404] by auto
qed

text \<open>C17: Every answer of the program carries exactly one correlation identifier, the text of a UUID and the supplied
  one exactly if that is such a text, also the answer to an unhandled exception, which the middleware does
  not see; and the line of a completed request is logged exactly for the other answers.\<close>

theorem every_answer_is_correlated:
  assumes "serve W rq d = ((sent, line), d')" and "\<forall>c. list_all (\<lambda>(k, v). map to_lower k = k) (w_headers_of W c)"
  shows "\<exists>st hs body cid. sent = [ResponseStart st hs, OtherMessage body] \<and> uuid_text cid \<and>
    cid = (case supplied_id (rq_headers rq) of None \<Rightarrow> uuid_str (w_new_correlation_id W)
      | Some s \<Rightarrow> if pylen s = 36 \<and> uuid_text s \<and> \<not> isl (uuid_of s) then s else uuid_str (w_new_correlation_id W)) \<and>
    filter (\<lambda>(k, v). map to_lower k = correlation_header) hs = [(correlation_header, cid)] \<and> (line = None \<longleftrightarrow> st = 500)"
proof -
  let ?cid = "request_correlation_id (w_new_correlation_id W) (rq_headers rq)"
  obtain st c where a: "sent = (if st = 500 then unhandled_response W ?cid (st, c) else map (send_wrapper ?cid) (wire W (st, c)))"
    "line = None \<longleftrightarrow> st = 500"
    using assms(1) by (cases rule: serve_Inr)
  define hs where "hs = (if st = 500 then set_header correlation_header ?cid (w_headers_of W c) else stamp_response ?cid (w_headers_of W c))"
  note one = one_valid_correlation_header [of "w_new_correlation_id W" "rq_headers rq" "w_headers_of W c"]
  have "sent = [ResponseStart st hs, OtherMessage (w_text_of W c)]"
    using a(1) by (simp add: hs_def unhandled_response_def wire_def)
  moreover have "filter (\<lambda>(k, v). map to_lower k = correlation_header) (set_header correlation_header ?cid (w_headers_of W c))
      = [(correlation_header, ?cid)]"
    using assms(2) by (intro set_header_once) simp
  then have "filter (\<lambda>(k, v). map to_lower k = correlation_header) hs = [(correlation_header, ?cid)]"
    using one [THEN conjunct2, THEN conjunct2, THEN conjunct1] by (simp only: hs_def split: if_splits) blast
  ultimately show ?thesis using one [THEN conjunct1] one [THEN conjunct2, THEN conjunct1] a(2) by blast
qed

lemma every_answer_is_correlated_witness:
  "\<exists>s st hs body. load_config (\<lambda>_. Inr ''postgresql://db'') Map.empty = Inr s \<and>
     fst (fst (serve (sample_world s) (sample_request ''GET'' ''/health'') sample_db)) = [ResponseStart st hs, OtherMessage body] \<and>
     filter (\<lambda>(k, v). map to_lower k = correlation_header) hs = [(correlation_header, uuid_str 5)]"
proof -
  obtain s where s: "load_config (\<lambda>_. Inr ''postgresql://db'') Map.empty = Inr s"
    using default_settings by blast
  obtain sent line d' where e: "serve (sample_world s) (sample_request ''GET'' ''/health'') sample_db = ((sent, line), d')"
    by (metis surj_pair)
  have low: "map to_lower ''content-type'' = ''content-type''" by code_simp
  have none: "supplied_id (rq_headers (sample_request ''GET'' ''/health'')) = None" by (simp add: sample_request_def supplied_id_def)
  have new: "w_new_correlation_id (sample_world s) = 5" by (simp add: sample_world_def)
  show ?thesis
    using every_answer_is_correlated [OF e] low s e unfolding none new by (fastforce simp: sample_world_def)
qed

end
