(* ===== verification/HttpResources.thy ===== *)
theory HttpResources
  imports HttpApp
begin

text \<open>
  Requests one after the other against the same resource: what an answer showed is what the next one shows,
  and what was deleted is gone.
\<close>

subsection \<open>Paths of one task\<close>

lemma split_on_plain: "c \<notin> set s \<Longrightarrow> split_on c s = [s]"
  by (induction s) auto

lemma task_path_segments:
  assumes "CHR ''/'' \<notin> set seg"
  shows "path_segments (''/api/v1/tasks/'' @ seg) = Some [''api'', ''v1'', ''tasks'', seg]"
  using split_on_plain [OF assms] by (simp add: path_segments_def)

lemma task_routes_of_path:
  assumes "CHR ''/'' \<notin> set seg" and "seg \<noteq> []"
  shows "find_route ''GET'' (''/api/v1/tasks/'' @ seg) = Routed R_GET_TASK seg"
    and "find_route ''PATCH'' (''/api/v1/tasks/'' @ seg) = Routed R_UPDATE_TASK seg"
    and "find_route ''DELETE'' (''/api/v1/tasks/'' @ seg) = Routed R_DELETE_TASK seg"
  by (simp_all add: find_route_def task_path_segments [OF assms(1), simplified] routes_def task_routes_def reminder_routes_def
      is_parameter_def path_parameter_def assms(2) Let_def)

lemma reminders_of_path:
  assumes "CHR ''/'' \<notin> set seg" and "seg \<noteq> []"
  shows "find_route ''GET'' (''/api/v1/tasks/'' @ seg @ ''/reminders'') = Routed R_LIST_REMINDERS seg"
proof -
  have "split_on (CHR ''/'') (seg @ ''/reminders'') = [seg, ''reminders'']"
    using assms(1) by (induction seg) auto
  then have "path_segments (''/api/v1/tasks/'' @ seg @ ''/reminders'') = Some [''api'', ''v1'', ''tasks'', seg, ''reminders'']"
    by (simp add: path_segments_def)
  then show ?thesis
    by (simp add: find_route_def routes_def task_routes_def reminder_routes_def is_parameter_def path_parameter_def assms(2) Let_def)
qed

subsection \<open>What an answer shows is stored\<close>

definition shows_stored :: "task endpoint \<Rightarrow> bool" where
  "shows_stored ep \<longleftrightarrow> (\<forall>s. clean s \<longrightarrow> (case ep s of (r, s') \<Rightarrow>
     (\<forall>t. rp_data r = Some t \<longrightarrow> task_get (t_id t) (committed s') = Some t)))"

lemma shows_cases:
  assumes "\<And>s. \<exists>ep'. shows_stored ep' \<and> ep s = ep' s"
  shows "shows_stored ep"
  unfolding shows_stored_def
proof
  fix s
  obtain ep' where "shows_stored ep'" "ep s = ep' s" using assms by blast
  then show "clean s \<longrightarrow> (case ep s of (r, s') \<Rightarrow> \<forall>t. rp_data r = Some t \<longrightarrow> task_get (t_id t) (committed s') = Some t)"
    by (simp add: shows_stored_def)
qed

lemma exception_shows_nothing: "rp_data (exception_response e) = None"
  by (cases e rule: exception_response.cases) (simp_all add: failure_def)

lemma validation_shows_nothing: "rp_data (validation_response es) = None"
  by (simp add: validation_response_def Let_def failure_def)

lemma shows_refusal: "shows_stored (\<lambda>s. (validation_response es, s))" "shows_stored (\<lambda>s. (exception_response e, s))"
  by (simp_all add: shows_stored_def exception_shows_nothing validation_shows_nothing)

lemma shows_validated: "(\<And>x. shows_stored (f x)) \<Longrightarrow> shows_stored (validated v f)"
  by (rule shows_cases) (auto simp: validated_def intro: shows_refusal split: sum.split)

lemma shows_body_only: "(\<And>p. shows_stored (f p)) \<Longrightarrow> shows_stored (body_only p f)"
  by (rule shows_cases) (auto simp: body_only_def intro: shows_refusal split: sum.split)

lemma shows_with_json: "(\<And>j. shows_stored (f j)) \<Longrightarrow> shows_stored (with_json W rq f)"
  unfolding with_json_def [abs_def] by (rule shows_body_only)

lemma shows_path_only: "(\<And>i. shows_stored (f i)) \<Longrightarrow> shows_stored (path_only i f)"
  by (rule shows_cases) (auto simp: path_only_def intro: shows_refusal split: sum.split)

lemma shows_path_and_body: "(\<And>i p. shows_stored (f i p)) \<Longrightarrow> shows_stored (path_and_body i p checks f)"
  by (rule shows_cases) (auto simp: path_and_body_def intro: shows_refusal shows_body_only split: sum.split)

lemma shows_answer:
  assumes "\<And>s t. clean s \<Longrightarrow> fst (f s) = Inr t \<Longrightarrow> task_get (t_id t) (committed (snd (f s))) = Some t"
  shows "shows_stored (\<lambda>s. answer code msg (f s))"
proof -
  have "case answer code msg (f s) of (r, s') \<Rightarrow> \<forall>t. rp_data r = Some t \<longrightarrow> task_get (t_id t) (committed s') = Some t"
    if "clean s" for s
    using assms [OF that] by (cases "f s") (auto simp: answer_def exception_shows_nothing split: sum.splits)
  then show ?thesis by (simp add: shows_stored_def)
qed

lemma shows_task_endpoints:
  "shows_stored (post_task E clk i tc)" "shows_stored (patch_task E clk i tu)" "shows_stored (read_task i)"
proof -
  have created: "task_get (t_id t) (committed s') = Some t"
    if c: "module_create_task E clk i name desc dl prio dur s = (Inr t, s')" for i name desc dl prio dur s t s'
  proof -
    obtain d where d: "create_task E clk i name desc dl prio dur (working s) = Inr (t, d)" "s' = \<lparr>committed = d, working = d\<rparr>"
      using transact_Inr [OF c [unfolded module_create_task_def]] by blast
    then have "t_id t = i" "task_get i (working s) = None" "d = task_insert t (working s)"
      using bind_new_task_id by (auto simp: create_task_Inr)
    then show ?thesis using d(2) task_table.get_ins [of t "working s" i] by simp
  qed
  have updated: "task_get (t_id t) (committed s') = Some t"
    if c: "module_update_task E clk i name desc dl prio st dur s = (Inr t, s')" for i name desc dl prio st dur s t s'
  proof -
    obtain d where d: "update_task E clk i name desc dl prio st dur (working s) = Inr (t, d)" "s' = \<lparr>committed = d, working = d\<rparr>"
      using transact_Inr [OF c [unfolded module_update_task_def]] by blast
    from update_task_InrD [OF d(1)] task_repo_update_Inr show ?thesis using d(2) by fastforce
  qed
  show "shows_stored (post_task E clk i tc)" "shows_stored (patch_task E clk i tu)"
    unfolding post_task_def patch_task_def
    by (intro shows_validated shows_answer; metis created updated prod.collapse)+
  show "shows_stored (read_task i)"
    unfolding read_task_def [abs_def]
    by (rule shows_answer)
      (use task_table.get_SomeD in \<open>auto simp: module_get_task_def get_task_Inr clean_def\<close>)
qed

lemma in_session_shows:
  assumes "shows_stored ep" and "in_session (\<lambda>m t. TaskContent m (task_data_of t)) ep d = ((st, TaskContent m td), d')"
  shows "\<exists>t. task_get (td_task_id td) d' = Some t \<and> td = task_data_of t"
proof -
  obtain r s' where ep: "ep (fresh d) = (r, s')" by fastforce
  then obtain t where "rp_data r = Some t" "td = task_data_of t" "d' = committed s'"
    using assms(2) by (auto simp: in_session_def content_of_def split: option.splits)
  moreover have "task_get (t_id t) (committed s') = Some t"
    using assms(1) [unfolded shows_stored_def, THEN spec, of "fresh d"] ep \<open>rp_data r = Some t\<close> by simp
  ultimately show ?thesis by (simp add: task_data_of_def)
qed

lemma route_shows_stored:
  assumes "run_route W rq r seg d = ((st, TaskContent m td), d')"
  shows "\<exists>t. task_get (td_task_id td) d' = Some t \<and> td = task_data_of t"
proof (cases r)
  case R_CREATE_TASK
  show ?thesis by (rule in_session_shows [OF _ assms [unfolded R_CREATE_TASK run_route.simps Let_def]])
    (intro shows_with_json shows_body_only shows_task_endpoints)
next
  case R_GET_TASK
  show ?thesis by (rule in_session_shows [OF _ assms [unfolded R_GET_TASK run_route.simps Let_def]])
    (intro shows_path_only shows_task_endpoints)
next
  case R_UPDATE_TASK
  show ?thesis by (rule in_session_shows [OF _ assms [unfolded R_UPDATE_TASK run_route.simps Let_def]])
    (intro shows_with_json shows_path_and_body shows_task_endpoints)
qed (use assms in \<open>auto simp: in_session_def content_of_def Let_def split: prod.splits sum.splits option.splits\<close>)

lemma get_task_route:
  assumes "ps_uuid (w_parsers W) seg = Inr i"
  shows "run_route W rq R_GET_TASK seg d = (case task_get i d of
      Some t \<Rightarrow> ((200, TaskContent ''Task retrieved successfully'' (task_data_of t)), d)
    | None \<Rightarrow> ((404, ErrorContent ''Task not found'' ''TASK_NOT_FOUND'' (''Task not found: '' @ uuid_str i)), d))"
  using assms
  by (simp add: in_session_def path_only_def read_task_def module_get_task_def get_task_def answer_def content_of_def
      failure_def success_def split: option.split)

abbreviation task_not_found :: "uuid \<Rightarrow> int \<times> content" where
  "task_not_found i \<equiv> (404, ErrorContent ''Task not found'' ''TASK_NOT_FOUND'' (''Task not found: '' @ uuid_str i))"

lemma absent_task_routes:
  assumes "ps_uuid (w_parsers W) seg = Inr i" and "task_get i d = None"
  shows "run_route W rq R_DELETE_TASK seg d = (task_not_found i, d)"
    and "run_route W rq R_LIST_REMINDERS seg d = (task_not_found i, d)"
  using assms
  by (simp_all add: in_session_def path_only_def remove_task_def module_delete_task_def transact_def delete_task_def no_content_def
      read_task_reminders_def module_list_reminders_by_task_def list_reminders_by_task_def answer_def content_of_def
      failure_def rollback_def)

lemma deleted_by_route:
  assumes "ps_uuid (w_parsers W) seg = Inr i" and "run_route W rq R_DELETE_TASK seg d = ((204, c), d')"
  shows "task_get i d \<noteq> None \<and> d' = task_erase i d"
proof -
  define E where "E = dp_db (w_deployment W)"
  obtain r s where t: "transact E (delete_task i) (fresh d) = (r, s)" by fastforce
  have "rp_status (exception_response e :: unit http_response) \<noteq> 204" for e
    using exception_status [where 'a = unit, of e] by linarith
  then have "\<exists>x. r = Inr x" "d' = committed s"
    using assms t by (auto simp: in_session_def path_only_def remove_task_def module_delete_task_def no_content_def E_def [symmetric]
        split: sum.splits)
  then show ?thesis using transact_Inr [of E "delete_task i" "fresh d"] t by (auto simp: delete_task_Inr)
qed

definition task_world :: "settings \<Rightarrow> world" where
  \<comment> \<open>the sample world where every identifier in a path reads as 8, the next row, and a body is a task due at 900\<close>
  "task_world s = (sample_world s)\<lparr>w_parsers := (w_parsers (sample_world s))
     \<lparr>ps_uuid := \<lambda>_. Inr 8, ps_task_create := \<lambda>_. Inr \<lparr>tc_task_name = ''Plan'', tc_description = None,
        tc_deadline = Aware (utc 900), tc_priority = TP_LOW, tc_duration = None\<rparr>\<rparr>\<rparr>"

lemma sample_post:
  "\<exists>td d'. run_route (task_world s) rq R_CREATE_TASK [] sample_db = ((201, TaskContent ''Task created successfully'' td), d')
      \<and> td_task_id td = 8 \<and> td_task_name td = ''Plan''"
  by (simp add: in_session_def with_json_def body_only_def post_task_def validated_def task_create_checks_def aware_field_def
      require_aware_utc_def astimezone_utc_def wall_ok_def MAX_ORD_def DAY_US_def positive_duration_def task_world_def sample_world_def
      module_create_task_def transact_def create_task_def task_repo_create_def bind_new_task_def sample_deployment_def plain_text_def
      pylen_def opt_val_def task_get_def sample_simps commit_def answer_def success_def content_of_def task_data_of_def task_insert_def Let_def)

subsection \<open>Properties\<close>

text \<open>C8: Read your writes: whatever request was answered with the data of a task, a POST, a PATCH or a GET, a GET
  of that task right after it is answered with exactly the same data, its timestamps included, and changes
  nothing.\<close>

theorem answered_task_reads_back:
  assumes "find_route (rq_method rq) (rq_path rq) = Routed r x"
    and "answer_request W rq d = ((st, TaskContent m td), d')"
    and "CHR ''/'' \<notin> set seg" and "seg \<noteq> []" and "ps_uuid (w_parsers W') seg = Inr (td_task_id td)"
    and "rq_method rq' = ''GET''" and "rq_path rq' = ''/api/v1/tasks/'' @ seg"
  shows "answer_request W' rq' d' = ((200, TaskContent ''Task retrieved successfully'' td), d')"
proof -
  have "run_route W rq r x d = ((st, TaskContent m td), d')"
    using assms(1,2) by (simp add: answer_request_def)
  from route_shows_stored [OF this] show ?thesis
    using get_task_route [OF assms(5)] task_routes_of_path(1) [OF assms(3,4)] assms(6,7)
    by (auto simp: answer_request_def simp del: run_route.simps)
qed

lemma answered_task_reads_back_witness:
  "\<exists>s st m td d'. load_config (\<lambda>_. Inr ''postgresql://db'') Map.empty = Inr s \<and>
     answer_request (task_world s) (sample_request ''POST'' ''/api/v1/tasks'') sample_db = ((st, TaskContent m td), d') \<and>
     answer_request (task_world s) (sample_request ''GET'' ''/api/v1/tasks/8'') d'
       = ((200, TaskContent ''Task retrieved successfully'' td), d') \<and> td_task_name td = ''Plan''"
proof -
  obtain s where s: "load_config (\<lambda>_. Inr ''postgresql://db'') Map.empty = Inr s"
    using default_settings by blast
  have f: "find_route (rq_method (sample_request ''POST'' ''/api/v1/tasks'')) (rq_path (sample_request ''POST'' ''/api/v1/tasks''))
      = Routed R_CREATE_TASK []" by code_simp
  obtain td d' where p: "run_route (task_world s) (sample_request ''POST'' ''/api/v1/tasks'') R_CREATE_TASK [] sample_db
      = ((201, TaskContent ''Task created successfully'' td), d')" "td_task_id td = 8" "td_task_name td = ''Plan''"
    using sample_post by blast
  then have a: "answer_request (task_world s) (sample_request ''POST'' ''/api/v1/tasks'') sample_db
      = ((201, TaskContent ''Task created successfully'' td), d')"
    by (simp add: answer_request_def f del: run_route.simps)
  have "answer_request (task_world s) (sample_request ''GET'' ''/api/v1/tasks/8'') d'
      = ((200, TaskContent ''Task retrieved successfully'' td), d')"
    by (rule answered_task_reads_back [OF f a, where seg = "''8''"])
      (simp_all add: p(2) task_world_def sample_request_def)
  then show ?thesis using s a p(3) by blast
qed

text \<open>C9: Deleted is gone: after a DELETE of a task that was answered with 204, a GET of the task, of its reminders, and
  a second DELETE are all answered with 404 and change nothing; and the DELETE
  removed exactly this task and its reminders.\<close>

theorem deleted_task_is_gone:
  assumes "rq_method rq = ''DELETE''" and "rq_path rq = ''/api/v1/tasks/'' @ seg"
    and "CHR ''/'' \<notin> set seg" and "seg \<noteq> []" and "ps_uuid (w_parsers W) seg = Inr i"
    and "answer_request W rq d = ((204, c), d')" and "ps_uuid (w_parsers W') seg = Inr i"
    and "rq_method rq' = ''GET'' \<and> rq_path rq' \<in> {''/api/v1/tasks/'' @ seg, ''/api/v1/tasks/'' @ seg @ ''/reminders''} \<or>
         rq_method rq' = ''DELETE'' \<and> rq_path rq' = ''/api/v1/tasks/'' @ seg"
  shows "answer_request W' rq' d' = (task_not_found i, d') \<and>
    (\<forall>j. task_get j d' = (if j = i then None else task_get j d)) \<and>
    set (reminders d') = {r \<in> set (reminders d). r_task_id r \<noteq> i}"
proof -
  have "run_route W rq R_DELETE_TASK seg d = ((204, c), d')"
    using assms(1,2,6) task_routes_of_path(3) [OF assms(3,4)] by (simp add: answer_request_def del: run_route.simps)
  from deleted_by_route [OF assms(5) this] have d': "d' = task_erase i d" by blast
  have gone: "task_get j d' = (if j = i then None else task_get j d)" for j
    unfolding d' by (simp add: task_table.get_del)
  then have none: "task_get i d' = None" by simp
  have "answer_request W' rq' d' = (task_not_found i, d')"
    using assms(8) none absent_task_routes [OF assms(7) none] get_task_route [OF assms(7), of rq' d']
      task_routes_of_path [OF assms(3,4)] reminders_of_path [OF assms(3,4)]
    by (auto simp: answer_request_def simp del: run_route.simps)
  moreover have "set (reminders d') = {r \<in> set (reminders d). r_task_id r \<noteq> i}"
    by (auto simp: d' task_erase_def)
  ultimately show ?thesis using gone by simp
qed

lemma deleted_task_is_gone_witness:
  "\<exists>s c d'. load_config (\<lambda>_. Inr ''postgresql://db'') Map.empty = Inr s \<and>
     answer_request ((task_world s)\<lparr>w_parsers := (w_parsers (task_world s))\<lparr>ps_uuid := \<lambda>_. Inr 1\<rparr>\<rparr>)
       (sample_request ''DELETE'' ''/api/v1/tasks/1'') sample_db = ((204, c), d') \<and>
     answer_request ((task_world s)\<lparr>w_parsers := (w_parsers (task_world s))\<lparr>ps_uuid := \<lambda>_. Inr 1\<rparr>\<rparr>)
       (sample_request ''GET'' ''/api/v1/tasks/1'') d' = (task_not_found 1, d') \<and> reminders d' = []"
proof -
  obtain s where s: "load_config (\<lambda>_. Inr ''postgresql://db'') Map.empty = Inr s"
    using default_settings by blast
  let ?W = "(task_world s)\<lparr>w_parsers := (w_parsers (task_world s))\<lparr>ps_uuid := \<lambda>_. Inr 1\<rparr>\<rparr>"
  let ?rq = "sample_request ''DELETE'' ''/api/v1/tasks/1''"
  have f: "find_route ''DELETE'' ''/api/v1/tasks/1'' = Routed R_DELETE_TASK ''1''" by code_simp
  have "run_route ?W ?rq R_DELETE_TASK ''1'' sample_db = ((204, EmptyContent), task_erase 1 sample_db)"
    by (simp add: in_session_def path_only_def remove_task_def module_delete_task_def transact_def delete_task_def task_repo_delete_def
        commit_def no_content_def success_def content_of_def task_world_def sample_world_def sample_deployment_def task_get_def sample_simps)
  then have a: "answer_request ?W ?rq sample_db = ((204, EmptyContent), task_erase 1 sample_db)"
    using f by (simp add: answer_request_def sample_request_def del: run_route.simps)
  have gone: "answer_request ?W (sample_request ''GET'' ''/api/v1/tasks/1'') (task_erase 1 sample_db)
        = (task_not_found 1, task_erase 1 sample_db) \<and>
      (\<forall>j. task_get j (task_erase 1 sample_db) = (if j = 1 then None else task_get j sample_db)) \<and>
      set (reminders (task_erase 1 sample_db)) = {r \<in> set (reminders sample_db). r_task_id r \<noteq> 1}"
    by (rule deleted_task_is_gone [OF _ _ _ _ _ a, where seg = "''1''"]) (simp_all add: sample_request_def)
  moreover have "reminders (task_erase 1 sample_db) = []" by (simp add: task_erase_def sample_simps)
  ultimately show ?thesis using s a by blast
qed

end
