(* ===== verification/AppLife.thy ===== *)
theory AppLife
  imports HttpApp
begin

text \<open>
  The life of the two processes: \<^verbatim>\<open>main.create_app\<close> with its lifespan, and \<^verbatim>\<open>scheduler.main\<close>. Both open one engine of
  \<^verbatim>\<open>db.py\<close> to the address of the settings and dispose of it at the end. \<^verbatim>\<open>create_engine\<close> of SQLAlchemy is an argument,
  and so is the outcome of \<^verbatim>\<open>dispose\<close>.
\<close>

subsection \<open>db.py\<close>

type_synonym 'e engine_maker = "string \<Rightarrow> bool \<Rightarrow> bool \<Rightarrow> exn + 'e"

definition create_engine_from_url :: "'e engine_maker \<Rightarrow> string \<Rightarrow> exn + 'e" where
  \<comment> \<open>\<^verbatim>\<open>pool_pre_ping=True, future=True\<close>\<close>
  "create_engine_from_url create_engine url = create_engine url True True"

record 'e session_factory =
  sf_bind :: 'e
  sf_autoflush :: bool
  sf_autocommit :: bool
  sf_future :: bool

definition create_session_factory :: "'e \<Rightarrow> 'e session_factory" where
  "create_session_factory engine = \<lparr>sf_bind = engine, sf_autoflush = False, sf_autocommit = False, sf_future = True\<rparr>"

subsection \<open>An engine around a body\<close>

datatype engine_event = Opened string | Disposed string | DisposeFailed string

definition with_engine ::
  "'e engine_maker \<Rightarrow> (exn + unit) \<Rightarrow> string \<Rightarrow> ('e session_factory \<Rightarrow> 'w \<Rightarrow> (exn + 'a) \<times> 'w) \<Rightarrow> 'w
     \<Rightarrow> (exn + 'a) \<times> 'w \<times> engine_event list" where
  \<comment> \<open>try and finally: the engine is disposed whether the body returns or raises, an exception of the body
      goes on, one of \<^verbatim>\<open>dispose\<close> is logged only\<close>
  "with_engine create_engine dispose url body w =
     (case create_engine_from_url create_engine url of
        Inl e \<Rightarrow> (Inl e, w, [])
      | Inr engine \<Rightarrow> (case body (create_session_factory engine) w of (x, w') \<Rightarrow>
          (x, w', [Opened url, if isl dispose then DisposeFailed url else Disposed url])))"

subsection \<open>The HTTP process\<close>

definition create_app :: "(exn + settings) \<Rightarrow> settings option \<Rightarrow> 'v logging_state \<Rightarrow> exn + settings \<times> 'v logging_state" where
  "create_app loaded given log =
     then_do (case given of Some s \<Rightarrow> Inr s | None \<Rightarrow> loaded) (\<lambda>s. Inr (s, configure_logging (environment s) log))"

definition request_world :: "settings \<Rightarrow> db_env session_factory \<Rightarrow> world \<Rightarrow> world" where
  \<comment> \<open>\<^verbatim>\<open>app.state\<close>: the settings and the session factory are those of the application\<close>
  "request_world s factory W = W\<lparr>w_settings := s, w_deployment := (w_deployment W)\<lparr>dp_db := sf_bind factory\<rparr>\<rparr>"

fun serve_all :: "settings \<Rightarrow> db_env session_factory \<Rightarrow> (world \<times> http_request) list \<Rightarrow> db
    \<Rightarrow> (asgi_message list \<times> request_line option) list \<times> db" where
  "serve_all s factory [] d = ([], d)"
| "serve_all s factory ((W, rq) # rqs) d =
     (case serve (request_world s factory W) rq d of (reply, d1) \<Rightarrow>
      case serve_all s factory rqs d1 of (replies, d2) \<Rightarrow> (reply # replies, d2))"

definition app_process ::
  "(exn + settings) \<Rightarrow> settings option \<Rightarrow> 'v logging_state \<Rightarrow> db_env engine_maker \<Rightarrow> (exn + unit) \<Rightarrow> (exn + unit)
     \<Rightarrow> (world \<times> http_request) list \<Rightarrow> db
     \<Rightarrow> (exn + (asgi_message list \<times> request_line option) list) \<times> db \<times> engine_event list" where
  \<comment> \<open>created, started by the lifespan, the requests in the order they are handled, stopped; \<open>ending\<close> is what the
      server throws into the \<^verbatim>\<open>yield\<close> of the lifespan, if anything\<close>
  "app_process loaded given log create_engine dispose ending requests d =
     (case create_app loaded given log of
        Inl e \<Rightarrow> (Inl e, d, [])
      | Inr (s, log') \<Rightarrow> with_engine create_engine dispose (database_url s)
          (\<lambda>factory d. case serve_all s factory requests d of (replies, d') \<Rightarrow> (then_do ending (\<lambda>_. Inr replies), d')) d)"

subsection \<open>The worker process\<close>

definition worker_process ::
  "(exn + settings) \<Rightarrow> db_env engine_maker \<Rightarrow> (exn + unit) \<Rightarrow> (nat \<Rightarrow> int) \<Rightarrow> (nat \<Rightarrow> bool) \<Rightarrow> db
     \<Rightarrow> (exn + (nat \<times> notification list)) option \<times> db \<times> engine_event list" where
  \<comment> \<open>\<open>None\<close>, with the engine open: the loop does not return\<close>
  "worker_process loaded create_engine dispose clk stop d =
     (case loaded of
        Inl e \<Rightarrow> (Some (Inl e), d, [])
      | Inr s \<Rightarrow> (case with_engine create_engine dispose (database_url s) (\<lambda>factory d.
            case run_forever (worker_tick (sf_bind factory) console_send clk (nat (scheduler_batch_size s)))
                   (nat (scheduler_tick_seconds s)) stop 0 0 (d, []) of
              None \<Rightarrow> (Inr None, d) | Some (n, d', log) \<Rightarrow> (Inr (Some (n, log)), d')) d of
          (Inl e, d', events) \<Rightarrow> (Some (Inl e), d', events)
        | (Inr None, d', events) \<Rightarrow> (None, d', take 1 events)
        | (Inr (Some x), d', events) \<Rightarrow> (Some (Inr x), d', events)))"

text \<open>What it does to the rows is \<^verbatim>\<open>scheduler_main\<close>.\<close>

lemma worker_process_main:
  "scheduler_main build (create_engine_from_url create_engine) env clk stop d =
     (case worker_process (load_config build env) create_engine dispose clk stop d of
        (None, d', events) \<Rightarrow> Inr None
      | (Some (Inl e), d', events) \<Rightarrow> Inl e
      | (Some (Inr (n, log)), d', events) \<Rightarrow> Inr (Some (n, d', log)))"
  by (simp add: scheduler_main_def worker_process_def with_engine_def create_session_factory_def then_do_def
      split: sum.split option.split prod.split)

subsection \<open>Runs of requests\<close>

lemma serve_all_run:
  assumes "serve_all s factory requests d = (replies, d')"
  shows "program_step\<^sup>*\<^sup>* d d' \<and> length replies = length requests"
  using assms
proof (induction requests arbitrary: d replies)
  case (Cons x rqs)
  obtain W rq where x: "x = (W, rq)" by (cases x)
  obtain reply d1 where s: "serve (request_world s factory W) rq d = (reply, d1)" by fastforce
  obtain rest where r: "serve_all s factory rqs d1 = (rest, d')" "replies = reply # rest"
    using Cons.prems s x by (auto split: prod.splits)
  have "program_step d d1" using program_step.request [of d "request_world s factory W" rq] s by simp
  moreover have "program_step\<^sup>*\<^sup>* d1 d' \<and> length rest = length rqs" by (rule Cons.IH [OF r(1)])
  ultimately show ?case using r(2) by (auto intro: converse_rtranclp_into_rtranclp)
qed simp

text \<open>The life of the HTTP process: either its settings do not load or its engine cannot be made, then nothing was
  opened and no row has changed; or it opens one engine, to the address of its settings, every request is a
  step of the system, and the engine is disposed once, whether the server stops it with an exception or
  not.\<close>

lemma application_life:
  assumes "app_process loaded given log create_engine dispose ending requests d = (r, d', events)"
  shows "(\<exists>e. r = Inl e \<and> d' = d \<and> events = [] \<and> (given = None \<and> loaded = Inl e \<or>
       (\<exists>s. (given = Some s \<or> given = None \<and> loaded = Inr s) \<and> create_engine (database_url s) True True = Inl e))) \<or>
    (\<exists>s engine replies. (given = Some s \<or> given = None \<and> loaded = Inr s) \<and> create_engine (database_url s) True True = Inr engine \<and>
       r = (case ending of Inl e \<Rightarrow> Inl e | Inr u \<Rightarrow> Inr replies) \<and> length replies = length requests \<and>
       events = [Opened (database_url s), if isl dispose then DisposeFailed (database_url s) else Disposed (database_url s)] \<and>
       system_step\<^sup>*\<^sup>* d d' \<and> (db_integrity d \<longrightarrow> db_integrity d'))"
proof (cases "create_app loaded given log")
  case (Inl e)
  then have "given = None \<and> loaded = Inl e"
    by (cases loaded) (auto simp: create_app_def then_do_def split: option.splits)
  then show ?thesis using assms Inl by (auto simp: app_process_def)
next
  case (Inr x)
  obtain s log' where x: "x = (s, log')" by (cases x)
  then have s: "given = Some s \<or> given = None \<and> loaded = Inr s"
    using Inr by (auto simp: create_app_def then_do_eq_Inr split: option.splits)
  show ?thesis
  proof (cases "create_engine (database_url s) True True")
    case (Inl e)
    then show ?thesis using assms \<open>create_app loaded given log = Inr x\<close> x s
      by (auto simp: app_process_def with_engine_def create_engine_from_url_def)
  next
    case (Inr engine)
    obtain replies d2 where all: "serve_all s (create_session_factory engine) requests d = (replies, d2)" by fastforce
    then have eq: "r = (case ending of Inl e \<Rightarrow> Inl e | Inr u \<Rightarrow> Inr replies)" "d' = d2" "events = [Opened (database_url s),
        if isl dispose then DisposeFailed (database_url s) else Disposed (database_url s)]"
      using assms \<open>create_app loaded given log = Inr x\<close> x Inr
      by (auto simp: app_process_def with_engine_def create_engine_from_url_def then_do_def)
    have "system_step\<^sup>*\<^sup>* d d'" "length replies = length requests"
      using serve_all_run [OF all] program_run eq(2) by blast+
    then show ?thesis using s Inr eq(1,3) run_integrity by blast
  qed
qed

end
