(* ===== verification/Races.thy ===== *)
theory Races
  imports Scheduler ReminderUseCases TaskUseCases
begin

text \<open>
  Requests under READ COMMITTED: a PATCH loads and checks the row, and the flush sends an UPDATE of the
  changed columns by primary key later; the creation of a reminder reads the task and inserts later. Each is
  split in two (\<open>reminder_changes\<close> and \<open>flush_reminder\<close>, \<open>task_changes\<close> and \<open>flush_task\<close>), and other
  transactions may commit in between. Undisturbed, the two halves are the operations of \<^verbatim>\<open>TaskUseCases\<close> and
  \<^verbatim>\<open>ReminderUseCases\<close>.
\<close>

definition reminder_changes ::
  "db_env \<Rightarrow> uuid \<Rightarrow> datetime option \<Rightarrow> pyval \<Rightarrow> db \<Rightarrow> exn + reminder \<times> reminder" where
  \<comment> \<open>the row as loaded, and with its new attributes\<close>
  "reminder_changes E i at st d =
     then_do (get_reminder i d) (\<lambda>r.
       if r_status r = rem_status_value RS_SENT
       then Inl (InvalidReminderError ''A SENT reminder cannot be updated'')
       else then_do
         (case at of None \<Rightarrow> Inr ()
          | Some x \<Rightarrow> (case task_get (r_task_id r) d of None \<Rightarrow> Inl (TaskNotFoundError (r_task_id r))
              | Some t \<Rightarrow> if instant x > instant (t_deadline t)
                         then Inl (late_reminder_error x (t_deadline t)) else Inr ())) (\<lambda>_.
         then_do (check_status st) (\<lambda>sv.
           Inr (r, r\<lparr>r_remind_at := (case at of None \<Rightarrow> r_remind_at r | Some x \<Rightarrow> from_db E (instant x)),
                     r_status := (case sv of None \<Rightarrow> r_status r | Some s \<Rightarrow> s)\<rparr>))))"

definition flushed :: "'a \<Rightarrow> 'a \<Rightarrow> 'a \<Rightarrow> 'a" where
  \<comment> \<open>a column is written if its attribute has a net change, otherwise the stored one stays\<close>
  "flushed old new stored = (if new = old then stored else new)"

definition flush_reminder :: "db_env \<Rightarrow> reminder \<Rightarrow> reminder \<Rightarrow> int \<Rightarrow> db \<Rightarrow> exn + db" where
  \<comment> \<open>UPDATE reminders SET the changed columns WHERE id = ...; no changed column, no statement. If the row is
      gone, the UPDATE or, without one, the refresh raises\<close>
  "flush_reminder E old new updated d =
     (case reminder_get (r_id old) d of
        None \<Rightarrow> Inl (DbError ''the reminder to update is gone'')
      | Some r \<Rightarrow> Inr (if new = old then d
          else reminder_replace
                (r\<lparr>r_remind_at := flushed (r_remind_at old) (r_remind_at new) (r_remind_at r),
                   r_status := flushed (r_status old) (r_status new) (r_status r),
                   r_updated_at := from_db E updated\<rparr>) d))"

definition racing_update_reminder ::
  "db_env \<Rightarrow> int \<Rightarrow> uuid \<Rightarrow> datetime option \<Rightarrow> pyval \<Rightarrow> (db \<Rightarrow> db) \<Rightarrow> db \<Rightarrow> exn + db" where
  \<comment> \<open>\<open>other\<close> is what other transactions commit between the two halves\<close>
  "racing_update_reminder E updated i at st other d =
     then_do (reminder_changes E i at st d) (\<lambda>(old, new). flush_reminder E old new updated (other d))"

lemma update_reminder_halves:
  "update_reminder E clk i at st d =
     then_do (reminder_changes E i at st d) (\<lambda>(old, new). reminder_repo_update E old new (clk 0) d)"
  by (simp add: update_reminder_def reminder_changes_def then_do_def split: sum.split option.split)

lemma reminder_changes_Inr:
  assumes "reminder_changes E i at st d = Inr (old, new)"
  shows "reminder_get i d = Some old \<and> r_id old = i \<and> r_status old \<noteq> ''SENT'' \<and>
    new = old\<lparr>r_remind_at := r_remind_at new, r_status := r_status new\<rparr> \<and>
    (r_status new = r_status old \<or> r_status new \<in> assignable_statuses)"
  using assms reminder_table.get_SomeD [of i d old] check_status_Inr [of st]
  by (auto simp: reminder_changes_def then_do_eq_Inr get_reminder_Inr split: if_splits option.splits)

lemma flush_undisturbed:
  assumes "reminder_get (r_id old) d = Some old" and "new = old\<lparr>r_remind_at := r_remind_at new, r_status := r_status new\<rparr>"
  shows "flush_reminder E old new updated d = (case reminder_repo_update E old new updated d of Inl e \<Rightarrow> Inl e | Inr (r, d') \<Rightarrow> Inr d')"
proof -
  have "old\<lparr>r_remind_at := flushed (r_remind_at old) (r_remind_at new) (r_remind_at old),
      r_status := flushed (r_status old) (r_status new) (r_status old), r_updated_at := u\<rparr> = new\<lparr>r_updated_at := u\<rparr>" for u
    by (subst (3) assms(2)) (simp add: flushed_def)
  then show ?thesis using assms(1) by (simp add: flush_reminder_def reminder_repo_update_def Let_def)
qed

text \<open>Nobody in between: the operation as modelled.\<close>

lemma undisturbed_update:
  "racing_update_reminder E (clk 0) i at st (\<lambda>d. d) d =
     (case update_reminder E clk i at st d of Inl e \<Rightarrow> Inl e | Inr (r, d') \<Rightarrow> Inr d')"
proof (cases "reminder_changes E i at st d")
  case (Inr p)
  obtain old new where p: "p = (old, new)" by (cases p)
  from reminder_changes_Inr [OF Inr [unfolded p]] have "reminder_get (r_id old) d = Some old"
    "new = old\<lparr>r_remind_at := r_remind_at new, r_status := r_status new\<rparr>" by auto
  from flush_undisturbed [OF this, of E "clk 0"] show ?thesis
    using Inr p by (simp add: racing_update_reminder_def update_reminder_halves)
qed (simp add: racing_update_reminder_def update_reminder_halves)

subsection \<open>PATCH of a task and creation of a reminder\<close>

definition task_changes ::
  "(nat \<Rightarrow> int) \<Rightarrow> uuid \<Rightarrow> pyval \<Rightarrow> pyval option \<Rightarrow> datetime option \<Rightarrow> pyval \<Rightarrow> pyval
     \<Rightarrow> pyval option \<Rightarrow> db \<Rightarrow> exn + task \<times> task_patch" where
  \<comment> \<open>the row as loaded and the attributes set on it\<close>
  "task_changes clk i name desc dl prio st dur d =
     then_do (get_task i d) (\<lambda>t.
     then_do (case dl of None \<Rightarrow> Inr ()
              | Some x \<Rightarrow> if instant x < clk 0 then Inl (past_deadline_error x) else Inr ()) (\<lambda>_.
     then_do (case dur of None \<Rightarrow> Inr False | Some v \<Rightarrow> if v = PNone then Inr False else nonpositive v) (\<lambda>bad.
       if bad then Inl (InvalidTaskError ''duration_minutes must be a positive integer or null'')
       else Inr (t, \<lparr>p_name = unless_none name, p_description = desc, p_deadline = dl,
               p_priority = unless_none prio, p_status = unless_none st, p_duration = dur\<rparr>))))"

definition flush_task :: "db_env \<Rightarrow> task \<Rightarrow> task_patch \<Rightarrow> int \<Rightarrow> task act" where
  \<comment> \<open>as \<open>flush_reminder\<close>, and the refresh returns the stored row\<close>
  "flush_task E t p updated d =
     then_do (bind_patch E t p) (\<lambda>t'.
       case task_get (t_id t) d of
         None \<Rightarrow> Inl (DbError ''the task to update is gone'')
       | Some r \<Rightarrow>
           if t' = t then Inr (r, d)
           else (let r' = r\<lparr>t_name := flushed (t_name t) (t_name t') (t_name r),
                     t_description := flushed (t_description t) (t_description t') (t_description r),
                     t_deadline := flushed (t_deadline t) (t_deadline t') (t_deadline r),
                     t_duration := flushed (t_duration t) (t_duration t') (t_duration r),
                     t_priority := flushed (t_priority t) (t_priority t') (t_priority r),
                     t_status := flushed (t_status t) (t_status t') (t_status r),
                     t_updated_at := from_db E updated\<rparr>
                 in Inr (r', task_replace r' d)))"

definition racing_update_task ::
  "db_env \<Rightarrow> (nat \<Rightarrow> int) \<Rightarrow> uuid \<Rightarrow> pyval \<Rightarrow> pyval option \<Rightarrow> datetime option \<Rightarrow> pyval \<Rightarrow> pyval
     \<Rightarrow> pyval option \<Rightarrow> (db \<Rightarrow> db) \<Rightarrow> task act" where
  "racing_update_task E clk i name desc dl prio st dur other d =
     then_do (task_changes clk i name desc dl prio st dur d) (\<lambda>(t, p). flush_task E t p (clk 1) (other d))"

definition racing_create_reminder ::
  "db_env \<Rightarrow> (nat \<Rightarrow> int) \<Rightarrow> uuid \<Rightarrow> uuid \<Rightarrow> datetime \<Rightarrow> (db \<Rightarrow> db) \<Rightarrow> reminder act" where
  \<comment> \<open>the deadline is the one read, the INSERT meets the foreign key when it is sent\<close>
  "racing_create_reminder E clk i tid at other d =
     (case task_get tid d of None \<Rightarrow> Inl (TaskNotFoundError tid)
      | Some t \<Rightarrow>
          if instant at > instant (t_deadline t) then Inl (late_reminder_error at (t_deadline t))
          else reminder_repo_create
                 \<lparr>r_id = i, r_task_id = tid, r_remind_at = from_db E (instant at),
                  r_status = rem_status_value RS_PENDING,
                  r_created_at = from_db E (clk 0), r_updated_at = from_db E (clk 1)\<rparr> (other d))"

lemma update_task_halves:
  "update_task E clk i name desc dl prio st dur d =
     then_do (task_changes clk i name desc dl prio st dur d) (\<lambda>(t, p). task_repo_update E t p (clk 1) d)"
  by (simp add: update_task_def task_changes_def then_do_def split: sum.split)

lemma undisturbed_create: "racing_create_reminder E clk i tid at (\<lambda>d. d) d = create_reminder E clk i tid at d"
  by (simp add: racing_create_reminder_def create_reminder_def)

lemma flushed_same [simp]: "flushed old new old = new"
  by (simp add: flushed_def)

text \<open>A patch sets the same values whatever row it is applied to; the other columns are those of the row.\<close>

lemma bind_patch_other_row:
  assumes "bind_patch E t p = Inr t'"
  shows "bind_patch E r p = Inr (r\<lparr>
      t_name := (if p_name p = None then t_name r else t_name t'),
      t_description := (if p_description p = None then t_description r else t_description t'),
      t_deadline := (if p_deadline p = None then t_deadline r else t_deadline t'),
      t_duration := (if p_duration p = None then t_duration r else t_duration t'),
      t_priority := (if p_priority p = None then t_priority r else t_priority t'),
      t_status := (if p_status p = None then t_status r else t_status t')\<rparr>)"
proof -
  have set_field_other: "set_field b v old = Inr x \<Longrightarrow> set_field b v cur = Inr (if v = None then cur else x)"
    for b :: "'v \<Rightarrow> exn + 'c" and v old cur x
    by (auto simp: set_field_def split: option.splits)
  obtain nm ds du pr sv where f: "set_field (bind_name E) (p_name p) (t_name t) = Inr nm"
    "set_field (bind_text E) (p_description p) (t_description t) = Inr ds"
    "set_field (bind_int E) (p_duration p) (t_duration t) = Inr du"
    "set_field (bind_str E) (p_priority p) (t_priority t) = Inr pr"
    "set_field (bind_str E) (p_status p) (t_status t) = Inr sv"
    and t': "t' = t\<lparr>t_name := nm, t_description := ds,
      t_deadline := (case p_deadline p of None \<Rightarrow> t_deadline t | Some x \<Rightarrow> from_db E (instant x)),
      t_duration := du, t_priority := pr, t_status := sv\<rparr>"
    using assms unfolding bind_patch_def then_do_eq_Inr by auto
  show ?thesis
    unfolding bind_patch_def t'
    by (simp add: f [THEN set_field_other] then_do_def split: option.split)
qed

lemma task_changes_Inr:
  "task_changes clk i name desc dl prio st dur d = Inr (t, p) \<Longrightarrow> task_get i d = Some t"
  by (auto simp: task_changes_def then_do_eq_Inr get_task_Inr split: if_splits)

lemma task_changes_other:
  assumes "task_changes clk i name desc dl prio st dur d = Inr (t, p)" and "task_get i d2 = Some r"
    and "\<forall>x. dl = Some x \<longrightarrow> clk' 0 \<le> instant x"
  shows "task_changes clk' i name desc dl prio st dur d2 = Inr (r, p)"
proof -
  have g: "get_task i d = Inr t" "get_task i d2 = Inr r"
    using task_changes_Inr [OF assms(1)] assms(2) by (simp_all add: get_task_Inr)
  show ?thesis
    using assms(1,3) unfolding task_changes_def g then_do_def
    by (cases dl) (simp_all add: not_less split: sum.splits if_split_asm)
qed

definition changes_all :: "task_patch \<Rightarrow> task \<Rightarrow> task \<Rightarrow> bool" where
  \<comment> \<open>every field of the patch differs from the loaded row\<close>
  "changes_all p t t' \<longleftrightarrow> (p_name p \<noteq> None \<longrightarrow> t_name t' \<noteq> t_name t) \<and>
     (p_description p \<noteq> None \<longrightarrow> t_description t' \<noteq> t_description t) \<and> (p_deadline p \<noteq> None \<longrightarrow> t_deadline t' \<noteq> t_deadline t) \<and>
     (p_duration p \<noteq> None \<longrightarrow> t_duration t' \<noteq> t_duration t) \<and> (p_priority p \<noteq> None \<longrightarrow> t_priority t' \<noteq> t_priority t) \<and>
     (p_status p \<noteq> None \<longrightarrow> t_status t' \<noteq> t_status t)"

subsection \<open>Properties\<close>

text \<open>C24: A SENT reminder is frozen only against updates that start after the tick: a PATCH that loaded the row
  while it was PENDING and flushes after the tick has committed is not refused. Its owner has been
  notified; then the row says CANCELLED, or stays SENT with the new time and is never notified again. One
  after the other, the same PATCH is refused.\<close>

theorem racing_patch_changes_sent:
  assumes "db_integrity d" and "\<And>x. commit_exn E x = None" and "r \<in> set (find_due limit now d)"
    and "reminder_changes E (r_id r) at st d = Inr (r, new)" and "new \<noteq> r"
  shows "\<exists>res log d1 d2 q q'. run_once E send quiet now limit d = (Inr res, log, d1) \<and> claimed_row now r \<in> fst ` set log \<and>
    reminder_get (r_id r) d1 = Some q \<and> r_status q = ''SENT'' \<and>
    update_reminder E clk (r_id r) at st d1 = Inl (InvalidReminderError ''A SENT reminder cannot be updated'') \<and>
    racing_update_reminder E updated (r_id r) at st (\<lambda>_. d1) d = Inr d2 \<and> reminder_get (r_id r) d2 = Some q' \<and>
    r_remind_at q' = r_remind_at new \<and> r_status q' = (if r_status new = ''PENDING'' then ''SENT'' else ''CANCELLED'')"
proof -
  let ?due = "find_due limit now d"
  let ?d1 = "set_sent E now (r_id ` set ?due) d"
  have due: "reminder_due now r" "?due \<noteq> []" using find_due_members [OF assms(3)] assms(3) by auto
  from reminder_changes_Inr [OF assms(4)] have get: "reminder_get (r_id r) d = Some r"
    and new: "new = r\<lparr>r_remind_at := r_remind_at new, r_status := r_status new\<rparr>"
      "r_status new = r_status r \<or> r_status new \<in> assignable_statuses" by auto
  have pending: "r_status r = ''PENDING''" using due(1) by (simp add: reminder_due_def)
  have st: "r_status new = ''PENDING'' \<or> r_status new = ''CANCELLED''"
    using new(2) pending by (auto simp: assignable_statuses_def)
  define q where "q = r\<lparr>r_status := ''SENT'', r_updated_at := from_db E now\<rparr>"
  have q: "reminder_get (r_id r) ?d1 = Some q"
    using get due(1) assms(3) by (simp add: reminder_get_set_sent sent_if_def q_def)
  obtain res where run: "run_once E send quiet now limit d = (Inr res, map (notify now d) ?due, ?d1)"
    using run_once_quiet [OF assms(1), of E send now limit] due(2) assms(2) by (simp add: Let_def)
  let ?q' = "q\<lparr>r_remind_at := r_remind_at new, r_status := (if r_status new = ''PENDING'' then ''SENT'' else ''CANCELLED''),
      r_updated_at := from_db E updated\<rparr>"
  have "racing_update_reminder E updated (r_id r) at st (\<lambda>_. ?d1) d = Inr (reminder_replace ?q' ?d1)"
    using assms(4,5) q st pending by (auto simp: racing_update_reminder_def flush_reminder_def flushed_def q_def)
  moreover have "reminder_get (r_id r) (reminder_replace ?q' ?d1) = Some ?q'"
    using q reminder_table.get_upd [of ?q' ?d1 q] by (simp add: q_def)
  moreover have "update_reminder E clk (r_id r) at st ?d1 = Inl (InvalidReminderError ''A SENT reminder cannot be updated'')"
    using q by (simp add: update_reminder_def get_reminder_def q_def)
  moreover have "claimed_row now r \<in> fst ` set (map (notify now d) ?due)" using assms(3) by (force simp: notify_def)
  ultimately show ?thesis using run q
    by (intro exI [of _ res] exI [of _ "map (notify now d) ?due"] exI [of _ ?d1] exI [of _ "reminder_replace ?q' ?d1"]
        exI [of _ q] exI [of _ ?q'] conjI) (simp_all add: q_def)
qed

lemma racing_patch_changes_sent_witness:
  "\<exists>d1 d2 q'. snd (snd (run_once pg_env console_send quiet 600 10 sample_db)) = d1 \<and>
     racing_update_reminder pg_env 700 2 None (PStr ''CANCELLED'') (\<lambda>_. d1) sample_db = Inr d2 \<and>
     reminder_get 2 d2 = Some q' \<and> r_status q' = ''CANCELLED''"
proof -
  let ?r = "sample_reminder 2 1 500 RS_PENDING"
  have due: "?r \<in> set (find_due 10 600 sample_db)" by (simp add: find_due_def reminder_due_def sample_simps)
  have changes: "reminder_changes pg_env (r_id ?r) None (PStr ''CANCELLED'') sample_db = Inr (?r, ?r\<lparr>r_status := ''CANCELLED''\<rparr>)"
    by (simp add: reminder_changes_def get_reminder_def reminder_get_def check_status_def assignable_statuses_def sample_simps)
  have diff: "?r\<lparr>r_status := ''CANCELLED''\<rparr> \<noteq> ?r" by (simp add: sample_simps)
  have commits: "commit_exn pg_env x = None" for x by simp
  have "r_id ?r = 2" by (simp add: sample_simps)
  with racing_patch_changes_sent [OF integrity_sample_db commits due changes diff, of console_send "\<lambda>_. 0" 700]
  show ?thesis by force
qed

lemma changed_fields:
  assumes "bind_patch E t p = Inr t'" and "changes_all p t t'"
  shows "flushed (t_name t) (t_name t') v1 = (if p_name p = None then v1 else t_name t')"
    and "flushed (t_description t) (t_description t') v2 = (if p_description p = None then v2 else t_description t')"
    and "flushed (t_deadline t) (t_deadline t') v3 = (if p_deadline p = None then v3 else t_deadline t')"
    and "flushed (t_duration t) (t_duration t') v4 = (if p_duration p = None then v4 else t_duration t')"
    and "flushed (t_priority t) (t_priority t') v1 = (if p_priority p = None then v1 else t_priority t')"
    and "flushed (t_status t) (t_status t') v1 = (if p_status p = None then v1 else t_status t')"
proof -
  have t': "t' = t\<lparr>
      t_name := (if p_name p = None then t_name t else t_name t'),
      t_description := (if p_description p = None then t_description t else t_description t'),
      t_deadline := (if p_deadline p = None then t_deadline t else t_deadline t'),
      t_duration := (if p_duration p = None then t_duration t else t_duration t'),
      t_priority := (if p_priority p = None then t_priority t else t_priority t'),
      t_status := (if p_status p = None then t_status t else t_status t')\<rparr>"
    using bind_patch_other_row [OF assms(1), of t] assms(1) by simp
  have "p_name p = None \<longrightarrow> t_name t' = t_name t" "p_description p = None \<longrightarrow> t_description t' = t_description t"
    "p_deadline p = None \<longrightarrow> t_deadline t' = t_deadline t" "p_duration p = None \<longrightarrow> t_duration t' = t_duration t"
    "p_priority p = None \<longrightarrow> t_priority t' = t_priority t" "p_status p = None \<longrightarrow> t_status t' = t_status t"
    by (subst t', simp)+
  then show "flushed (t_name t) (t_name t') v1 = (if p_name p = None then v1 else t_name t')"
    "flushed (t_description t) (t_description t') v2 = (if p_description p = None then v2 else t_description t')"
    "flushed (t_deadline t) (t_deadline t') v3 = (if p_deadline p = None then v3 else t_deadline t')"
    "flushed (t_duration t) (t_duration t') v4 = (if p_duration p = None then v4 else t_duration t')"
    "flushed (t_priority t) (t_priority t') v1 = (if p_priority p = None then v1 else t_priority t')"
    "flushed (t_status t) (t_status t') v1 = (if p_status p = None then v1 else t_status t')"
    using assms(2) by (auto simp: changes_all_def flushed_def)
qed

lemma replace_same:
  assumes "db_integrity d" and "task_get i d = Some r"
  shows "task_replace r d = d"
proof -
  have "map (\<lambda>x. if t_id x = t_id r then r else x) (tasks d) = tasks d"
    using assms task_table.get_SomeD [OF assms(2)]
    by (intro map_idI) (auto simp: db_integrity_def distinct_map inj_on_def)
  then show ?thesis by (simp add: task_replace_def replace_row_def)
qed

lemma undisturbed_update_task:
  "racing_update_task E clk i name desc dl prio st dur (\<lambda>d. d) d = update_task E clk i name desc dl prio st dur d"
proof (cases "task_changes clk i name desc dl prio st dur d")
  case (Inr tp)
  obtain t p where tp: "tp = (t, p)" by (cases tp)
  then have t: "task_get i d = Some t" "t_id t = i"
    using task_changes_Inr Inr task_table.get_SomeD by blast+
  have "flush_task E t p (clk 1) d = task_repo_update E t p (clk 1) d"
  proof (cases "bind_patch E t p")
    case (Inr t')
    have "t_id t' = t_id t \<and> t_created_at t' = t_created_at t \<and> t_updated_at t' = t_updated_at t"
      by (rule bind_patch_fixed [OF Inr])
    then have "t\<lparr>t_name := t_name t', t_description := t_description t', t_deadline := t_deadline t', t_duration := t_duration t',
        t_priority := t_priority t', t_status := t_status t', t_updated_at := v\<rparr> = t'\<lparr>t_updated_at := v\<rparr>" for v
      by simp
    then show ?thesis using Inr t by (simp add: flush_task_def task_repo_update_def Let_def)
  qed (simp add: flush_task_def task_repo_update_def)
  then show ?thesis using Inr tp by (simp add: racing_update_task_def update_task_halves)
qed (simp add: racing_update_task_def update_task_halves)

text \<open>Whatever happens in between, a reminder is stored only for a stored task; but it may be later than a
  deadline that was moved in the meantime, where the same request one moment later is refused.\<close>

lemma racing_create_keeps_integrity:
  assumes "racing_create_reminder E clk i tid at other d = Inr (r, d')" and "db_integrity (other d)"
  shows "db_integrity d' \<and> task_get tid (other d) \<noteq> None"
  using assms integrity_reminder_insert [of "other d" r] task_table.get_None_iff [of tid "other d"]
  by (auto simp: racing_create_reminder_def reminder_repo_create_def split: option.splits if_splits)

lemma racing_create_after_deadline:
  assumes "task_get tid d = Some t" and "instant at \<le> instant (t_deadline t)" and "reminder_get i (other d) = None"
    and "task_get tid (other d) = Some t'" and "instant (t_deadline t') < instant at"
  shows "\<exists>r d'. racing_create_reminder E clk i tid at other d = Inr (r, d') \<and> instant (r_remind_at r) > instant (t_deadline t') \<and>
    create_reminder E clk i tid at (other d) = Inl (late_reminder_error at (t_deadline t'))"
  using assms by (simp add: racing_create_reminder_def create_reminder_def reminder_repo_create_def not_less)

text \<open>C12: PATCHes of one task are serializable: compare a PATCH that loaded the row, was overtaken by whatever other
  transactions committed, and flushes then, with the same PATCH coming after them, at any later time at
  which the deadline it may set is not yet past. If the task is still there and each field the PATCH sets
  differed from the row it loaded, both answer and store the same up to \<^verbatim>\<open>updated_at\<close>, so no committed change
  of a field it does not name is lost. If the task is gone, both store nothing, but the overtaken one fails
  with an error of the database instead of not-found.\<close>

theorem racing_patches_serialize:
  assumes "db_integrity (other d)" and "task_changes clk i name desc dl prio st dur d = Inr (t, p)"
    and "bind_patch E t p = Inr t'" and "changes_all p t t'" and "\<forall>x. dl = Some x \<longrightarrow> clk' 0 \<le> instant x"
  shows "case task_get i (other d) of
    None \<Rightarrow> racing_update_task E clk i name desc dl prio st dur other d = Inl (DbError ''the task to update is gone'') \<and>
      update_task E clk' i name desc dl prio st dur (other d) = Inl (TaskNotFoundError i)
  | Some r \<Rightarrow> \<exists>q q' d1 d2. racing_update_task E clk i name desc dl prio st dur other d = Inr (q, d1) \<and>
      update_task E clk' i name desc dl prio st dur (other d) = Inr (q', d2) \<and>
      q\<lparr>t_updated_at := u\<rparr> = q'\<lparr>t_updated_at := u\<rparr> \<and> d1 = task_replace q (other d) \<and> d2 = task_replace q' (other d)"
proof (cases "task_get i (other d)")
  case None
  have "t_id t = i" using task_table.get_SomeD [OF task_changes_Inr [OF assms(2)]] by simp
  then show ?thesis using None assms(2,3) by (simp add: racing_update_task_def flush_task_def update_task_def get_task_def)
next
  case (Some r)
  let ?r = "r\<lparr>t_name := (if p_name p = None then t_name r else t_name t'),
      t_description := (if p_description p = None then t_description r else t_description t'),
      t_deadline := (if p_deadline p = None then t_deadline r else t_deadline t'),
      t_duration := (if p_duration p = None then t_duration r else t_duration t'),
      t_priority := (if p_priority p = None then t_priority r else t_priority t'),
      t_status := (if p_status p = None then t_status r else t_status t')\<rparr>"
  have id: "t_id t = i" using task_table.get_SomeD [OF task_changes_Inr [OF assms(2)]] by simp
  have same: "task_replace r (other d) = other d" by (rule replace_same [OF assms(1) Some])
  have seq: "update_task E clk' i name desc dl prio st dur (other d) = task_repo_update E r p (clk' 1) (other d)"
    using task_changes_other [where clk' = clk', OF assms(2) Some assms(5)] by (simp add: update_task_halves)
  have bound: "bind_patch E r p = Inr ?r" by (rule bind_patch_other_row [OF assms(3)])
  have "\<exists>q' d2. task_repo_update E r p (clk' 1) (other d) = Inr (q', d2) \<and>
      q'\<lparr>t_updated_at := u\<rparr> = ?r\<lparr>t_updated_at := u\<rparr> \<and> d2 = task_replace q' (other d)"
  proof (cases "?r = r")
    case True
    then show ?thesis using bound same by (simp add: task_repo_update_def)
  next
    case False
    then show ?thesis using bound by (simp add: task_repo_update_def Let_def)
  qed
  moreover have "\<exists>q d1. racing_update_task E clk i name desc dl prio st dur other d = Inr (q, d1) \<and>
      q\<lparr>t_updated_at := u\<rparr> = ?r\<lparr>t_updated_at := u\<rparr> \<and> d1 = task_replace q (other d)"
  proof (cases "t' = t")
    case True
    then have "?r = r" using assms(4) by (simp add: changes_all_def)
    then show ?thesis using True assms(2,3) Some id same by (simp add: racing_update_task_def flush_task_def)
  next
    case False
    then show ?thesis using assms(2,3) Some id changed_fields [OF assms(3,4)]
      by (simp add: racing_update_task_def flush_task_def Let_def)
  qed
  ultimately show ?thesis unfolding Some option.case seq by metis
qed

lemma racing_patches_serialize_witness:
  "\<exists>q q' d1 d2. racing_update_task pg_env (\<lambda>_. 100) 1 (PStr ''Plan'') None None PNone PNone None
       (task_replace (sample_task 1 700)) sample_db = Inr (q, d1) \<and>
     update_task pg_env (\<lambda>_. 200) 1 (PStr ''Plan'') None None PNone PNone None (task_replace (sample_task 1 700) sample_db) = Inr (q', d2) \<and>
     q\<lparr>t_updated_at := utc 0\<rparr> = q'\<lparr>t_updated_at := utc 0\<rparr>"
proof -
  let ?p = "\<lparr>p_name = Some (PStr ''Plan''), p_description = None, p_deadline = None, p_priority = None, p_status = None, p_duration = None\<rparr>"
  have c: "task_changes (\<lambda>_. 100) 1 (PStr ''Plan'') None None PNone PNone None sample_db = Inr (sample_task 1 1000, ?p)"
    by (simp add: task_changes_def get_task_def task_get_def unless_none_def sample_simps)
  have "bind_name pg_env (PStr ''Plan'') = Inr ''Plan''" by code_simp
  then have b: "bind_patch pg_env (sample_task 1 1000) ?p = Inr ((sample_task 1 1000)\<lparr>t_name := ''Plan''\<rparr>)"
    by (simp add: bind_patch_def set_field_def sample_simps)
  have d: "changes_all ?p (sample_task 1 1000) ((sample_task 1 1000)\<lparr>t_name := ''Plan''\<rparr>)"
    by (simp add: changes_all_def sample_simps)
  have g: "task_get 1 (task_replace (sample_task 1 700) sample_db) = Some (sample_task 1 700)"
    by (simp add: task_get_def task_replace_def replace_row_def sample_simps)
  show ?thesis
    using racing_patches_serialize [where other = "task_replace (sample_task 1 700)" and d = sample_db and u = "utc 0" and clk' = "\<lambda>_. 200",
        OF integrity_task_replace [OF integrity_sample_db] c b d] unfolding g by simp blast
qed

end
