(* ===== verification/IsoText.thy ===== *)
theory IsoText
  imports DatetimeUtils DateRange
begin

text \<open>
  \<^verbatim>\<open>isoformat\<close> and \<^verbatim>\<open>parse_iso_datetime\<close> against each other: what is printed, with any offset and down to the
  microsecond, is read back as the same instant.
\<close>

subsection \<open>Groups of digits\<close>

lemma digit_facts: "d < 10 \<Longrightarrow> is_digit (digit d)" "d < 10 \<Longrightarrow> digit_val (digit d) = int d"
  by (simp_all add: is_digit_def digit_val_def digit_def)

lemma dec_val_snoc: "dec_val (xs @ [c]) = 10 * dec_val xs + digit_val c"
  by (simp add: dec_val_def)

lemma nat_digits_read: "list_all is_digit (nat_digits n) \<and> dec_val (nat_digits n) = int n"
proof (induction n rule: nat_digits.induct)
  case (1 n)
  have "10 * int (n div 10) + int (n mod 10) = int n"
    using mult_div_mod_eq [of 10 n] by linarith
  then show ?case using 1
    by (subst (1 2) nat_digits.simps) (simp add: digit_facts dec_val_snoc dec_val_def)
qed

lemma length_nat_digits: "n < 10 ^ Suc k \<Longrightarrow> length (nat_digits n) \<le> Suc k"
proof (induction k arbitrary: n)
  case (Suc k)
  then have "n div 10 < 10 ^ Suc k" by simp
  from Suc.IH [OF this] show ?case by (subst nat_digits.simps) simp
qed (subst nat_digits.simps, simp)

lemma dec_val_zeros: "dec_val (replicate k CHR ''0'' @ s) = dec_val s"
  by (induction k) (simp_all add: dec_val_def digit_val_def)

lemma pad0_read:
  assumes "0 \<le> i" and "i < 10 ^ Suc k"
  shows "length (pad0 (Suc k) i) = Suc k \<and> list_all is_digit (pad0 (Suc k) i) \<and> dec_val (pad0 (Suc k) i) = i"
proof -
  have "nat i < 10 ^ Suc k" using assms by (simp add: nat_less_iff)
  from length_nat_digits [OF this] show ?thesis
    using nat_digits_read [of "nat i"] assms(1) by (simp add: pad0_def Let_def dec_val_zeros list_all_iff) (auto simp: is_digit_def)
qed

lemma pad0_2: "0 \<le> i \<Longrightarrow> i < 100 \<Longrightarrow> \<exists>a b. pad0 2 i = [a, b] \<and> is_digit a \<and> is_digit b \<and> dec_val [a, b] = i"
  using pad0_read [of i 1] by (auto simp: numeral_2_eq_2 length_Suc_conv)

lemma pad0_4: "0 \<le> i \<Longrightarrow> i < 10000 \<Longrightarrow> \<exists>a b c d. pad0 4 i = [a, b, c, d] \<and> is_digit a \<and> is_digit b \<and> is_digit c \<and> is_digit d \<and>
    dec_val [a, b, c, d] = i"
  using pad0_read [of i 3] by (auto simp: eval_nat_numeral length_Suc_conv)

lemma pad0_6: "0 \<le> i \<Longrightarrow> i < 1000000 \<Longrightarrow> \<exists>a b c d e f. pad0 6 i = [a, b, c, d, e, f] \<and> is_digit a \<and> is_digit b \<and> is_digit c \<and>
    is_digit d \<and> is_digit e \<and> is_digit f \<and> dec_val [a, b, c, d, e, f] = i"
  using pad0_read [of i 5] by (auto simp: eval_nat_numeral length_Suc_conv)

lemma digit_is_no_mark:
  "is_digit c \<Longrightarrow> c \<noteq> CHR ''-'' \<and> c \<noteq> CHR ''+'' \<and> c \<noteq> CHR '':'' \<and> c \<noteq> CHR ''.'' \<and> c \<noteq> CHR '','' \<and> c \<noteq> CHR ''W'' \<and> c \<noteq> CHR ''Z''
     \<and> \<not> is_continuation c"
  by (auto simp: is_digit_def is_continuation_def)

subsection \<open>A time of day\<close>

definition clock_text :: "int \<Rightarrow> int \<Rightarrow> int \<Rightarrow> int \<Rightarrow> string" where
  "clock_text h m s us = pad0 2 h @ '':'' @ pad0 2 m @ '':'' @ pad0 2 s @ (if us \<noteq> 0 then ''.'' @ pad0 6 us else [])"

lemma num_read:
  assumes "drop pos s = ds @ rest" and "length ds = n" and "0 < n" and "list_all is_digit ds"
  shows "num s pos n = Inr (dec_val ds)"
  using assms by (simp add: num_def slice_def)

lemma time_step:
  assumes "num s pos 2 = Inr v" and "pos + 2 \<le> length s" and "q = pos + 2" and "char_at s q = nxt" and "n = Suc k"
    and "colon = (if acc = [] then nxt = Some CHR '':'' else sep)"
  shows "time_comps n s sep pos acc =
    (if nxt = None \<or> k = 0 then Inr (acc @ [v], q) else if colon \<and> nxt \<noteq> Some CHR '':'' then Inl iso_error
     else time_comps k s colon (if colon then q + 1 else q) (acc @ [v]))"
proof -
  have "\<not> length s - pos < 2" using assms(2) by linarith
  then show ?thesis using assms by (simp add: Let_def)
qed

lemma read_minutes:
  assumes "0 \<le> h" "h < 100" "0 \<le> m" "m < 100"
  shows "parse_hh_mm_ss_ff (pad0 2 h @ '':'' @ pad0 2 m) = Inr (h, m, 0, 0)"
proof -
  obtain a b where h: "pad0 2 h = [a, b]" "is_digit a" "is_digit b" "dec_val [a, b] = h" using pad0_2 assms by blast
  obtain c d where m: "pad0 2 m = [c, d]" "is_digit c" "is_digit d" "dec_val [c, d] = m" using pad0_2 assms by blast
  define t where "t = [a, b, CHR '':'', c, d]"
  have num: "num t 0 2 = Inr h" "num t 3 2 = Inr m"
    using h m num_read [of 0 t "[a, b]" _ 2] num_read [of 3 t "[c, d]" "[]" 2] by (simp_all add: t_def)
  have t: "length t = 5" "char_at t 2 = Some CHR '':''" "char_at t 5 = None"
    by (simp_all add: t_def char_at_def)
  have "time_comps 3 t False 0 [] = time_comps 2 t True 3 [h]"
    by (subst time_step [OF num(1), where q = 2 and k = 2 and nxt = "Some CHR '':''" and colon = True]) (simp_all add: t)
  also have "\<dots> = Inr ([h, m], 5)"
    by (subst time_step [OF num(2), where q = 5 and k = 1 and nxt = None and colon = True]) (simp_all add: t)
  finally have "parse_hh_mm_ss_ff t = Inr (h, m, 0, 0)"
    using t(1) by (simp add: parse_hh_mm_ss_ff_def Let_def)
  then show ?thesis by (simp add: t_def h(1) m(1))
qed

lemma read_clock:
  assumes "0 \<le> h" "h < 100" "0 \<le> m" "m < 100" "0 \<le> s" "s < 100" "0 \<le> us" "us < 1000000"
  shows "parse_hh_mm_ss_ff (clock_text h m s us) = Inr (h, m, s, us)"
proof -
  obtain a b where h: "pad0 2 h = [a, b]" "is_digit a" "is_digit b" "dec_val [a, b] = h" using pad0_2 assms by blast
  obtain c d where m: "pad0 2 m = [c, d]" "is_digit c" "is_digit d" "dec_val [c, d] = m" using pad0_2 assms by blast
  obtain e f where s: "pad0 2 s = [e, f]" "is_digit e" "is_digit f" "dec_val [e, f] = s" using pad0_2 assms by blast
  have us: "length (pad0 6 us) = 6" "list_all is_digit (pad0 6 us)" "dec_val (pad0 6 us) = us"
    using pad0_read [of us 5] assms by simp_all
  define rest where "rest = (if us \<noteq> 0 then ''.'' @ pad0 6 us else [])"
  define t where "t = [a, b, CHR '':'', c, d, CHR '':'', e, f] @ rest"
  have num: "num t 0 2 = Inr h" "num t 3 2 = Inr m" "num t 6 2 = Inr s"
    using h m s num_read [of 0 t "[a, b]" _ 2] num_read [of 3 t "[c, d]" _ 2] num_read [of 6 t "[e, f]" rest 2]
    by (simp_all add: t_def)
  have t: "char_at t 2 = Some CHR '':''" "char_at t 5 = Some CHR '':''" "8 \<le> length t"
    by (simp_all add: t_def char_at_def)
  have "time_comps 3 t False 0 [] = time_comps 2 t True 3 [h]"
    by (subst time_step [OF num(1), where q = 2 and k = 2 and nxt = "Some CHR '':''" and colon = True]) (use t in simp_all)
  also have "\<dots> = time_comps 1 t True 6 [h, m]"
    by (subst time_step [OF num(2), where q = 5 and k = 1 and nxt = "Some CHR '':''" and colon = True]) (use t in simp_all)
  also have "\<dots> = Inr ([h, m, s], 8)"
    by (subst time_step [OF num(3), where q = 8 and k = 0 and nxt = "char_at t 8" and colon = True]) (use t in simp_all)
  finally have comps: "time_comps 3 t False 0 [] = Inr ([h, m, s], 8)" .
  have "parse_hh_mm_ss_ff t = Inr (h, m, s, us)"
  proof (cases "us = 0")
    case True
    then have "length t = 8" by (simp add: t_def rest_def)
    then show ?thesis using comps True by (simp add: parse_hh_mm_ss_ff_def Let_def)
  next
    case False
    then have t: "t = [a, b, CHR '':'', c, d, CHR '':'', e, f, CHR ''.''] @ pad0 6 us" by (simp add: t_def rest_def)
    have "num t 9 6 = Inr us" using us num_read [of 9 t "pad0 6 us" "[]"] by (simp add: t)
    moreover have "length t = 15" "t ! 8 = CHR ''.''" using us by (simp_all add: t)
    ultimately show ?thesis using comps by (simp add: parse_hh_mm_ss_ff_def Let_def)
  qed
  then show ?thesis by (simp add: t_def rest_def clock_text_def h(1) m(1) s(1))
qed

lemma pad0_digits:
  assumes "0 \<le> i" and "i < 100" and "c \<in> set (pad0 2 i)"
  shows "is_digit c"
  using pad0_2 [OF assms(1,2)] assms(3) by auto

lemma clock_marks:
  assumes "0 \<le> h" "h < 100" "0 \<le> m" "m < 100" "0 \<le> s" "s < 100" "0 \<le> us" "us < 1000000"
  shows "c \<in> set (clock_text h m s us) \<Longrightarrow> is_digit c \<or> c = CHR '':'' \<or> c = CHR ''.''"
    and "length (clock_text h m s us) = (if us = 0 then 8 else 15)"
    and "is_digit (last (clock_text h m s us))" and "is_digit (hd (clock_text h m s us))"
proof -
  have us: "length (pad0 6 us) = 6" "list_all is_digit (pad0 6 us)"
    using pad0_read [of us 5] assms by simp_all
  obtain a b where h: "pad0 2 h = [a, b]" "is_digit a" "is_digit b" using pad0_2 assms by blast
  obtain c d where m: "pad0 2 m = [c, d]" "is_digit c" "is_digit d" using pad0_2 assms by blast
  obtain e f where s: "pad0 2 s = [e, f]" "is_digit e" "is_digit f" using pad0_2 assms by blast
  show "c \<in> set (clock_text h m s us) \<Longrightarrow> is_digit c \<or> c = CHR '':'' \<or> c = CHR ''.''" for c
    using us by (auto simp: clock_text_def h m s list_all_iff split: if_splits)
  show "length (clock_text h m s us) = (if us = 0 then 8 else 15)"
    using us by (simp add: clock_text_def h m s)
  show "is_digit (hd (clock_text h m s us))" by (simp add: clock_text_def h m s)
  have "pad0 6 us \<noteq> []" using us(1) by auto
  then show "is_digit (last (clock_text h m s us))"
    using us by (simp add: clock_text_def h m s list_all_iff)
qed

lemma sexagesimal: "n = ((n div 3600) * 60 + n div 60 mod 60) * 60 + n mod (60 :: int)"
proof -
  have "n div 3600 = n div 60 div 60" by (simp add: zdiv_zmult2_eq [symmetric])
  then show ?thesis using div_mult_mod_eq [of n 60] div_mult_mod_eq [of "n div 60" 60] by simp
qed

text \<open>An offset: hours and minutes, and the seconds only if there are any.\<close>

lemma read_offset:
  assumes "\<bar>off\<bar> < DAY_US"
  shows "\<exists>t h m s us. offset_text off = (if off < 0 then CHR ''-'' else CHR ''+'') # t \<and> parse_hh_mm_ss_ff t = Inr (h, m, s, us) \<and>
    ((h * 60 + m) * 60 + s) * 1000000 + us = \<bar>off\<bar> \<and> length t \<in> {5, 8, 15} \<and> is_digit (last t) \<and> CHR ''-'' \<notin> set t"
proof -
  define a where "a = \<bar>off\<bar>"
  define n us where "n = a div 1000000" and "us = a mod 1000000"
  define h m s where "h = n div 3600" and "m = n div 60 mod 60" and "s = n mod 60"
  have "n = (h * 60 + m) * 60 + s" unfolding h_def m_def s_def by (rule sexagesimal)
  moreover have "a = n * 1000000 + us" unfolding n_def us_def by (rule div_mult_mod_eq [symmetric])
  moreover have "0 \<le> a" "a < 86400000000" using assms by (simp_all add: a_def DAY_US_def)
  ultimately have a: "0 \<le> a" "a < 86400000000" "a = n * 1000000 + us" "n = (h * 60 + m) * 60 + s" by blast+
  have b: "0 \<le> us" "us < 1000000" "0 \<le> n" "n < 86400" "0 \<le> s" "s < 60" "0 \<le> m" "m < 60"
    using a(1,2) by (auto simp: us_def n_def s_def m_def)
  then have h: "0 \<le> h" "h < 24" by (auto simp: h_def)
  show ?thesis
  proof (cases "s = 0 \<and> us = 0")
    case True
    have t: "offset_text off = (if off < 0 then CHR ''-'' else CHR ''+'') # (pad0 2 h @ '':'' @ pad0 2 m)"
      using True by (simp add: offset_text_def Let_def a_def [symmetric] n_def [symmetric] us_def [symmetric] h_def m_def s_def)
    have "length (pad0 2 h @ '':'' @ pad0 2 m) = 5" "is_digit (last (pad0 2 h @ '':'' @ pad0 2 m))"
      "CHR ''-'' \<notin> set (pad0 2 h @ '':'' @ pad0 2 m)"
      using pad0_2 [of h] pad0_2 [of m] b h digit_is_no_mark [of "CHR ''-''"] by auto
    moreover have "parse_hh_mm_ss_ff (pad0 2 h @ '':'' @ pad0 2 m) = Inr (h, m, 0, 0)"
      using read_minutes [of h m] b h by simp
    moreover have "((h * 60 + m) * 60 + 0) * 1000000 + 0 = \<bar>off\<bar>" using a True by (simp add: a_def)
    ultimately show ?thesis using t by blast
  next
    case False
    have t: "offset_text off = (if off < 0 then CHR ''-'' else CHR ''+'') # clock_text h m s us"
      using False by (auto simp: offset_text_def clock_text_def Let_def a_def [symmetric] n_def [symmetric] us_def [symmetric] h_def m_def s_def)
    have "length (clock_text h m s us) \<in> {5, 8, 15}" "is_digit (last (clock_text h m s us))"
      "parse_hh_mm_ss_ff (clock_text h m s us) = Inr (h, m, s, us)" "CHR ''-'' \<notin> set (clock_text h m s us)"
      using clock_marks [of h m s us] read_clock [of h m s us] b h digit_is_no_mark [of "CHR ''-''"] by auto
    moreover have "((h * 60 + m) * 60 + s) * 1000000 + us = \<bar>off\<bar>" using a by (simp add: a_def)
    ultimately show ?thesis using t by blast
  qed
qed

subsection \<open>The whole text\<close>

lemma find_char_here: "c \<notin> set t \<Longrightarrow> find_char c (t @ c # u) = length t + 1"
proof -
  assume "c \<notin> set t"
  then have "takeWhile (\<lambda>x. x \<noteq> c) (t @ c # u) = t" by (induction t) auto
  then show ?thesis by (simp add: find_char_def)
qed

lemma read_time_with_offset:
  assumes "0 \<le> h" "h < 24" "0 \<le> m" "m < 60" "0 \<le> s" "s < 60" "0 \<le> us" "us < 1000000" and "\<bar>off\<bar> < DAY_US"
  shows "parse_isoformat_time (clock_text h m s us @ offset_text off) = Inr ((h, m, s, us), Some off)"
proof -
  let ?c = "clock_text h m s us"
  obtain t oh om os ous where t: "offset_text off = (if off < 0 then CHR ''-'' else CHR ''+'') # t"
    "parse_hh_mm_ss_ff t = Inr (oh, om, os, ous)" "((oh * 60 + om) * 60 + os) * 1000000 + ous = \<bar>off\<bar>"
    "length t \<in> {5, 8, 15}" "is_digit (last t)" "CHR ''-'' \<notin> set t"
    using read_offset [OF assms(9)] by blast
  have marks: "CHR ''-'' \<notin> set ?c" "CHR ''+'' \<notin> set ?c"
    using clock_marks(1) [of h m s us] assms digit_is_no_mark by fastforce+
  have len: "8 \<le> length ?c" using clock_marks(2) [of h m s us] assms by simp
  have clock: "parse_hh_mm_ss_ff ?c = Inr (h, m, s, us)" using read_clock [of h m s us] assms by simp
  have notZ: "last t \<noteq> CHR ''Z''" "t \<noteq> []" using digit_is_no_mark [OF t(5)] t(4) by auto
  have short: "length t \<notin> {0, 1, 3}" using t(4) by auto
  show ?thesis
  proof (cases "off < 0")
    case True
    have "find_char CHR ''-'' (?c @ CHR ''-'' # t) = length ?c + 1" by (rule find_char_here [OF marks(1)])
    then show ?thesis using True t(1-3) short len clock notZ assms(9)
      by (simp add: parse_isoformat_time_def Let_def nth_append)
  next
    case False
    have "find_char CHR ''-'' (?c @ CHR ''+'' # t) = 0" using marks t(6) by (simp add: find_char_def)
    moreover have "find_char CHR ''+'' (?c @ CHR ''+'' # t) = length ?c + 1" by (rule find_char_here [OF marks(2)])
    ultimately show ?thesis using False t(1-3) short len clock notZ assms(9)
      by (simp add: parse_isoformat_time_def Let_def nth_append)
  qed
qed

lemma date_text_read:
  assumes "1 \<le> y" "y \<le> 9999" "1 \<le> m" "m \<le> 12" "1 \<le> d" "d \<le> 31"
  shows "\<exists>ds. pad0 4 y @ ''-'' @ pad0 2 m @ ''-'' @ pad0 2 d = ds \<and> length ds = 10 \<and> char_at ds 4 = Some CHR ''-'' \<and>
    (\<exists>c. char_at ds 5 = Some c \<and> is_digit c) \<and> parse_isoformat_date ds = Inr (y, m, d)"
proof -
  obtain y1 y2 y3 y4 where y: "pad0 4 y = [y1, y2, y3, y4]" "is_digit y1" "is_digit y2" "is_digit y3" "is_digit y4" "dec_val [y1, y2, y3, y4] = y"
    using pad0_4 [of y] assms by auto
  obtain a b where m: "pad0 2 m = [a, b]" "is_digit a" "is_digit b" "dec_val [a, b] = m" using pad0_2 [of m] assms by auto
  obtain e f where d: "pad0 2 d = [e, f]" "is_digit e" "is_digit f" "dec_val [e, f] = d" using pad0_2 [of d] assms by auto
  define ds where "ds = [y1, y2, y3, y4, CHR ''-'', a, b, CHR ''-'', e, f]"
  have num: "num ds 0 4 = Inr y" "num ds 5 2 = Inr m" "num ds 8 2 = Inr d"
    using y m d num_read [of 0 ds "[y1, y2, y3, y4]" _ 4] num_read [of 5 ds "[a, b]" _ 2] num_read [of 8 ds "[e, f]" "[]" 2]
    by (simp_all add: ds_def)
  have at: "length ds = 10" "char_at ds 4 = Some CHR ''-''" "char_at ds 5 = Some a" "char_at ds 7 = Some CHR ''-''"
    by (simp_all add: ds_def char_at_def)
  have "a \<noteq> CHR ''W''" using digit_is_no_mark [OF m(2)] by simp
  then have "parse_isoformat_date ds = Inr (y, m, d)"
    using num at by (simp add: parse_isoformat_date_def Let_def)
  then show ?thesis using at m(2) by (auto simp: ds_def y(1) m(1) d(1))
qed

lemma clock_of_wall:
  assumes "time_of_day d = (h, m, s, us)"
  shows "0 \<le> h \<and> h < 24 \<and> 0 \<le> m \<and> m < 60 \<and> 0 \<le> s \<and> s < 60 \<and> 0 \<le> us \<and> us < 1000000 \<and>
    ((h * 60 + m) * 60 + s) * 1000000 + us = wall d mod DAY_US"
proof -
  define t where "t = wall d mod DAY_US"
  define n where "n = t div 1000000"
  have t: "0 \<le> t" "t < 86400000000" by (simp_all add: t_def DAY_US_def)
  have f: "h = n div 3600" "m = n div 60 mod 60" "s = n mod 60" "us = t mod 1000000"
    using assms by (simp_all add: time_of_day_def Let_def t_def n_def)
  have n: "0 \<le> n" "n < 86400" using t by (auto simp: n_def)
  have "n = (h * 60 + m) * 60 + s" unfolding f by (rule sexagesimal)
  then have "((h * 60 + m) * 60 + s) * 1000000 + us = t"
    using mult_div_mod_eq [of 1000000 t] by (simp add: n_def [symmetric] f(4))
  moreover have "0 \<le> h" "h < 24" "0 \<le> m" "m < 60" "0 \<le> s" "s < 60" "0 \<le> us" "us < 1000000"
    using n t unfolding f by auto
  ultimately show ?thesis by (simp add: t_def)
qed

lemma days_in_month_le:
  assumes "1 \<le> m" and "m \<le> 12"
  shows "days_in_month y m \<le> 31"
proof -
  have "month_lengths ! nat (m - 1) \<in> set month_lengths"
    by (rule nth_mem) (use assms in \<open>simp add: month_lengths_def nat_less_iff\<close>)
  then have "month_lengths ! nat (m - 1) \<le> 31" by (auto simp: month_lengths_def)
  then show ?thesis by (simp add: days_in_month_def month_length_def)
qed

lemma read_isoformat:
  assumes "wall_ok (wall d)" and "\<bar>offset d\<bar> < DAY_US"
  shows "fromisoformat (isoformat [c] d) = Inr (Aware d)"
proof -
  obtain y m dd where ymd: "ord2ymd (date_of d) = (y, m, dd)" by (metis surj_pair)
  obtain h mi s us where tod: "time_of_day d = (h, mi, s, us)" by (metis surj_pair)
  note clk = clock_of_wall [OF tod]
  note ord = ord2ymd_spec [OF ymd]
  have year: "1 \<le> y" "y \<le> 9999" using ord2ymd_year [OF _ _ ymd] date_of_range [OF assms(1)] by simp_all
  have "dd \<le> 31" using ord days_in_month_le [of m y] by linarith
  with date_text_read [of y m dd] year ord obtain ds a where ds: "pad0 4 y @ ''-'' @ pad0 2 m @ ''-'' @ pad0 2 dd = ds"
    "length ds = 10" "char_at ds 4 = Some CHR ''-''" "char_at ds 5 = Some a" "is_digit a" "parse_isoformat_date ds = Inr (y, m, dd)"
    by auto
  let ?t = "clock_text h mi s us @ offset_text (offset d)"
  have "isoformat [c] d = pad0 4 y @ ''-'' @ pad0 2 m @ ''-'' @ pad0 2 dd @ c # ?t"
    by (simp add: isoformat_def ymd tod clock_text_def)
  also have "\<dots> = (pad0 4 y @ ''-'' @ pad0 2 m @ ''-'' @ pad0 2 dd) @ c # ?t" by simp
  finally have printed: "isoformat [c] d = ds @ c # ?t" unfolding ds(1) .
  have "char_at (ds @ c # ?t) 4 = Some CHR ''-''" "char_at (ds @ c # ?t) 5 \<noteq> Some CHR ''W''"
    using ds(2-5) digit_is_no_mark [OF ds(5)] by (auto simp: char_at_def nth_append split: if_splits)
  then have sep: "separator_at (ds @ c # ?t) = Inr 10" using ds(2) by (simp add: separator_at_def Let_def)
  have "clock_text h mi s us \<noteq> []" using clock_marks(2) [of h mi s us] clk by (auto split: if_splits)
  then have t: "?t \<noteq> []" "is_digit (hd ?t)" using clock_marks(4) [of h mi s us] clk by (simp_all add: hd_append)
  then have rest: "after_separator (c # ?t) = ?t"
    using digit_is_no_mark [OF t(2)] by (cases ?t) (simp_all add: after_separator_def)
  have time: "parse_isoformat_time ?t = Inr ((h, mi, s, us), Some (offset d))"
    using read_time_with_offset [of h mi s us "offset d"] clk assms(2) by simp
  have "ymd2ord y m dd - 1 = wall d div DAY_US" "((h * 60 + mi) * 60 + s) * 1000000 + us = wall d mod DAY_US"
    using ord clk by (simp_all only: date_of_def add_diff_cancel_right')
  then have "(ymd2ord y m dd - 1) * DAY_US + ((h * 60 + mi) * 60 + s) * 1000000 + us = wall d"
    using div_mult_mod_eq [of "wall d" DAY_US] by (simp only: add.assoc)
  then have "mk_wall y m dd h mi s us = Inr (wall d)" using ord year clk by (simp add: mk_wall_def)
  then show ?thesis
    using \<open>clock_text h mi s us \<noteq> []\<close> by (simp add: printed fromisoformat_def ds(2) sep ds(6) rest time)
qed

lemma isoformat_last:
  assumes "\<bar>offset d\<bar> < DAY_US"
  shows "\<not> endswith_Z (isoformat sep d)"
proof -
  obtain t where t: "offset_text (offset d) = (if offset d < 0 then CHR ''-'' else CHR ''+'') # t" "length t \<in> {5, 8, 15}" "is_digit (last t)"
    using read_offset [OF assms] by blast
  then have "t \<noteq> []" "last t \<noteq> CHR ''Z''" using digit_is_no_mark [OF t(3)] by auto
  then show ?thesis by (simp add: endswith_Z_def isoformat_def t(1) split: prod.split)
qed

subsection \<open>Properties\<close>

text \<open>C18: A datetime that is printed reads back as the same instant: for every datetime of the calendar with any
  offset of less than a day, down to its microseconds and with any character between date and time,
  \<^verbatim>\<open>parse_iso_datetime\<close> reads the text of \<^verbatim>\<open>isoformat\<close> as that datetime in UTC, with an error only if it has
  none in the calendar; and a UTC datetime reads the same when it is written with a Z.\<close>

theorem printed_datetime_reads_back:
  assumes "wall_ok (wall d)" and "\<bar>offset d\<bar> < DAY_US"
  shows "parse_iso_datetime (isoformat [c] d) = (if wall_ok (instant d) then Inr (utc (instant d)) else Inl OverflowError) \<and>
    (offset d = 0 \<longrightarrow> (\<exists>t. isoformat [c] d = t @ ''+00:00'' \<and> parse_iso_datetime (t @ ''Z'') = Inr d))"
proof -
  note read = read_isoformat [OF assms]
  have "parse_iso_datetime (isoformat [c] d) = require_aware_utc (Aware d)"
    using isoformat_last [OF assms(2), of "[c]"] read by (simp add: parse_iso_datetime_def)
  moreover have "\<exists>t. isoformat [c] d = t @ ''+00:00'' \<and> parse_iso_datetime (t @ ''Z'') = Inr d" if z: "offset d = 0"
  proof -
    have "offset_text 0 = ''+00:00''" by code_simp
    moreover have "\<exists>t. isoformat [c] d = t @ offset_text (offset d)"
      unfolding isoformat_def append_assoc [symmetric] by (auto split: prod.split)
    ultimately obtain t where t: "isoformat [c] d = t @ ''+00:00''" using z by auto
    have "d = utc (wall d)" using offset_zero_utc [OF z] z by (simp add: instant_def)
    then have "require_aware_utc (Aware d) = Inr d" using assms(1)
      by (simp add: require_aware_utc_def astimezone_utc_def instant_def z)
    then show ?thesis using t read [of c] unfolding t by (auto simp: parse_iso_datetime_def endswith_Z_def)
  qed
  ultimately show ?thesis by (simp add: require_aware_utc_def astimezone_utc_def)
qed

lemma printed_datetime_reads_back_witness:
  "isoformat ''T'' \<lparr>wall = 86400000001, offset = - 3600000000\<rparr> = ''0001-01-02T00:00:00.000001-01:00'' \<and>
   parse_iso_datetime ''0001-01-02T00:00:00.000001-01:00'' = Inr (utc 90000000001)"
proof -
  let ?d = "\<lparr>wall = 86400000001, offset = - 3600000000\<rparr>"
  have "isoformat ''T'' ?d = ''0001-01-02T00:00:00.000001-01:00''" by code_simp
  then show ?thesis using printed_datetime_reads_back [of ?d "CHR ''T''"]
    by (simp add: wall_ok_def instant_def DAY_US_def MAX_ORD_def)
qed

end
