(* ===== verification/Migrations.thy ===== *)
theory Migrations
  imports Prelude
begin

text \<open>
  The schema of the database: what \<^verbatim>\<open>models.py\<close> declares, and the migrations of
  \<^verbatim>\<open>src/migrations/versions\<close> as lists of statements over a catalog of tables with their rows. A
  statement fails as PostgreSQL does (a name that exists or does not, a column that is missing, a table
  another one refers to, a NOT NULL column added to a table with rows); \<^verbatim>\<open>env.py\<close> runs them in one
  transaction. The order of revisions and the version table are Alembic's. Columns of the base class of
  the models, of another package, are an argument.
\<close>

subsection \<open>Catalog and statements\<close>

datatype sql_type = SQL_UUID | SQL_VARCHAR "nat option" | SQL_TEXT | SQL_TIMESTAMPTZ | SQL_INTEGER

record column =
  col_name :: string
  col_type :: sql_type
  col_nullable :: bool
  col_primary_key :: bool

record foreign_key =
  fk_columns :: "string list"
  fk_table :: string
  fk_referred :: "string list"
  fk_ondelete :: "string option"

record index =
  ix_name :: string
  ix_columns :: "string list"
  ix_unique :: bool

record 'v sql_table =
  tb_name :: string
  tb_columns :: "column list"
  tb_foreign_keys :: "foreign_key list"
  tb_indexes :: "index list"
  tb_rows :: "(string \<Rightarrow> 'v option) list"

type_synonym 'v catalog = "'v sql_table list"

datatype ddl = CreateTable string "column list" "foreign_key list" | DropTable string
  | CreateIndex string string "string list" bool | DropIndex string
  | AddColumn string column | DropColumn string string

definition find_table :: "string \<Rightarrow> 'v catalog \<Rightarrow> 'v sql_table option" where
  "find_table n s = find (\<lambda>t. tb_name t = n) s"

definition column_names :: "'v sql_table \<Rightarrow> string list" where
  "column_names t = map col_name (tb_columns t)"

definition relation_names :: "'v catalog \<Rightarrow> string list" where
  \<comment> \<open>tables and indexes share one name space\<close>
  "relation_names s = map tb_name s @ concat (map (\<lambda>t. map ix_name (tb_indexes t)) s)"

definition fk_ok :: "string list \<Rightarrow> 'v catalog \<Rightarrow> foreign_key \<Rightarrow> bool" where
  "fk_ok names s fk \<longleftrightarrow> set (fk_columns fk) \<subseteq> set names \<and> length (fk_columns fk) = length (fk_referred fk) \<and>
     (case find_table (fk_table fk) s of None \<Rightarrow> False | Some t \<Rightarrow> set (fk_referred fk) \<subseteq> set (column_names t))"

definition ddl_error :: "string \<Rightarrow> string \<Rightarrow> exn + 'a" where
  "ddl_error msg n = Inl (DbError (msg @ '': '' @ n))"

definition change_table :: "string \<Rightarrow> ('v sql_table \<Rightarrow> 'v sql_table) \<Rightarrow> 'v catalog \<Rightarrow> 'v catalog" where
  "change_table n f s = map (\<lambda>t. if tb_name t = n then f t else t) s"

fun exec_ddl :: "ddl \<Rightarrow> 'v catalog \<Rightarrow> exn + 'v catalog" where
  "exec_ddl (CreateTable n cols fks) s =
     (if n \<in> set (relation_names s) then ddl_error ''relation already exists'' n
      else if \<not> distinct (map col_name cols) then ddl_error ''column specified more than once'' n
      else if \<not> list_all (fk_ok (map col_name cols) s) fks then ddl_error ''foreign key cannot be created'' n
      else Inr (s @ [\<lparr>tb_name = n, tb_columns = cols, tb_foreign_keys = fks, tb_indexes = [], tb_rows = []\<rparr>]))"
| "exec_ddl (DropTable n) s =
     (if find_table n s = None then ddl_error ''table does not exist'' n
      else if \<exists>t \<in> set s. tb_name t \<noteq> n \<and> (\<exists>fk \<in> set (tb_foreign_keys t). fk_table fk = n)
      then ddl_error ''other objects depend on table'' n
      else Inr (filter (\<lambda>t. tb_name t \<noteq> n) s))"
| "exec_ddl (CreateIndex n tn cols u) s =
     (case find_table tn s of
        None \<Rightarrow> ddl_error ''relation does not exist'' tn
      | Some t \<Rightarrow>
          if n \<in> set (relation_names s) then ddl_error ''relation already exists'' n
          else if \<not> set cols \<subseteq> set (column_names t) then ddl_error ''column does not exist'' n
          else Inr (change_table tn (\<lambda>t. t\<lparr>tb_indexes := tb_indexes t @ [\<lparr>ix_name = n, ix_columns = cols, ix_unique = u\<rparr>]\<rparr>) s))"
| "exec_ddl (DropIndex n) s =
     (if \<exists>t \<in> set s. \<exists>ix \<in> set (tb_indexes t). ix_name ix = n
      then Inr (map (\<lambda>t. t\<lparr>tb_indexes := filter (\<lambda>ix. ix_name ix \<noteq> n) (tb_indexes t)\<rparr>) s)
      else ddl_error ''index does not exist'' n)"
| "exec_ddl (AddColumn tn c) s =
     (case find_table tn s of
        None \<Rightarrow> ddl_error ''relation does not exist'' tn
      | Some t \<Rightarrow>
          if col_name c \<in> set (column_names t) then ddl_error ''column already exists'' (col_name c)
          else if \<not> col_nullable c \<and> tb_rows t \<noteq> [] then ddl_error ''column contains null values'' (col_name c)
          else Inr (change_table tn (\<lambda>t. t\<lparr>tb_columns := tb_columns t @ [c],
                 tb_rows := map (\<lambda>r. r(col_name c := None)) (tb_rows t)\<rparr>) s))"
| "exec_ddl (DropColumn tn n) s =
     (case find_table tn s of
        None \<Rightarrow> ddl_error ''relation does not exist'' tn
      | Some t \<Rightarrow>
          if n \<notin> set (column_names t) then ddl_error ''column does not exist'' n
          else Inr (change_table tn (\<lambda>t. t\<lparr>tb_columns := filter (\<lambda>c. col_name c \<noteq> n) (tb_columns t),
                 tb_indexes := filter (\<lambda>ix. n \<notin> set (ix_columns ix)) (tb_indexes t),
                 tb_rows := map (\<lambda>r. r(n := None)) (tb_rows t)\<rparr>) s))"

fun exec_all :: "ddl list \<Rightarrow> 'v catalog \<Rightarrow> exn + 'v catalog" where
  "exec_all [] s = Inr s"
| "exec_all (x # xs) s = then_do (exec_ddl x s) (exec_all xs)"

lemma exec_all_append: "exec_all (xs @ ys) s = then_do (exec_all xs s) (exec_all ys)"
  by (induction xs arbitrary: s) (simp_all add: then_do_def split: sum.split)

subsection \<open>The revisions\<close>

record revision =
  rev_id :: string
  rev_down :: "string option"
  rev_upgrade :: "ddl list"
  rev_downgrade :: "ddl list"

definition sa_column :: "string \<Rightarrow> sql_type \<Rightarrow> bool \<Rightarrow> column" where
  "sa_column n ty null = \<lparr>col_name = n, col_type = ty, col_nullable = null, col_primary_key = False\<rparr>"

definition id_column :: column where
  "id_column = \<lparr>col_name = ''id'', col_type = SQL_UUID, col_nullable = False, col_primary_key = True\<rparr>"

definition revision_0001 :: revision where
  "revision_0001 = \<lparr>rev_id = ''0001'', rev_down = None,
     rev_upgrade =
       [CreateTable ''tasks''
          [id_column,
           sa_column ''task_name'' (SQL_VARCHAR (Some 255)) False,
           sa_column ''description'' SQL_TEXT True,
           sa_column ''deadline'' SQL_TIMESTAMPTZ False,
           sa_column ''priority'' (SQL_VARCHAR None) False,
           sa_column ''status'' (SQL_VARCHAR None) False,
           sa_column ''created_at'' SQL_TIMESTAMPTZ False,
           sa_column ''updated_at'' SQL_TIMESTAMPTZ False] [],
        CreateIndex ''ix_tasks_status'' ''tasks'' [''status''] False,
        CreateIndex ''ix_tasks_deadline'' ''tasks'' [''deadline''] False,
        CreateTable ''reminders''
          [id_column,
           sa_column ''task_id'' SQL_UUID False,
           sa_column ''remind_at'' SQL_TIMESTAMPTZ False,
           sa_column ''status'' (SQL_VARCHAR None) False,
           sa_column ''created_at'' SQL_TIMESTAMPTZ False,
           sa_column ''updated_at'' SQL_TIMESTAMPTZ False]
          [\<lparr>fk_columns = [''task_id''], fk_table = ''tasks'', fk_referred = [''id''], fk_ondelete = Some ''CASCADE''\<rparr>],
        CreateIndex ''ix_reminders_task_id'' ''reminders'' [''task_id''] False,
        CreateIndex ''ix_reminders_remind_at'' ''reminders'' [''remind_at''] False],
     rev_downgrade =
       [DropIndex ''ix_reminders_remind_at'', DropIndex ''ix_reminders_task_id'', DropTable ''reminders'',
        DropIndex ''ix_tasks_deadline'', DropIndex ''ix_tasks_status'', DropTable ''tasks'']\<rparr>"

definition revision_0002 :: revision where
  "revision_0002 = \<lparr>rev_id = ''0002'', rev_down = Some ''0001'',
     rev_upgrade =
       [CreateTable ''pending_confirmations''
          [id_column,
           sa_column ''user_id'' SQL_UUID True,
           sa_column ''execution_command'' SQL_TEXT False,
           sa_column ''created_at'' SQL_TIMESTAMPTZ False,
           sa_column ''updated_at'' SQL_TIMESTAMPTZ True,
           sa_column ''expires_at'' SQL_TIMESTAMPTZ False,
           sa_column ''status'' (SQL_VARCHAR None) False] [],
        CreateIndex ''ix_pending_confirmations_user_id'' ''pending_confirmations'' [''user_id''] False,
        CreateIndex ''ix_pending_confirmations_status'' ''pending_confirmations'' [''status''] False,
        CreateIndex ''ix_pending_confirmations_expires_at'' ''pending_confirmations'' [''expires_at''] False],
     rev_downgrade =
       [DropIndex ''ix_pending_confirmations_expires_at'', DropIndex ''ix_pending_confirmations_status'',
        DropIndex ''ix_pending_confirmations_user_id'', DropTable ''pending_confirmations'']\<rparr>"

definition revision_0003 :: revision where
  "revision_0003 = \<lparr>rev_id = ''0003'', rev_down = Some ''0002'',
     rev_upgrade = [AddColumn ''tasks'' (sa_column ''duration_minutes'' SQL_INTEGER True)],
     rev_downgrade = [DropColumn ''tasks'' ''duration_minutes'']\<rparr>"

definition revisions :: "revision list" where
  "revisions = [revision_0001, revision_0002, revision_0003]"

subsection \<open>Running them\<close>

type_synonym 'v migrated = "string option \<times> 'v catalog"

fun upgrade_head :: "revision list \<Rightarrow> 'v migrated \<Rightarrow> exn + 'v migrated" where
  \<comment> \<open>every revision not applied yet, in order; one is applied only on the revision it names\<close>
  "upgrade_head [] (v, s) = Inr (v, s)"
| "upgrade_head (r # rs) (v, s) =
     (if rev_down r = v then then_do (exec_all (rev_upgrade r) s) (\<lambda>s'. upgrade_head rs (Some (rev_id r), s'))
      else upgrade_head rs (v, s))"

fun downgrade_base :: "revision list \<Rightarrow> 'v migrated \<Rightarrow> exn + 'v migrated" where
  \<comment> \<open>the list in the order of application, undone from its end\<close>
  "downgrade_base [] (v, s) = Inr (v, s)"
| "downgrade_base (r # rs) (v, s) =
     then_do (downgrade_base rs (v, s)) (\<lambda>(v', s').
       if v' = Some (rev_id r) then then_do (exec_all (rev_downgrade r) s') (\<lambda>s''. Inr (rev_down r, s'')) else Inr (v', s'))"

definition run_migrations ::
  "(('v migrated \<Rightarrow> exn + 'v migrated) \<Rightarrow> 'v migrated \<Rightarrow> (exn + unit) \<times> 'v migrated)" where
  \<comment> \<open>\<^verbatim>\<open>with context.begin_transaction()\<close>: all or nothing\<close>
  "run_migrations f st = (case f st of Inl e \<Rightarrow> (Inl e, st) | Inr st' \<Rightarrow> (Inr (), st'))"

definition run_migrations_online ::
  "'c option \<Rightarrow> (exn + string) \<Rightarrow> (string \<Rightarrow> exn + 'c) \<Rightarrow> ('c \<Rightarrow> (exn + unit) \<times> 'w) \<Rightarrow> 'w \<Rightarrow> (exn + unit) \<times> 'w" where
  \<comment> \<open>an injected connection, or one to the address of the loaded settings\<close>
  "run_migrations_online injected configured connect run w =
     (case (case injected of Some c \<Rightarrow> Inr c | None \<Rightarrow> then_do configured connect) of
        Inl e \<Rightarrow> (Inl e, w) | Inr c \<Rightarrow> run c)"

subsection \<open>What models.py declares\<close>

definition declared_table :: "column list \<Rightarrow> string \<Rightarrow> column list \<Rightarrow> foreign_key list \<Rightarrow> index list \<Rightarrow> 'v sql_table" where
  \<comment> \<open>a column of the class overrides the one of the same name of its base\<close>
  "declared_table base n own fks ixs =
     \<lparr>tb_name = n, tb_columns = filter (\<lambda>c. col_name c \<notin> col_name ` set own) base @ own,
      tb_foreign_keys = fks, tb_indexes = ixs, tb_rows = []\<rparr>"

definition sa_index :: "string \<Rightarrow> string \<Rightarrow> index" where
  "sa_index n c = \<lparr>ix_name = n, ix_columns = [c], ix_unique = False\<rparr>"

definition declared_pending_confirmations :: "column list \<Rightarrow> 'v sql_table" where
  "declared_pending_confirmations base = declared_table base ''pending_confirmations''
     [sa_column ''user_id'' SQL_UUID True, sa_column ''execution_command'' SQL_TEXT False,
      sa_column ''expires_at'' SQL_TIMESTAMPTZ False, sa_column ''status'' (SQL_VARCHAR None) False] []
     [sa_index ''ix_pending_confirmations_user_id'' ''user_id'', sa_index ''ix_pending_confirmations_status'' ''status'',
      sa_index ''ix_pending_confirmations_expires_at'' ''expires_at'']"

definition declared_tasks :: "column list \<Rightarrow> 'v sql_table" where
  "declared_tasks base = declared_table base ''tasks''
     [sa_column ''task_name'' (SQL_VARCHAR (Some 255)) False, sa_column ''description'' SQL_TEXT True,
      sa_column ''deadline'' SQL_TIMESTAMPTZ False, sa_column ''duration_minutes'' SQL_INTEGER True,
      sa_column ''priority'' (SQL_VARCHAR None) False, sa_column ''status'' (SQL_VARCHAR None) False,
      sa_column ''created_at'' SQL_TIMESTAMPTZ False, sa_column ''updated_at'' SQL_TIMESTAMPTZ False] []
     [sa_index ''ix_tasks_status'' ''status'', sa_index ''ix_tasks_deadline'' ''deadline'']"

definition declared_reminders :: "column list \<Rightarrow> 'v sql_table" where
  "declared_reminders base = declared_table base ''reminders''
     [sa_column ''task_id'' SQL_UUID False, sa_column ''remind_at'' SQL_TIMESTAMPTZ False,
      sa_column ''status'' (SQL_VARCHAR None) False,
      sa_column ''created_at'' SQL_TIMESTAMPTZ False, sa_column ''updated_at'' SQL_TIMESTAMPTZ False]
     [\<lparr>fk_columns = [''task_id''], fk_table = ''tasks'', fk_referred = [''id''], fk_ondelete = Some ''CASCADE''\<rparr>]
     [sa_index ''ix_reminders_task_id'' ''task_id'', sa_index ''ix_reminders_remind_at'' ''remind_at'']"

definition declared_schema :: "column list \<Rightarrow> 'v catalog" where
  "declared_schema base = [declared_pending_confirmations base, declared_tasks base, declared_reminders base]"

text \<open>A schema is a set of tables with sets of columns, keys and indexes; neither the order nor the rows matter.\<close>

definition schema_of :: "'v catalog \<Rightarrow> (string \<times> column set \<times> foreign_key set \<times> index set) set" where
  "schema_of s = (\<lambda>t. (tb_name t, set (tb_columns t), set (tb_foreign_keys t), set (tb_indexes t))) ` set s"

definition with_rows :: "(string \<Rightarrow> (string \<Rightarrow> 'v option) list) \<Rightarrow> 'v catalog \<Rightarrow> 'v catalog" where
  \<comment> \<open>the same tables with other rows in them\<close>
  "with_rows f s = map (\<lambda>t. t\<lparr>tb_rows := f (tb_name t)\<rparr>) s"

subsection \<open>The schemas on the way\<close>

definition migrated_table :: "string \<Rightarrow> column list \<Rightarrow> foreign_key list \<Rightarrow> index list \<Rightarrow> 'v sql_table" where
  "migrated_table n cols fks ixs = \<lparr>tb_name = n, tb_columns = cols, tb_foreign_keys = fks, tb_indexes = ixs, tb_rows = []\<rparr>"

definition schema_0001 :: "'v catalog" where
  "schema_0001 =
     [migrated_table ''tasks''
        [id_column, sa_column ''task_name'' (SQL_VARCHAR (Some 255)) False, sa_column ''description'' SQL_TEXT True,
         sa_column ''deadline'' SQL_TIMESTAMPTZ False, sa_column ''priority'' (SQL_VARCHAR None) False,
         sa_column ''status'' (SQL_VARCHAR None) False, sa_column ''created_at'' SQL_TIMESTAMPTZ False,
         sa_column ''updated_at'' SQL_TIMESTAMPTZ False] []
        [sa_index ''ix_tasks_status'' ''status'', sa_index ''ix_tasks_deadline'' ''deadline''],
      migrated_table ''reminders''
        [id_column, sa_column ''task_id'' SQL_UUID False, sa_column ''remind_at'' SQL_TIMESTAMPTZ False,
         sa_column ''status'' (SQL_VARCHAR None) False, sa_column ''created_at'' SQL_TIMESTAMPTZ False,
         sa_column ''updated_at'' SQL_TIMESTAMPTZ False]
        [\<lparr>fk_columns = [''task_id''], fk_table = ''tasks'', fk_referred = [''id''], fk_ondelete = Some ''CASCADE''\<rparr>]
        [sa_index ''ix_reminders_task_id'' ''task_id'', sa_index ''ix_reminders_remind_at'' ''remind_at'']]"

definition schema_0002 :: "'v catalog" where
  "schema_0002 = schema_0001 @
     [migrated_table ''pending_confirmations''
        [id_column, sa_column ''user_id'' SQL_UUID True, sa_column ''execution_command'' SQL_TEXT False,
         sa_column ''created_at'' SQL_TIMESTAMPTZ False, sa_column ''updated_at'' SQL_TIMESTAMPTZ True,
         sa_column ''expires_at'' SQL_TIMESTAMPTZ False, sa_column ''status'' (SQL_VARCHAR None) False] []
        [sa_index ''ix_pending_confirmations_user_id'' ''user_id'', sa_index ''ix_pending_confirmations_status'' ''status'',
         sa_index ''ix_pending_confirmations_expires_at'' ''expires_at'']]"

definition schema_0003 :: "'v catalog" where
  "schema_0003 = change_table ''tasks''
     (\<lambda>t. t\<lparr>tb_columns := tb_columns t @ [sa_column ''duration_minutes'' SQL_INTEGER True]\<rparr>) schema_0002"

lemmas schema_simps = migrated_table_def schema_0001_def schema_0002_def schema_0003_def sa_column_def id_column_def
  sa_index_def find_table_def column_names_def relation_names_def fk_ok_def change_table_def with_rows_def

lemma upgrade_0001: "exec_all (rev_upgrade revision_0001) [] = Inr schema_0001"
  by (simp add: revision_0001_def schema_simps)

lemma upgrade_0002: "exec_all (rev_upgrade revision_0002) (with_rows f schema_0001) =
    Inr (with_rows (f(''pending_confirmations'' := [])) schema_0002)"
  by (simp add: revision_0002_def schema_simps)

lemma upgrade_0003: "exec_all (rev_upgrade revision_0003) (with_rows f schema_0002) =
    Inr (with_rows (f(''tasks'' := map (\<lambda>r. r(''duration_minutes'' := None)) (f ''tasks''))) schema_0003)"
  by (simp add: revision_0003_def schema_simps)

lemma downgrade_0003: "exec_all (rev_downgrade revision_0003) (with_rows f schema_0003) =
    Inr (with_rows (f(''tasks'' := map (\<lambda>r. r(''duration_minutes'' := None)) (f ''tasks''))) schema_0002)"
  by (simp add: revision_0003_def schema_simps)

lemma downgrade_0002: "exec_all (rev_downgrade revision_0002) (with_rows f schema_0002) = Inr (with_rows f schema_0001)"
  by (simp add: revision_0002_def schema_simps)

lemma downgrade_0001: "exec_all (rev_downgrade revision_0001) (with_rows f schema_0001) = Inr []"
  by (simp add: revision_0001_def schema_simps)

lemma column_name [simp]: "col_name (sa_column n ty b) = n" "col_name id_column = ''id''"
  by (simp_all add: sa_column_def id_column_def)

lemma revision_chain: "rev_down revision_0001 = None" "rev_id revision_0001 = ''0001''"
  "rev_down revision_0002 = Some ''0001''" "rev_id revision_0002 = ''0002''"
  "rev_down revision_0003 = Some ''0002''" "rev_id revision_0003 = ''0003''"
  by (simp_all add: revision_0001_def revision_0002_def revision_0003_def)

lemma with_rows_empty [simp]: "with_rows f [] = []"
  by (simp add: with_rows_def)

lemma fresh_rows: "with_rows (\<lambda>_. []) schema_0001 = schema_0001" "with_rows (\<lambda>_. []) schema_0003 = schema_0003"
  by (simp_all add: schema_simps)

lemma with_rows_0001: "with_rows (f(''pending_confirmations'' := rs)) schema_0001 = with_rows f schema_0001"
  by (simp add: schema_simps)

lemma no_duration_rows: "\<forall>r \<in> set rs. r ''duration_minutes'' = None \<Longrightarrow> map (\<lambda>r. r(''duration_minutes'' := None)) rs = rs"
  by (simp add: map_idI fun_upd_idem)

lemma upgrade_from_0001:
  "upgrade_head revisions (Some ''0001'', with_rows f schema_0001) =
     Inr (Some ''0003'', with_rows (f(''pending_confirmations'' := [],
       ''tasks'' := map (\<lambda>r. r(''duration_minutes'' := None)) (f ''tasks''))) schema_0003)"
  by (simp add: revisions_def revision_chain upgrade_0002 upgrade_0003)

lemma upgrade_fresh: "exec_all (rev_upgrade revision_0002) schema_0001 = Inr (with_rows (\<lambda>_. []) schema_0002)"
    "exec_all (rev_upgrade revision_0003) (with_rows (\<lambda>_. []) schema_0002) = Inr schema_0003"
  using upgrade_0002 [of "\<lambda>_. []"] upgrade_0003 [of "\<lambda>_. []"] by (simp_all add: fresh_rows fun_upd_idem)

lemma upgrade_from_base: "upgrade_head revisions (None, []) = Inr (Some ''0003'', schema_0003)"
  by (simp add: revisions_def revision_chain upgrade_0001 upgrade_fresh)

lemma downgrade_from_head: "downgrade_base revisions (Some ''0003'', with_rows g schema_0003) = Inr (None, [])"
  by (simp add: revisions_def revision_chain downgrade_0003 downgrade_0002 downgrade_0001)

subsection \<open>Properties\<close>

text \<open>C11: The migrations build what the models declare: from an empty database \<^verbatim>\<open>upgrade head\<close> runs without an error and
  leaves, up to order, exactly the tables of \<^verbatim>\<open>models.py\<close>, with the same columns, types, nullability and
  primary keys, the same foreign key with its CASCADE and the same indexes. The base class of the models
  is assumed to declare \<^verbatim>\<open>id\<close>, \<^verbatim>\<open>created_at\<close> and a nullable \<^verbatim>\<open>updated_at\<close>.\<close>

theorem migrations_build_declared_schema:
  assumes "set base = {id_column, sa_column ''created_at'' SQL_TIMESTAMPTZ False, sa_column ''updated_at'' SQL_TIMESTAMPTZ True}"
  shows "\<exists>s. run_migrations (upgrade_head revisions) (None, []) = (Inr (), (Some ''0003'', s)) \<and>
    schema_of s = schema_of (declared_schema base)"
proof -
  let ?created = "sa_column ''created_at'' SQL_TIMESTAMPTZ False" and ?updated = "sa_column ''updated_at'' SQL_TIMESTAMPTZ True"
  have keep: "set (filter P base) = (if P id_column then {id_column} else {}) \<union>
      (if P ?created then {?created} else {}) \<union> (if P ?updated then {?updated} else {})" for P
    unfolding set_filter assms by auto
  have three: "{(n1, a1, f1, i1), (n2, a2, f2, i2), (n3, a3, f3, i3)} = {(n3, b3, f3, j3), (n1, b1, f1, j1), (n2, b2, f2, j2)}"
    if "a1 = b1" "i1 = j1" "a2 = b2" "i2 = j2" "a3 = b3" "i3 = j3"
    for n1 n2 n3 :: string and a1 a2 a3 b1 b2 b3 :: "column set" and f1 f2 f3 :: "foreign_key set" and i1 i2 i3 j1 j2 j3 :: "index set"
    using that by auto
  have "schema_of schema_0003 = schema_of (declared_schema base)"
    unfolding declared_schema_def declared_pending_confirmations_def declared_tasks_def declared_reminders_def
      declared_table_def schema_of_def schema_0003_def schema_0002_def schema_0001_def migrated_table_def change_table_def
    by (simp add: keep del: set_filter, rule three) auto
  then show ?thesis by (simp add: run_migrations_def upgrade_from_base)
qed

lemma migrations_build_declared_schema_witness:
  "\<exists>s. run_migrations (upgrade_head revisions) (None, []) = (Inr (), (Some ''0003'', s)) \<and>
     schema_of s = schema_of (declared_schema
       [id_column, sa_column ''created_at'' SQL_TIMESTAMPTZ False, sa_column ''updated_at'' SQL_TIMESTAMPTZ True])"
  by (rule migrations_build_declared_schema) simp

text \<open>C19: The migrations lose nothing on the way up and can be undone: with any rows in the tables of revision 0001,
  \<^verbatim>\<open>upgrade head\<close> keeps every row, each task without a duration, and adds an empty table of
  confirmations; undoing 0003 and 0002 right after gives back the tables with the same rows; and from any
  rows at the head \<^verbatim>\<open>downgrade base\<close> runs to the end without a statement refused, so the order of the
  dropped tables respects the foreign key.\<close>

theorem migrations_keep_rows:
  "\<exists>s1 s3. upgrade_head [revision_0001] (None, []) = Inr (Some ''0001'', s1) \<and>
     (\<forall>f. (\<forall>r \<in> set (f ''tasks''). r ''duration_minutes'' = None) \<longrightarrow>
        upgrade_head revisions (Some ''0001'', with_rows f s1) = Inr (Some ''0003'', with_rows (f(''pending_confirmations'' := [])) s3) \<and>
        exec_all (rev_downgrade revision_0003 @ rev_downgrade revision_0002) (with_rows (f(''pending_confirmations'' := [])) s3)
          = Inr (with_rows f s1)) \<and>
     (\<forall>g. downgrade_base revisions (Some ''0003'', with_rows g s3) = Inr (None, []))"
proof (intro exI conjI allI impI)
  show "upgrade_head [revision_0001] (None, []) = Inr (Some ''0001'', schema_0001)"
    by (simp add: revision_chain upgrade_0001)
  show "downgrade_base revisions (Some ''0003'', with_rows g schema_0003) = Inr (None, [])" for g
    by (rule downgrade_from_head)
  fix f :: "string \<Rightarrow> (string \<Rightarrow> 'a option) list"
  assume rows: "\<forall>r \<in> set (f ''tasks''). r ''duration_minutes'' = None"
  then have same: "f(''pending_confirmations'' := [], ''tasks'' := map (\<lambda>r. r(''duration_minutes'' := None)) (f ''tasks''))
      = f(''pending_confirmations'' := [])"
    by (auto simp: no_duration_rows)
  then show "upgrade_head revisions (Some ''0001'', with_rows f schema_0001)
      = Inr (Some ''0003'', with_rows (f(''pending_confirmations'' := [])) schema_0003)"
    by (simp add: upgrade_from_0001)
  show "exec_all (rev_downgrade revision_0003 @ rev_downgrade revision_0002) (with_rows (f(''pending_confirmations'' := [])) schema_0003)
      = Inr (with_rows f schema_0001)"
    using same by (simp add: exec_all_append downgrade_0003 downgrade_0002 with_rows_0001)
qed

lemma migrations_keep_rows_witness:
  "\<exists>s1 s3. upgrade_head revisions (Some ''0001'', with_rows (\<lambda>n. if n = ''tasks'' then [[''task_name'' \<mapsto> (7::nat)]] else []) s1)
     = Inr (Some ''0003'', with_rows ((\<lambda>n. if n = ''tasks'' then [[''task_name'' \<mapsto> 7]] else [])(''pending_confirmations'' := [])) s3)"
proof -
  have rows: "\<forall>r \<in> set ((\<lambda>n. if n = ''tasks'' then [[''task_name'' \<mapsto> (7::nat)]] else []) ''tasks''). r ''duration_minutes'' = None" by simp
  from migrations_keep_rows [where 'a = nat] show ?thesis
  proof (elim exE conjE, goal_cases)
    case (1 s1 s3)
    from mp [OF 1(2) [THEN spec [where x = "\<lambda>n. if n = ''tasks'' then [[''task_name'' \<mapsto> 7]] else []"]] rows]
    show ?case by blast
  qed
qed

end
