(* ===== verification/Spec2Isabelle.thy ===== *)
theory Spec2Isabelle
  imports HttpResources AppLife Races IsoText Migrations
begin

text \<open>
  A personal deadline manager: tasks with deadlines, reminders, a background worker that notifies due
  reminders, an HTTP API, and a chat whose messages a language model turns into proposed actions. The
  model is untrusted: a proposal is validated, resolved to stored rows, authorized, and, when it would
  delete something, stored as a pending confirmation that the user has to answer before it runs.

  All paths below are under \<^verbatim>\<open>src/src/personal_deadline_management_agent/\<close>, the migrations are under
  \<^verbatim>\<open>src/migrations/\<close>.

  \<^bold>\<open>Theories and the code they model.\<close>

  \<^item> \<^verbatim>\<open>Prelude\<close>: the exceptions of the program and of Python (\<^verbatim>\<open>exn\<close>), the result type \<^verbatim>\<open>exn + 'a\<close>
    with \<^verbatim>\<open>then_do\<close> and \<^verbatim>\<open>map_res\<close>, lookups in lists of rows, lengths of texts. \<^verbatim>\<open>PyTime\<close>: aware and naive
    datetimes in microseconds, the proleptic calendar, isoformat, fromisoformat. \<^verbatim>\<open>PyUuid\<close>: \<^verbatim>\<open>UUID(text)\<close> and
    \<^verbatim>\<open>str\<close> on 128-bit words. \<^verbatim>\<open>Samples\<close>: small rows for the concrete instances.
  \<^item> \<^verbatim>\<open>DatetimeUtils\<close>: \<^verbatim>\<open>utils/datetime_utils.py\<close>. \<^verbatim>\<open>Models\<close>: \<^verbatim>\<open>models.py\<close>, the rows, their enums, the
    session with its committed and working rows, and \<^verbatim>\<open>db_env\<close>, what PostgreSQL makes of a bound value.
  \<^item> \<^verbatim>\<open>Repositories\<close>: \<^verbatim>\<open>repositories/*.py\<close> and \<^verbatim>\<open>uow.py\<close>, every query and write over the lists of rows, and
    \<^verbatim>\<open>transact\<close>, the commit-or-rollback wrapper of \<^verbatim>\<open>modules/*.py\<close>.
  \<^item> \<^verbatim>\<open>TaskUseCases\<close>, \<^verbatim>\<open>ReminderUseCases\<close>: \<^verbatim>\<open>services/task_service.py\<close>, \<^verbatim>\<open>services/reminder_service.py\<close> and
    their modules. \<^verbatim>\<open>Scheduler\<close>: \<^verbatim>\<open>services/scheduler_service.py\<close>, \<^verbatim>\<open>modules/scheduler_module.py\<close>,
    \<^verbatim>\<open>scheduler.py\<close>. \<^verbatim>\<open>Races\<close>: the updates of tasks and reminders and the creation of a reminder, each split into
    what it reads and what it writes. \<^verbatim>\<open>IsoText\<close>: printing and reading datetimes against each other.
  \<^item> \<^verbatim>\<open>AgentSchemas\<close>: \<^verbatim>\<open>schemas/agent.py\<close>, \<^verbatim>\<open>services/agent_interpreter.py\<close>. \<^verbatim>\<open>SystemPrompt\<close>: the system
    prompt of the interpreter, word for word, against the schemas. \<^verbatim>\<open>Guardrails\<close>:
    \<^verbatim>\<open>services/action_validator.py\<close>, \<^verbatim>\<open>resource_resolver.py\<close>, \<^verbatim>\<open>authorization_service.py\<close>, \<^verbatim>\<open>guardrails/*.py\<close>.
    \<^verbatim>\<open>Confirmations\<close>: \<^verbatim>\<open>modules/pending_confirmation_module.py\<close>.
  \<^item> \<^verbatim>\<open>DateRange\<close>, \<^verbatim>\<open>Workload\<close>, \<^verbatim>\<open>Rescheduling\<close>: the date range resolver, the workload analysis and the
    rescheduling services of \<^verbatim>\<open>services/\<close> with \<^verbatim>\<open>schemas/workload.py\<close>. \<^verbatim>\<open>Executor\<close>: \<^verbatim>\<open>services/action_executor.py\<close>.
    \<^verbatim>\<open>ResponseGenerator\<close>, \<^verbatim>\<open>StructuredGeneration\<close>: \<^verbatim>\<open>services/agent_response_generator.py\<close>,
    \<^verbatim>\<open>adapters/structured_generation.py\<close>.
  \<^item> \<^verbatim>\<open>AgentHandler\<close>: \<^verbatim>\<open>handlers/agent_handler.py\<close>. \<^verbatim>\<open>Api\<close>: the other handlers, the request schemas and
    the exception handlers of \<^verbatim>\<open>main.py\<close>. \<^verbatim>\<open>Config\<close>, \<^verbatim>\<open>Observability\<close>: \<^verbatim>\<open>config.py\<close>, \<^verbatim>\<open>observability.py\<close>.
  \<^item> \<^verbatim>\<open>SystemRuns\<close>: chat, API and worker over one database. \<^verbatim>\<open>Deployment\<close>: \<^verbatim>\<open>dependencies.py\<close> and
    \<^verbatim>\<open>scheduler.main\<close>, the same with everything built from the loaded settings. \<^verbatim>\<open>HttpApp\<close>: \<^verbatim>\<open>main.create_app\<close>, a
    request with its method, path, headers and body to the messages of its answer and the new rows.
    \<^verbatim>\<open>HttpResources\<close>: requests one after the other against one task. \<^verbatim>\<open>AppLife\<close>: \<^verbatim>\<open>db.py\<close>, the lifespan of
    \<^verbatim>\<open>main.py\<close> and \<^verbatim>\<open>scheduler.main\<close> as whole processes, from the settings to the disposed engine.
  \<^item> \<^verbatim>\<open>Migrations\<close>: \<^verbatim>\<open>versions/*.py\<close> and \<^verbatim>\<open>env.py\<close> as statements over a catalog of tables, and the schema that
    \<^verbatim>\<open>models.py\<close> declares.

  \<^bold>\<open>State and effects.\<close> The database is three lists of rows in insertion order. An operation maps the
  working rows of a session to a result and new rows; an exception is \<^verbatim>\<open>Inl\<close>, and only \<^verbatim>\<open>commit\<close>, which
  may fail, moves working rows to the committed ones. Clock readings, fresh identifiers, the model's
  answers, the JSON codec and the messages of exceptions are arguments. Other transactions enter a tick
  of the worker as an arbitrary change of the rows before each read of a task and before each claim, and the operations of
  \<^verbatim>\<open>Races\<close> between their read and their write; otherwise requests run one after the other.

  \<^bold>\<open>Interfaces.\<close> \<^verbatim>\<open>keyed_table\<close> (what a lookup returns after an insertion, a replacement and a
  deletion) is interpreted on the three tables; \<^verbatim>\<open>conditional_claim\<close> (a conditional update reports its
  row count and disables itself) on the sending of reminders and on confirmations, which gives the two
  at-most-once results; \<^verbatim>\<open>invariant_use_case\<close> (an operation that keeps an invariant keeps it through its
  transaction) on the writing use cases of tasks and reminders and on the creation of confirmations.

  \<^bold>\<open>What the lemmas show.\<close> Component by component: the functional behaviour of the operations with
  their errors (tasks, reminders, confirmations, ranges, validation, resolution, decision, execution);
  the analyses against direct specifications (collisions, busy days, pressure, order, suggestions);
  a tick as one bulk update, its accounting under interference, at-most-once claims, termination of the
  polling loop. Across components: \<^verbatim>\<open>chat_effect\<close> is the abstract step of a chat, which every chat refines;
  \<^verbatim>\<open>use_case\<close> and \<^verbatim>\<open>system_step\<close> are the writes and the requests and ticks, over whose runs integrity,
  the life of a confirmation and the finality of SENT are invariants; no deletion without the user's own
  confirmation; nothing changes unless the answer says EXECUTED; a stranger changes nothing; the started
  worker drains its backlog. Every HTTP request is such a step or changes nothing (\<^verbatim>\<open>program_step\<close>), a GET and a
  refused one always the latter, and every answer carries one correlation identifier; what an answer shows
  of a task is what the next GET shows, and a deleted task is gone. A process that starts opens one engine
  and closes it once, and one that cannot start changes nothing. The migrations build
  the declared schema, keep the rows and can be undone.

  \<^bold>\<open>Fuel and bounds.\<close> No definition uses fuel. \<^verbatim>\<open>run_forever\<close> is a partial function whose \<^verbatim>\<open>None\<close> means
  that it never returns; \<^verbatim>\<open>worker_stops\<close> and \<^verbatim>\<open>deployed_worker_drains\<close> prove that it does. The calendar bounds
  of \<^verbatim>\<open>datetime\<close> are checked where Python checks them, with \<^verbatim>\<open>OverflowError\<close> and \<^verbatim>\<open>ValueError\<close> as values;
  Python's integers are \<^verbatim>\<open>int\<close>, identifiers are 128-bit words.

  \<^bold>\<open>Not modelled.\<close> pydantic's reading of JSON into typed fields, the text of an answer, and what FastAPI
  answers on paths of no route, which are fields of \<^verbatim>\<open>world\<close>; SQLAlchemy and PostgreSQL beyond the tables, the
  binding of values, the statements of the migrations and the failure of commits, in particular statements
  that fail for a lost connection and isolation between the statements of the operations that \<^verbatim>\<open>Races\<close> does
  not split; what \<^verbatim>\<open>create_engine\<close> of SQLAlchemy makes of an address; Alembic's version table and its offline
  mode; the \<^verbatim>\<open>updated_at\<close> that confirmations inherit and no code reads; what the logging module does with a
  record; signal registration, which is the stop flag of the loop. Digits and white space outside ASCII in numbers and identifiers are not read.
\<close>

end
